(* ===== verification/Go_Prelude.thy ===== *)
theory Go_Prelude
  imports Main "HOL-Library.Word"
begin

text \<open>
  Shared vocabulary of the development.

  \<^item> Names for the machine types the Go sources use: bytes, times and durations.
    A \<open>time.Time\<close> is the number of nanoseconds since the zero time (1 January of year 1),
    so the zero value is \<open>0\<close>; a \<open>time.Duration\<close> is a number of nanoseconds.
    The durations of this program stay far below the \<open>int64\<close> limit (the largest is a
    32-bit number of seconds), so unbounded integers lose nothing.
  \<^item> The loop shapes the sources repeat, as combinators with their lemmas: a loop that
    updates the first match and breaks, a loop that returns at the first match, the
    \<open>copy\<close>-and-reslice idiom, and the \<open>continue\<close>-only loop that keeps the last match.
  \<^item> Pairwise difference of a list with respect to an equality that is not HOL's.
\<close>

type_synonym byte = "8 word"
type_synonym bytes = "byte list"
type_synonym gotime = int
type_synonym duration = int

named_theorems go_loops
  \<open>facts about the loop shapes shared by the components\<close>

named_theorems wf_intros
  \<open>well-formedness facts: every operation keeps the invariant of its component\<close>

section \<open>Time\<close>

definition Second :: duration where
  "Second = 1000000000"

definition Minute :: duration where
  "Minute = 60 * Second"

definition Hour :: duration where
  "Hour = 60 * Minute"

definition After :: "gotime \<Rightarrow> gotime \<Rightarrow> bool" where
  "After t u \<longleftrightarrow> t > u"

definition IsZero :: "gotime \<Rightarrow> bool" where
  "IsZero t \<longleftrightarrow> t = 0"

lemma After_irrefl [simp]: "\<not> After t t"
  by (simp add: After_def)

lemma After_trans: "After t u \<Longrightarrow> u \<ge> v \<Longrightarrow> After t v"
  by (simp add: After_def)

section \<open>Loop shapes\<close>

text \<open>
  \<open>for i := range xs { if !P(xs[i]) { continue }; xs[i] = f(xs[i]); break }\<close>
\<close>

fun update_first :: "('a \<Rightarrow> bool) \<Rightarrow> ('a \<Rightarrow> 'a) \<Rightarrow> 'a list \<Rightarrow> 'a list" where
  "update_first P f [] = []"
| "update_first P f (x # xs) = (if P x then f x # xs else x # update_first P f xs)"

lemma length_update_first [simp]: "length (update_first P f xs) = length xs"
  by (induction xs) auto

lemma update_first_none [simp]: "\<forall>x \<in> set xs. \<not> P x \<Longrightarrow> update_first P f xs = xs"
  by (induction xs) auto

lemma map_update_first [go_loops]:
  "(\<And>x. P x \<Longrightarrow> g (f x) = g x) \<Longrightarrow> map g (update_first P f xs) = map g xs"
  by (induction xs) auto

lemma set_update_first_sub: "set (update_first P f xs) \<subseteq> set xs \<union> f ` {x \<in> set xs. P x}"
  by (induction xs) auto

lemma update_first_all [go_loops]:
  "\<forall>x \<in> set xs. Q x \<Longrightarrow> (\<And>x. x \<in> set xs \<Longrightarrow> P x \<Longrightarrow> Q x \<Longrightarrow> Q (f x)) \<Longrightarrow>
   \<forall>x \<in> set (update_first P f xs). Q x"
  by (induction xs) auto

lemma find_update_first [go_loops]:
  "(\<And>x. P x \<Longrightarrow> P (f x)) \<Longrightarrow>
   find P (update_first P f xs) = map_option f (find P xs)"
  by (induction xs) auto

lemma find_update_first_other [go_loops]:
  "(\<And>x. P x \<Longrightarrow> \<not> Q x \<and> \<not> Q (f x)) \<Longrightarrow>
   find Q (update_first P f xs) = find Q xs"
  by (induction xs) auto

text \<open>
  \<open>for _, x := range xs { if v, ok := g(x); ok { return v } }\<close>
\<close>

fun first_some :: "('a \<Rightarrow> 'b option) \<Rightarrow> 'a list \<Rightarrow> 'b option" where
  "first_some g [] = None"
| "first_some g (x # xs) = (case g x of Some v \<Rightarrow> Some v | None \<Rightarrow> first_some g xs)"

lemma first_some_None [simp]: "first_some g xs = None \<longleftrightarrow> (\<forall>x \<in> set xs. g x = None)"
  by (induction xs) (auto split: option.splits)

lemma first_some_SomeD: "first_some g xs = Some v \<Longrightarrow> \<exists>x \<in> set xs. g x = Some v"
  by (induction xs) (auto split: option.splits)

lemma first_some_find [go_loops]:
  "first_some (\<lambda>x. if P x then Some (h x) else None) xs = map_option h (find P xs)"
  by (induction xs) auto

text \<open>
  \<open>n := copy(dst, src); dst = dst[:n]\<close>: the elements of \<open>src\<close> overwrite the front of
  \<open>dst\<close>, as many as fit, and \<open>dst\<close> is cut to that many.
\<close>

definition go_copy :: "'a list \<Rightarrow> 'a list \<Rightarrow> 'a list \<times> nat" where
  "go_copy dst src = (let n = min (length dst) (length src) in (take n src @ drop n dst, n))"

definition copy_reslice :: "'a list \<Rightarrow> 'a list \<Rightarrow> 'a list" where
  "copy_reslice dst src = (let (dst', n) = go_copy dst src in take n dst')"

lemma copy_reslice_fits [simp]: "length src \<le> length dst \<Longrightarrow> copy_reslice dst src = src"
  by (simp add: copy_reslice_def go_copy_def Let_def)

lemma copy_reslice_filter [simp]: "copy_reslice xs (filter P xs) = filter P xs"
  by (simp add: length_filter_le)

section \<open>Pairwise difference up to an equality\<close>

definition pairwise_ne :: "('k \<Rightarrow> 'k \<Rightarrow> bool) \<Rightarrow> 'k list \<Rightarrow> bool" where
  "pairwise_ne eq ks \<longleftrightarrow> sorted_wrt (\<lambda>x y. \<not> eq x y) ks"

lemma pairwise_ne_Nil [simp]: "pairwise_ne eq []"
  by (simp add: pairwise_ne_def)

lemma pairwise_ne_Cons [simp]:
  "pairwise_ne eq (k # ks) \<longleftrightarrow> (\<forall>k' \<in> set ks. \<not> eq k k') \<and> pairwise_ne eq ks"
  by (auto simp: pairwise_ne_def)

lemma pairwise_ne_snoc [simp]:
  "pairwise_ne eq (ks @ [k]) \<longleftrightarrow> pairwise_ne eq ks \<and> (\<forall>k' \<in> set ks. \<not> eq k' k)"
  by (auto simp: pairwise_ne_def sorted_wrt_append)

lemma pairwise_ne_filter [wf_intros]:
  "pairwise_ne eq (map key xs) \<Longrightarrow> pairwise_ne eq (map key (filter P xs))"
  by (induction xs) auto

lemma pairwise_ne_eq_distinct: "pairwise_ne (=) ks = distinct ks"
  by (induction ks) auto

text \<open>
  With an equivalence, at most one element of a pairwise different list has a given key, so
  a loop that stops at the first match and one that visits every match agree.
\<close>

lemma pairwise_ne_filter_find:
  assumes eq: "equivp eq" and ne: "pairwise_ne eq (map key xs)"
  shows "filter (\<lambda>x. eq (key x) k) xs
         = (case find (\<lambda>x. eq (key x) k) xs of None \<Rightarrow> [] | Some x \<Rightarrow> [x])"
  using ne
proof (induction xs)
  case (Cons x xs)
  show ?case
  proof (cases "eq (key x) k")
    case True
    have "\<not> eq (key y) k" if "y \<in> set xs" for y
      using Cons.prems that True equivp_transp [OF eq, of "key x" k "key y"]
        equivp_symp [OF eq, of "key y" k] by auto
    with True show ?thesis by simp
  qed (use Cons in simp)
qed simp

lemma pairwise_ne_update_first [wf_intros]:
  assumes "pairwise_ne eq (map key xs)" and "\<And>x. P x \<Longrightarrow> key (f x) = key x"
  shows "pairwise_ne eq (map key (update_first P f xs))"
  using assms by (simp add: map_update_first)

lemma find_filter_other:
  "(\<And>x. Q x \<Longrightarrow> P x) \<Longrightarrow> find Q (filter P xs) = find Q xs"
  by (induction xs) auto

lemma find_append: "find P (xs @ ys) = (case find P xs of None \<Rightarrow> find P ys | Some x \<Rightarrow> Some x)"
  by (induction xs) auto

lemma find_None_iff_all: "find P xs = None \<longleftrightarrow> (\<forall>x \<in> set xs. \<not> P x)"
  by (auto simp: find_None_iff)

lemma find_SomeD: "find P xs = Some x \<Longrightarrow> x \<in> set xs \<and> P x"
  by (auto simp: find_Some_iff)

text \<open>A loop without \<open>break\<close> that overwrites its result at every match.\<close>

lemma fold_last_match:
  "fold (\<lambda>x r. if P x then g x else r) xs r
   = (case filter P xs of [] \<Rightarrow> r | ys \<Rightarrow> g (last ys))"
  by (induction xs arbitrary: r) (auto split: list.splits)

end
