(* ===== verification/Go_Net.thy ===== *)
theory Go_Net
  imports Go_Prelude
begin

text \<open>
  The part of Go's \<open>net\<close> package the server relies on: \<open>net.IP\<close> with \<open>Equal\<close>,
  \<open>To4\<close>, \<open>Mask\<close> and \<open>String\<close>, \<open>net.IPNet\<close> with \<open>Contains\<close>, \<open>CIDRMask\<close> and
  \<open>ParseCIDR\<close> for both address families.
  An address is its byte slice, 4 or 16 bytes long (any other length is representable, as in
  Go, and handled the way the library handles it); \<open>nil\<close> is the empty slice.

  The lemmas show that \<open>Equal\<close> is an equivalence that identifies an IPv4 address with its
  IPv4-mapped form, that \<open>Contains\<close> cannot tell the two apart, and that membership in a
  parsed IPv4 subnet is equality of the leading prefix bits.
\<close>

unbundle bit_operations_syntax

type_synonym ip = bytes

definition v4InV6Prefix :: bytes where
  "v4InV6Prefix = [0, 0, 0, 0, 0, 0, 0, 0, 0, 0, 255, 255]"

definition To4 :: "ip \<Rightarrow> ip" where
  "To4 x = (if length x = 4 then x
            else if length x = 16 \<and> take 12 x = v4InV6Prefix then drop 12 x
            else [])"

definition ip_Equal :: "ip \<Rightarrow> ip \<Rightarrow> bool" where
  "ip_Equal x y \<longleftrightarrow>
     (if length x = length y then x = y
      else if length x = 4 \<and> length y = 16 then take 12 y = v4InV6Prefix \<and> x = drop 12 y
      else if length x = 16 \<and> length y = 4 then take 12 x = v4InV6Prefix \<and> drop 12 x = y
      else False)"

definition IPv4 :: "byte \<Rightarrow> byte \<Rightarrow> byte \<Rightarrow> byte \<Rightarrow> ip" where
  "IPv4 a b c d = v4InV6Prefix @ [a, b, c, d]"

section \<open>Masks and subnets\<close>

definition cidr_byte :: "nat \<Rightarrow> byte" where
  "cidr_byte n = NOT (drop_bit n 255)"

fun cidr_mask_loop :: "nat \<Rightarrow> nat \<Rightarrow> bytes" where
  "cidr_mask_loop n 0 = []"
| "cidr_mask_loop n (Suc l) =
     (if n \<ge> 8 then 255 # cidr_mask_loop (n - 8) l
      else cidr_byte n # cidr_mask_loop 0 l)"

definition CIDRMask :: "nat \<Rightarrow> nat \<Rightarrow> bytes" where
  "CIDRMask ones bits = cidr_mask_loop ones (bits div 8)"

definition ip_Mask :: "ip \<Rightarrow> bytes \<Rightarrow> ip" where
  "ip_Mask x m =
     (let m' = (if length m = 16 \<and> length x = 4 \<and> (\<forall>b \<in> set (take 12 m). b = 255)
                then drop 12 m else m);
          x' = (if length m' = 4 \<and> length x = 16 \<and> take 12 x = v4InV6Prefix
                then drop 12 x else x)
      in if length x' \<noteq> length m' then [] else map2 (AND) x' m')"

record ip_net =
  net_IP :: ip
  net_Mask :: bytes

definition networkNumberAndMask :: "ip_net \<Rightarrow> ip \<times> bytes" where
  "networkNumberAndMask n =
     (let x = (if To4 (net_IP n) \<noteq> [] then To4 (net_IP n) else net_IP n);
          m = net_Mask n
      in if To4 (net_IP n) = [] \<and> length x \<noteq> 16 then ([], [])
         else if length m = 4 then (if length x \<noteq> 4 then ([], []) else (x, m))
         else if length m = 16 then (x, if length x = 4 then drop 12 m else m)
         else ([], []))"

definition Contains :: "ip_net \<Rightarrow> ip \<Rightarrow> bool" where
  "Contains n x =
     (let (nn, m) = networkNumberAndMask n;
          y = (if To4 x \<noteq> [] then To4 x else x)
      in length y = length nn \<and>
         (\<forall>i < length y. nn ! i AND m ! i = y ! i AND m ! i))"

section \<open>Parsing\<close>

definition is_digit :: "char \<Rightarrow> bool" where
  "is_digit c \<longleftrightarrow> of_char CHR ''0'' \<le> (of_char c :: nat) \<and> (of_char c :: nat) \<le> of_char CHR ''9''"

definition digit_val :: "char \<Rightarrow> nat" where
  "digit_val c = (of_char c :: nat) - of_char CHR ''0''"

definition hex_val :: "char \<Rightarrow> nat option" where
  "hex_val c =
     (if is_digit c then Some (digit_val c)
      else if of_char CHR ''a'' \<le> (of_char c :: nat) \<and> (of_char c :: nat) \<le> of_char CHR ''f''
           then Some ((of_char c :: nat) - of_char CHR ''a'' + 10)
      else if of_char CHR ''A'' \<le> (of_char c :: nat) \<and> (of_char c :: nat) \<le> of_char CHR ''F''
           then Some ((of_char c :: nat) - of_char CHR ''A'' + 10)
      else None)"

definition big :: nat where
  "big = 16777215"

text \<open>
  \<open>dtoi\<close> and \<open>xtoi\<close> read a leading number in base 10 or 16: the number and the rest of
  the string, nothing if there is no digit or the number reaches \<open>big\<close>.
\<close>

fun dtoi_loop :: "nat \<Rightarrow> string \<Rightarrow> (nat \<times> string) option" where
  "dtoi_loop n [] = Some (n, [])"
| "dtoi_loop n (c # cs) =
     (if is_digit c
      then (let n' = n * 10 + digit_val c in if n' \<ge> big then None else dtoi_loop n' cs)
      else Some (n, c # cs))"

definition dtoi :: "string \<Rightarrow> (nat \<times> string) option" where
  "dtoi s = (case s of [] \<Rightarrow> None | c # _ \<Rightarrow> if is_digit c then dtoi_loop 0 s else None)"

fun xtoi_loop :: "nat \<Rightarrow> string \<Rightarrow> (nat \<times> string) option" where
  "xtoi_loop n [] = Some (n, [])"
| "xtoi_loop n (c # cs) =
     (case hex_val c of
        Some d \<Rightarrow> (let n' = n * 16 + d in if n' \<ge> big then None else xtoi_loop n' cs)
      | None \<Rightarrow> Some (n, c # cs))"

definition xtoi :: "string \<Rightarrow> (nat \<times> string) option" where
  "xtoi s = (case s of [] \<Rightarrow> None
             | c # _ \<Rightarrow> (case hex_val c of None \<Rightarrow> None | Some _ \<Rightarrow> xtoi_loop 0 s))"

text \<open>The loop of \<open>parseIPv4\<close>: \<open>k\<close> numbers are left, the first of all has no leading dot.\<close>

fun parseIPv4_loop :: "nat \<Rightarrow> bool \<Rightarrow> string \<Rightarrow> bytes option" where
  "parseIPv4_loop 0 initial s = (if s = [] then Some [] else None)"
| "parseIPv4_loop (Suc k) initial s =
     (case (if initial then Some s
            else (case s of [] \<Rightarrow> None | c # cs \<Rightarrow> if c = CHR ''.'' then Some cs else None)) of
        None \<Rightarrow> None
      | Some s' \<Rightarrow>
          (case dtoi s' of
             None \<Rightarrow> None
           | Some (n, rest) \<Rightarrow>
               if n > 255 then None
               else map_option (\<lambda>bs. of_nat n # bs) (parseIPv4_loop k False rest)))"

definition parseIPv4 :: "string \<Rightarrow> ip option" where
  "parseIPv4 s = map_option (\<lambda>bs. v4InV6Prefix @ bs) (parseIPv4_loop 4 True s)"

text \<open>
  The loop of \<open>parseIPv6\<close>. \<open>k\<close> is the number of 16-bit groups still to fill (the loop's
  \<open>i\<close> is \<open>16 - 2 * k\<close>), \<open>acc\<close> the bytes written, \<open>ell\<close> the position of the ellipsis.
  The result is the bytes, the ellipsis and the rest of the string at the end of the loop.
\<close>

fun parseIPv6_loop ::
  "nat \<Rightarrow> bytes \<Rightarrow> nat option \<Rightarrow> string \<Rightarrow> (bytes \<times> nat option \<times> string) option" where
  "parseIPv6_loop 0 acc ell s = Some (acc, ell, s)"
| "parseIPv6_loop (Suc k) acc ell s =
     (case xtoi s of
        None \<Rightarrow> None
      | Some (n, rest) \<Rightarrow>
          if n > 65535 then None
          else if rest \<noteq> [] \<and> hd rest = CHR ''.'' then
            (if ell = None \<and> length acc \<noteq> 12 then None
             else if length acc + 4 > 16 then None
             else (case parseIPv4_loop 4 True s of
                     None \<Rightarrow> None
                   | Some bs \<Rightarrow> Some (acc @ bs, ell, [])))
          else
            (let acc' = acc @ [of_nat (n div 256), of_nat (n mod 256)]
             in case rest of
                  [] \<Rightarrow> Some (acc', ell, [])
                | c # cs \<Rightarrow>
                    if c \<noteq> CHR '':'' \<or> cs = [] then None
                    else if hd cs = CHR '':'' then
                      (if ell \<noteq> None then None
                       else if tl cs = [] then Some (acc', Some (length acc'), [])
                       else parseIPv6_loop k acc' (Some (length acc')) (tl cs))
                    else parseIPv6_loop k acc' ell cs))"

definition parseIPv6_finish :: "(bytes \<times> nat option \<times> string) option \<Rightarrow> ip option" where
  "parseIPv6_finish r =
     (case r of
        None \<Rightarrow> None
      | Some (acc, ell, s) \<Rightarrow>
          if s \<noteq> [] then None
          else if length acc < 16 then
            (case ell of
               None \<Rightarrow> None
             | Some e \<Rightarrow> Some (take e acc @ replicate (16 - length acc) 0 @ drop e acc))
          else if ell \<noteq> None then None else Some acc)"

definition parseIPv6 :: "string \<Rightarrow> ip option" where
  "parseIPv6 s =
     (if length s \<ge> 2 \<and> s ! 0 = CHR '':'' \<and> s ! 1 = CHR '':''
      then (if drop 2 s = [] then Some (replicate 16 0)
            else parseIPv6_finish (parseIPv6_loop 8 [] (Some 0) (drop 2 s)))
      else parseIPv6_finish (parseIPv6_loop 8 [] None s))"

definition ParseCIDR :: "string \<Rightarrow> (ip \<times> ip_net) option" where
  "ParseCIDR s =
     (if CHR ''/'' \<notin> set s then None
      else
        let a = takeWhile (\<lambda>c. c \<noteq> CHR ''/'') s;
            mask = tl (dropWhile (\<lambda>c. c \<noteq> CHR ''/'') s);
            (parsed, iplen) = (case parseIPv4 a of Some x \<Rightarrow> (Some x, 4)
                               | None \<Rightarrow> (parseIPv6 a, 16))
        in case (parsed, dtoi mask) of
             (Some x, Some (n, rest)) \<Rightarrow>
               if rest \<noteq> [] \<or> n > 8 * iplen then None
               else let m = CIDRMask n (8 * iplen)
                    in Some (x, \<lparr>net_IP = ip_Mask x m, net_Mask = m\<rparr>)
           | _ \<Rightarrow> None)"

section \<open>Printing\<close>

text \<open>
  \<open>IP.String\<close>: dotted decimal for IPv4 in either form; for IPv6 the groups in hexadecimal,
  with the first longest run of at least two zero groups written \<open>::\<close>.
\<close>

fun show_base :: "nat \<Rightarrow> nat \<Rightarrow> string" where
  "show_base b n =
     (if b < 2 \<or> n < b then [''0123456789abcdef'' ! (n mod 16)]
      else show_base b (n div b) @ [''0123456789abcdef'' ! (n mod b mod 16)])"

declare show_base.simps [simp del]

fun join_sep :: "string \<Rightarrow> string list \<Rightarrow> string" where
  "join_sep sep [] = []"
| "join_sep sep [x] = x"
| "join_sep sep (x # y # ys) = x @ sep @ join_sep sep (y # ys)"

fun ip_groups :: "bytes \<Rightarrow> nat list" where
  "ip_groups (a # b # bs) = (unat a * 256 + unat b) # ip_groups bs"
| "ip_groups bs = []"

fun best_run :: "nat \<Rightarrow> nat list \<Rightarrow> nat \<times> nat \<Rightarrow> nat \<times> nat" where
  "best_run i [] b = b"
| "best_run i (g # gs) b =
     (let r = length (takeWhile (\<lambda>x. x = 0) (g # gs))
      in best_run (Suc i) gs (if r > snd b then (i, r) else b))"

definition ip_String :: "ip \<Rightarrow> string" where
  "ip_String x =
     (if x = [] then ''<nil>''
      else if To4 x \<noteq> [] then join_sep ''.'' (map (\<lambda>b. show_base 10 (unat b)) (To4 x))
      else if length x \<noteq> 16
           then CHR ''?'' # concat (map (\<lambda>b. [''0123456789abcdef'' ! (unat b div 16),
                                             ''0123456789abcdef'' ! (unat b mod 16)]) x)
      else
        let gs = ip_groups x;
            (s, l) = best_run 0 gs (0, 0);
            hex = join_sep '':'' \<circ> map (show_base 16)
        in if l \<le> 1 then hex gs else hex (take s gs) @ ''::'' @ hex (drop (s + l) gs))"

section \<open>Equality of addresses\<close>

text \<open>The representative of an address: the 4-byte form wherever there is one.\<close>

definition ip_canon :: "ip \<Rightarrow> ip" where
  "ip_canon x = (if To4 x \<noteq> [] then To4 x else x)"

lemma length_v4InV6Prefix [simp]: "length v4InV6Prefix = 12"
  by (simp add: v4InV6Prefix_def)

lemma To4_cases:
  obtains (v4) "length x = 4" "To4 x = x"
  | (mapped) "length x = 16" "take 12 x = v4InV6Prefix" "To4 x = drop 12 x"
  | (other) "To4 x = []" "length x \<noteq> 4" "length x = 16 \<longrightarrow> take 12 x \<noteq> v4InV6Prefix"
  by (cases "length x = 4"; cases "length x = 16 \<and> take 12 x = v4InV6Prefix")
     (auto simp: To4_def)

lemma ip_canon_simps:
  "length x = 4 \<Longrightarrow> ip_canon x = x"
  "length x = 16 \<Longrightarrow> take 12 x = v4InV6Prefix \<Longrightarrow> ip_canon x = drop 12 x"
  "length x \<noteq> 4 \<Longrightarrow> \<not> (length x = 16 \<and> take 12 x = v4InV6Prefix) \<Longrightarrow> ip_canon x = x"
  by (auto simp: ip_canon_def To4_def)

lemma mapped_eq_iff:
  "length x = 16 \<Longrightarrow> length y = 16 \<Longrightarrow> take 12 x = v4InV6Prefix \<Longrightarrow> take 12 y = v4InV6Prefix \<Longrightarrow>
   x = y \<longleftrightarrow> drop 12 x = drop 12 y"
  by (metis append_take_drop_id)

lemma ip_Equal_canon: "ip_Equal x y \<longleftrightarrow> ip_canon x = ip_canon y"
proof (cases x rule: To4_cases)
  case v4
  then show ?thesis
    by (cases y rule: To4_cases) (auto simp: ip_Equal_def ip_canon_simps)
next
  case mapped
  then show ?thesis
  proof (cases y rule: To4_cases)
    case v4
    with mapped show ?thesis by (auto simp: ip_Equal_def ip_canon_simps)
  next
    case mapped': mapped
    with mapped show ?thesis by (simp add: ip_Equal_def ip_canon_simps mapped_eq_iff)
  next
    case other
    with mapped show ?thesis
      by (auto simp: ip_Equal_def ip_canon_simps dest: arg_cong [of _ _ length])
  qed
next
  case other
  then have "length (drop 12 y) = length x \<Longrightarrow> length y \<noteq> 16"
    by auto
  with other show ?thesis
    by (cases y rule: To4_cases) (auto simp: ip_Equal_def ip_canon_simps dest: arg_cong [of _ _ length])
qed

lemma ip_Equal_equivp: "equivp ip_Equal"
  by (intro equivpI reflpI sympI transpI) (simp_all add: ip_Equal_canon)

lemma ip_Equal_refl [simp]: "ip_Equal x x"
  by (simp add: ip_Equal_canon)

lemma ip_Equal_sym: "ip_Equal x y \<longleftrightarrow> ip_Equal y x"
  by (auto simp: ip_Equal_canon)

lemma ip_Equal_trans: "ip_Equal x y \<Longrightarrow> ip_Equal y z \<Longrightarrow> ip_Equal x z"
  by (simp add: ip_Equal_canon)

lemma ip_Equal_mapped: "length x = 4 \<Longrightarrow> ip_Equal x (v4InV6Prefix @ x)"
  by (simp add: ip_Equal_def)

lemma Contains_canon: "Contains n x = Contains n y" if "ip_Equal x y"
  using that by (simp add: Contains_def ip_Equal_canon ip_canon_def)

section \<open>Subnets as bit prefixes\<close>

definition byte_bits :: "byte \<Rightarrow> bool list" where
  "byte_bits b = map (\<lambda>i. bit b (7 - i)) [0..<8]"

definition ip_bits :: "bytes \<Rightarrow> bool list" where
  "ip_bits x = concat (map byte_bits x)"

lemma length_byte_bits [simp]: "length (byte_bits b) = 8"
  by (simp add: byte_bits_def)

lemma ip_bits_Cons [simp]: "ip_bits (b # bs) = byte_bits b @ ip_bits bs"
  by (simp add: ip_bits_def)

lemma ip_bits_Nil [simp]: "ip_bits [] = []"
  by (simp add: ip_bits_def)

lemma byte_255: "(255 :: byte) = - 1"
  by simp

lemma cidr_byte_8: "cidr_byte 8 = 255"
  by (simp add: cidr_byte_def)

lemma bit_cidr_byte: "bit (cidr_byte k) i \<longleftrightarrow> i < 8 \<and> i + k \<ge> 8"
proof -
  have "bit (drop_bit k (- 1 :: byte)) i \<longleftrightarrow> k + i < 8"
    by (simp only: bit_drop_bit_eq o_def bit_minus_1_iff possible_bit_word) simp
  then show ?thesis
    unfolding cidr_byte_def byte_255
    by (auto simp only: bit_not_iff possible_bit_word) (auto simp: not_less add.commute)
qed

lemma byte_mask_prefix:
  assumes "k \<le> 8"
  shows "a AND cidr_byte k = b AND cidr_byte k
         \<longleftrightarrow> take k (byte_bits a) = take k (byte_bits b)"
proof -
  have "a AND cidr_byte k = b AND cidr_byte k
        \<longleftrightarrow> (\<forall>i < 8. i + k \<ge> 8 \<longrightarrow> bit a i = bit b i)"
    by (auto simp: bit_eq_iff bit_and_iff bit_cidr_byte)
  also have "\<dots> \<longleftrightarrow> (\<forall>j < k. bit a (7 - j) = bit b (7 - j))"
  proof
    assume H: "\<forall>i < 8. i + k \<ge> 8 \<longrightarrow> bit a i = bit b i"
    show "\<forall>j < k. bit a (7 - j) = bit b (7 - j)"
      using assms by (auto intro!: H [rule_format])
  next
    assume H: "\<forall>j < k. bit a (7 - j) = bit b (7 - j)"
    show "\<forall>i < 8. i + k \<ge> 8 \<longrightarrow> bit a i = bit b i"
    proof (intro allI impI)
      fix i :: nat
      assume i: "i < 8" "i + k \<ge> 8"
      then have "bit a (7 - (7 - i)) = bit b (7 - (7 - i))"
        by (intro H [rule_format]) linarith
      with i show "bit a i = bit b i" by simp
    qed
  qed
  also have "\<dots> \<longleftrightarrow> take k (byte_bits a) = take k (byte_bits b)"
    using assms by (auto simp: byte_bits_def list_eq_iff_nth_eq)
  finally show ?thesis .
qed

lemma length_cidr_mask_loop [simp]: "length (cidr_mask_loop n l) = l"
  by (induction n l rule: cidr_mask_loop.induct) auto

lemma cidr_mask_prefix:
  assumes "length x = l" "length y = l"
  shows "map2 (AND) x (cidr_mask_loop n l) = map2 (AND) y (cidr_mask_loop n l)
         \<longleftrightarrow> take n (ip_bits x) = take n (ip_bits y)"
  using assms
proof (induction n l arbitrary: x y rule: cidr_mask_loop.induct)
  case (2 n l)
  then obtain a x' b y' where x: "x = a # x'" "length x' = l" and y: "y = b # y'" "length y' = l"
    by (auto simp: length_Suc_conv)
  have full: "(c :: byte) AND 255 = c" for c
    unfolding byte_255 by (rule and.right_neutral)
  have inj: "byte_bits a = byte_bits b \<longleftrightarrow> a = b"
    using byte_mask_prefix [of 8 a b] full by (simp add: cidr_byte_8)
  show ?case
  proof (cases "n \<ge> 8")
    case True
    with "2.IH"(1) [OF True x(2) y(2)] show ?thesis by (simp add: x y full inj)
  next
    case False
    with "2.IH"(2) [OF False x(2) y(2)] show ?thesis by (simp add: x y byte_mask_prefix)
  qed
qed simp

text \<open>
  A 4-byte network number with a 4-byte mask contains exactly the IPv4 addresses, in either
  form, that agree with it on the masked bits.
\<close>

lemma parseIPv4_loop_length: "parseIPv4_loop k initial s = Some bs \<Longrightarrow> length bs = k"
  by (induction k initial s arbitrary: bs rule: parseIPv4_loop.induct)
     (auto split: if_splits option.splits prod.splits)

lemma parseIPv4_canon:
  assumes "parseIPv4 s = Some x"
  shows "length x = 16" and "take 12 x = v4InV6Prefix" and "length (ip_canon x) = 4"
    and "ip_canon x = drop 12 x"
  using assms by (auto simp: parseIPv4_def ip_canon_def To4_def dest: parseIPv4_loop_length)

lemma ip_canon_length_4: "length (ip_canon y) = 4 \<longleftrightarrow> To4 y \<noteq> []"
  by (cases y rule: To4_cases) (auto simp: ip_canon_simps)

lemma Contains_v4:
  assumes "length nn = 4" and "length m = 4"
  shows "Contains \<lparr>net_IP = nn, net_Mask = m\<rparr> y \<longleftrightarrow>
         length (ip_canon y) = 4 \<and> map2 (AND) nn m = map2 (AND) (ip_canon y) m"
proof -
  have "networkNumberAndMask \<lparr>net_IP = nn, net_Mask = m\<rparr> = (nn, m)"
    using assms by (auto simp: networkNumberAndMask_def To4_def Let_def)
  then have "Contains \<lparr>net_IP = nn, net_Mask = m\<rparr> y \<longleftrightarrow> length (ip_canon y) = length nn \<and>
      (\<forall>i < length (ip_canon y). nn ! i AND m ! i = ip_canon y ! i AND m ! i)"
    by (simp add: Contains_def ip_canon_def Let_def)
  then show ?thesis
    using assms by (auto simp: list_eq_iff_nth_eq)
qed

lemma Contains_CIDR_v4:
  assumes x: "parseIPv4 s = Some x" and n: "n \<le> 32"
  shows "Contains \<lparr>net_IP = ip_Mask x (CIDRMask n 32), net_Mask = CIDRMask n 32\<rparr> y \<longleftrightarrow>
         length (ip_canon y) = 4 \<and> take n (ip_bits (ip_canon y)) = take n (ip_bits (ip_canon x))"
proof -
  let ?m = "cidr_mask_loop n 4"
  note px = parseIPv4_canon [OF x]
  have m: "CIDRMask n 32 = ?m" by (simp add: CIDRMask_def)
  have nn: "ip_Mask x ?m = map2 (AND) (ip_canon x) ?m"
    using px by (simp add: ip_Mask_def)
  have twice: "map2 (AND) (map2 (AND) u w) w = map2 (AND) u w" if "length u = length w"
    for u w :: bytes
    using that by (auto simp: list_eq_iff_nth_eq and.assoc)
  have "Contains \<lparr>net_IP = ip_Mask x ?m, net_Mask = ?m\<rparr> y \<longleftrightarrow>
        length (ip_canon y) = 4 \<and> map2 (AND) (ip_canon x) ?m = map2 (AND) (ip_canon y) ?m"
    using px nn by (simp add: Contains_v4 twice)
  also have "\<dots> \<longleftrightarrow> length (ip_canon y) = 4 \<and>
        take n (ip_bits (ip_canon x)) = take n (ip_bits (ip_canon y))"
    using px cidr_mask_prefix [of "ip_canon x" 4 "ip_canon y" n] by auto
  finally show ?thesis unfolding m by auto
qed

text \<open>Evaluation of the parsers on closed strings.\<close>

lemma parseIPv4_loop_four: "parseIPv4_loop 4 = parseIPv4_loop (Suc (Suc (Suc (Suc 0))))"
  by (simp add: eval_nat_numeral)

lemmas parse_eval = parseIPv4_def IPv4_def parseIPv4_loop_four dtoi_def is_digit_def
  digit_val_def big_def Let_def

end
