(* ===== verification/Turn_Api.thy ===== *)
theory Turn_Api
  imports Go_Net
begin

text \<open>
  The data types of \<open>gortc.io/turn\<close> the server handles, and that package's functions as
  parameters: the package is not part of the repository, so the functions the server calls are
  the fields of a record \<open>turn_api\<close>, an argument of every definition that uses one.
  What the server relies on is the locale \<open>turn_laws\<close>: \<open>FiveTuple.Equal\<close> and
  \<open>Addr.Equal\<close> are equivalences that respect the transport address and the protocol, as
  their documentation (``Equal returns true if b == a'') says.
  \<open>documented_turn\<close> is a concrete record that satisfies the laws.

  Also here: the error values the components return and compare, and connections.
\<close>

datatype protocol = ProtoUDP | ProtoOther byte

type_synonym channel_number = "16 word"

record addr =
  addr_IP :: ip
  addr_Port :: int

record five_tuple =
  tuple_Client :: addr
  tuple_Server :: addr
  tuple_Proto :: protocol

lemma addr_eta [simp]: "\<lparr>addr_IP = addr_IP a, addr_Port = addr_Port a\<rparr> = (a :: addr)"
  by simp

definition zero_addr :: addr where
  "zero_addr = \<lparr>addr_IP = [], addr_Port = 0\<rparr>"

text \<open>
  Errors. Go compares error values by identity; the sentinels of the program are the constant
  constructors. \<open>Wrap\<close> is \<open>errors.Wrap\<close>, which hides the identity of the wrapped error;
  \<open>OtherError\<close> stands for any error built on the spot or returned by a library.
\<close>

datatype go_error =
    ErrPermissionNotFound
  | ErrAllocationMismatch
  | ErrInvalidChannelNumber
  | ErrStaleNonce
  | ErrAttributeNotFound
  | ErrNotSTUNMessage
  | ErrProtoNotImplemented protocol
  | ErrOutOfCapacity
  | ErrUserNotFound
  | Wrap string go_error
  | OtherError string

text \<open>
  A \<open>net.PacketConn\<close>: the nil interface, a UDP socket of the system, or the wrapper the
  pooled port allocator hands out (\<open>wrappedConn\<close>), which carries a port number.
\<close>

datatype packet_conn = NilConn | UDPConn nat | WrappedConn nat int

text \<open>The destination of a \<open>WriteTo\<close> and its payload, as the network sees it.\<close>

record packet =
  pkt_Conn :: packet_conn
  pkt_Data :: bytes
  pkt_To :: addr

text \<open>What the system answers to a \<open>WriteTo\<close>: bytes written and an error, if any.\<close>

type_synonym write_env = "packet \<Rightarrow> int \<times> go_error option"

record turn_api =
  FiveTuple_Equal :: "five_tuple \<Rightarrow> five_tuple \<Rightarrow> bool"
  Addr_Equal :: "addr \<Rightarrow> addr \<Rightarrow> bool"
  ChannelNumber_Valid :: "channel_number \<Rightarrow> bool"

locale turn_laws =
  fixes T :: turn_api
  assumes tuple_equivp: "equivp (FiveTuple_Equal T)"
    and addr_equivp: "equivp (Addr_Equal T)"
    and addr_equal_port: "Addr_Equal T a b \<Longrightarrow> addr_Port a = addr_Port b"
begin

lemma tuple_refl [simp]: "FiveTuple_Equal T t t"
  using tuple_equivp by (rule equivp_reflp)

lemma tuple_sym: "FiveTuple_Equal T t u \<longleftrightarrow> FiveTuple_Equal T u t"
  using tuple_equivp by (meson equivp_symp)

lemma tuple_trans: "FiveTuple_Equal T t u \<Longrightarrow> FiveTuple_Equal T u v \<Longrightarrow> FiveTuple_Equal T t v"
  using tuple_equivp by (meson equivp_transp)

lemma tuple_cong: "FiveTuple_Equal T t u \<Longrightarrow> FiveTuple_Equal T v t \<longleftrightarrow> FiveTuple_Equal T v u"
  by (meson tuple_sym tuple_trans)

lemma addr_refl [simp]: "Addr_Equal T a a"
  using addr_equivp by (rule equivp_reflp)

end

text \<open>The documented behaviour as a concrete record.\<close>

definition addr_equal_doc :: "addr \<Rightarrow> addr \<Rightarrow> bool" where
  "addr_equal_doc a b \<longleftrightarrow> addr_Port a = addr_Port b \<and> ip_Equal (addr_IP a) (addr_IP b)"

definition documented_turn :: turn_api where
  "documented_turn =
     \<lparr>FiveTuple_Equal = (\<lambda>t u. tuple_Proto t = tuple_Proto u \<and>
        addr_equal_doc (tuple_Client t) (tuple_Client u) \<and>
        addr_equal_doc (tuple_Server t) (tuple_Server u)),
      Addr_Equal = addr_equal_doc,
      ChannelNumber_Valid = (\<lambda>n. 0x4000 \<le> n \<and> n \<le> 0x7FFF)\<rparr>"

interpretation documented: turn_laws documented_turn
  by unfold_locales
     (auto simp: documented_turn_def addr_equal_doc_def intro!: equivpI reflpI sympI transpI
           intro: ip_Equal_trans simp: ip_Equal_sym)

text \<open>A client, its server and a 5-tuple, for runs of the model on concrete values.\<close>

definition sample_client :: addr where
  "sample_client = \<lparr>addr_IP = [127, 0, 0, 1], addr_Port = 200\<rparr>"

definition sample_server :: addr where
  "sample_server = \<lparr>addr_IP = [127, 0, 0, 1], addr_Port = 300\<rparr>"

definition sample_peer :: addr where
  "sample_peer = \<lparr>addr_IP = [127, 0, 0, 2], addr_Port = 201\<rparr>"

definition sample_tuple :: five_tuple where
  "sample_tuple = \<lparr>tuple_Client = sample_client, tuple_Server = sample_server, tuple_Proto = ProtoUDP\<rparr>"

lemmas sample_defs = sample_client_def sample_server_def sample_peer_def sample_tuple_def

end
