(* ===== verification/Stun_Api.thy ===== *)
theory Stun_Api
  imports Turn_Api
begin

text \<open>
  The data types of \<open>gortc.io/stun\<close> and the message part of \<open>gortc.io/turn\<close>.
  Both packages are outside the repository: the message structure and the names of methods,
  classes, attributes and error codes are data, and every function of theirs the server calls
  is a field of the record \<open>stun_api\<close>.
  The locale \<open>stun_laws\<close> states what the response builder relies on: resetting a message
  empties its raw bytes and keeps at most its type and transaction id, writing the header fills
  the raw bytes, a setter only appends to them and leaves the message type and the transaction
  id alone, and decoding reads the raw bytes and nothing else of the message.
  \<open>documented_stun\<close> is a concrete record that satisfies the laws, with the header and
  attribute layout of RFC 5389; it runs the model on concrete datagrams. Integrity is compared
  with the key itself and fingerprints are not computed: no property depends on them.
\<close>

datatype stun_method =
    MethodBinding | MethodAllocate | MethodRefresh | MethodSend | MethodData
  | MethodCreatePermission | MethodChannelBind | MethodOther nat

datatype stun_class = ClassRequest | ClassIndication | ClassSuccessResponse | ClassErrorResponse

record message_type =
  mt_Method :: stun_method
  mt_Class :: stun_class

record message =
  msg_Type :: message_type
  msg_TransactionID :: bytes
  msg_Attributes :: "(nat \<times> bytes) list"
  msg_Raw :: bytes

datatype attr_type = AttrUsername | AttrRealm | AttrFingerprint | AttrMessageIntegrity

datatype error_code =
    CodeBadRequest | CodeUnauthorized | CodeForbidden | CodeStaleNonce
  | CodeAllocMismatch | CodeServerError

text \<open>The values with an \<open>AddTo\<close> method that the server adds to a response.\<close>

datatype setter =
    SetNonce bytes
  | SetRealm string
  | SetSoftware string
  | SetXORMappedAddress addr
  | SetRelayedAddress addr
  | SetLifetime duration
  | SetChannelNumber channel_number
  | SetErrorCode error_code
  | SetIntegrity bytes
  | SetFingerprint

definition NewType :: "stun_method \<Rightarrow> stun_class \<Rightarrow> message_type" where
  "NewType m c = \<lparr>mt_Method = m, mt_Class = c\<rparr>"

definition zero_message :: message where
  "zero_message = \<lparr>msg_Type = NewType (MethodOther 0) ClassRequest, msg_TransactionID = replicate 12 0,
     msg_Attributes = [], msg_Raw = []\<rparr>"

record stun_api =
  stun_IsMessage :: "bytes \<Rightarrow> bool"
  stun_Decode :: "message \<Rightarrow> go_error + message"
  stun_Contains :: "message \<Rightarrow> attr_type \<Rightarrow> bool"
  stun_Get :: "message \<Rightarrow> attr_type \<Rightarrow> go_error + bytes"
  stun_FingerprintCheck :: "message \<Rightarrow> go_error option"
  stun_IntegrityCheck :: "bytes \<Rightarrow> message \<Rightarrow> go_error option"
  stun_NewLongTermIntegrity :: "string \<Rightarrow> string \<Rightarrow> string \<Rightarrow> bytes"
  stun_NonceGetFrom :: "message \<Rightarrow> go_error + bytes"
  stun_Reset :: "message \<Rightarrow> message"
  stun_WriteHeader :: "message \<Rightarrow> message"
  stun_AddTo :: "setter \<Rightarrow> message \<Rightarrow> go_error + message"
  turn_TransportGetFrom :: "message \<Rightarrow> go_error + protocol"
  turn_LifetimeGetFrom :: "message \<Rightarrow> go_error + duration"
  turn_ParseLifetime :: "message \<Rightarrow> go_error + duration"
  turn_PeerAddressGetFrom :: "message \<Rightarrow> go_error + addr"
  turn_ParseDataAndPeer :: "message \<Rightarrow> go_error + bytes \<times> addr"
  turn_ParsePeerAndChannel :: "message \<Rightarrow> go_error + addr \<times> channel_number"
  turn_BuildDataIndication :: "bytes \<Rightarrow> bytes \<Rightarrow> addr \<Rightarrow> go_error + message"
  turn_IsChannelData :: "bytes \<Rightarrow> bool"
  turn_ChannelDataDecode :: "bytes \<Rightarrow> go_error + channel_number \<times> bytes"
  turn_ChannelDataEncode :: "channel_number \<Rightarrow> bytes \<Rightarrow> bytes"

locale stun_laws =
  fixes S :: stun_api
  assumes raw_Reset: "msg_Raw (stun_Reset S m) = []"
    and raw_WriteHeader: "msg_Raw (stun_WriteHeader S m) \<noteq> []"
    and type_WriteHeader: "msg_Type (stun_WriteHeader S m) = msg_Type m"
    and txid_WriteHeader: "msg_TransactionID (stun_WriteHeader S m) = msg_TransactionID m"
    and type_AddTo: "stun_AddTo S a m = Inr m' \<Longrightarrow> msg_Type m' = msg_Type m"
    and txid_AddTo: "stun_AddTo S a m = Inr m' \<Longrightarrow> msg_TransactionID m' = msg_TransactionID m"
    and raw_AddTo: "stun_AddTo S a m = Inr m' \<Longrightarrow> msg_Raw m \<noteq> [] \<Longrightarrow> msg_Raw m' \<noteq> []"
    and Decode_raw: "msg_Raw m = msg_Raw m' \<Longrightarrow> stun_Decode S m = stun_Decode S m'"
    and Reset_rest: "(stun_Reset S m)\<lparr>msg_Type := t, msg_TransactionID := x\<rparr>
                     = (stun_Reset S m')\<lparr>msg_Type := t, msg_TransactionID := x\<rparr>"

section \<open>A concrete record\<close>

definition attr_lookup :: "nat \<Rightarrow> message \<Rightarrow> go_error + bytes" where
  "attr_lookup k m = (case map_of (msg_Attributes m) k of
     None \<Rightarrow> Inl ErrAttributeNotFound | Some v \<Rightarrow> Inr v)"

definition decode_method :: "nat \<Rightarrow> stun_method" where
  "decode_method k = (if k = 1 then MethodBinding else if k = 3 then MethodAllocate
     else if k = 4 then MethodRefresh else if k = 6 then MethodSend else if k = 7 then MethodData
     else if k = 8 then MethodCreatePermission else if k = 9 then MethodChannelBind
     else MethodOther k)"

definition decode_class :: "nat \<Rightarrow> stun_class" where
  "decode_class k = (if k = 0 then ClassRequest else if k = 1 then ClassIndication
     else if k = 2 then ClassSuccessResponse else ClassErrorResponse)"

definition bytes_nat :: "bytes \<Rightarrow> nat" where
  "bytes_nat bs = foldl (\<lambda>n b. n * 256 + unat b) 0 bs"

text \<open>Attributes are type, length and contents, padded to a multiple of four bytes.\<close>

fun decode_attrs :: "nat \<Rightarrow> bytes \<Rightarrow> (nat \<times> bytes) list option" where
  "decode_attrs 0 bs = (if bs = [] then Some [] else None)"
| "decode_attrs (Suc k) bs =
     (if bs = [] then Some []
      else if length bs < 4 then None
      else let n = bytes_nat (take 2 (drop 2 bs)) in
           if length bs < 4 + n then None
           else map_option (Cons (bytes_nat (take 2 bs), take n (drop 4 bs)))
                  (decode_attrs k (drop (4 + (n + 3) div 4 * 4) bs)))"

definition decode_message :: "message \<Rightarrow> go_error + message" where
  "decode_message m =
     (let raw = msg_Raw m in
      case decode_attrs (length raw) (drop 20 raw) of
        None \<Rightarrow> Inl (OtherError ''unexpected EOF'')
      | Some attrs \<Rightarrow>
          if length raw < 20 then Inl (OtherError ''unexpected EOF'')
          else Inr \<lparr>msg_Type = NewType (decode_method (unat (raw ! 1) mod 16))
                      (decode_class (2 * (unat (raw ! 0) mod 2) + unat (raw ! 1) div 16 mod 2)),
                    msg_TransactionID = take 12 (drop 8 raw), msg_Attributes = attrs,
                    msg_Raw = raw\<rparr>)"

definition attr_code :: "attr_type \<Rightarrow> nat" where
  "attr_code a = (case a of AttrUsername \<Rightarrow> 6 | AttrRealm \<Rightarrow> 20
     | AttrFingerprint \<Rightarrow> 32808 | AttrMessageIntegrity \<Rightarrow> 8)"

definition addr_of_bytes :: "bytes \<Rightarrow> addr" where
  "addr_of_bytes bs = \<lparr>addr_IP = drop 2 bs, addr_Port = int (bytes_nat (take 2 bs))\<rparr>"

definition bytes_of_string :: "string \<Rightarrow> bytes" where
  "bytes_of_string = map of_char"

definition setter_attr :: "setter \<Rightarrow> nat \<times> bytes" where
  "setter_attr s = (case s of
     SetNonce v \<Rightarrow> (21, v)
   | SetRealm r \<Rightarrow> (20, bytes_of_string r)
   | SetSoftware w \<Rightarrow> (32802, bytes_of_string w)
   | SetXORMappedAddress a \<Rightarrow> (32, of_int (addr_Port a) # addr_IP a)
   | SetRelayedAddress a \<Rightarrow> (22, of_int (addr_Port a) # addr_IP a)
   | SetLifetime d \<Rightarrow> (13, [of_int (d div Second)])
   | SetChannelNumber n \<Rightarrow> (12, [ucast (drop_bit 8 n), ucast n])
   | SetErrorCode c \<Rightarrow> (9, [case c of CodeBadRequest \<Rightarrow> 100 | CodeUnauthorized \<Rightarrow> 101
        | CodeForbidden \<Rightarrow> 103 | CodeStaleNonce \<Rightarrow> 138 | CodeAllocMismatch \<Rightarrow> 137
        | CodeServerError \<Rightarrow> 200])
   | SetIntegrity k \<Rightarrow> (8, k)
   | SetFingerprint \<Rightarrow> (32808, []))"

definition documented_stun :: stun_api where
  "documented_stun =
   \<lparr>stun_IsMessage = (\<lambda>raw. length raw \<ge> 20 \<and> take 4 (drop 4 raw) = [0x21, 0x12, 0xA4, 0x42]),
    stun_Decode = decode_message,
    stun_Contains = (\<lambda>m a. map_of (msg_Attributes m) (attr_code a) \<noteq> None),
    stun_Get = (\<lambda>m a. attr_lookup (attr_code a) m),
    stun_FingerprintCheck = (\<lambda>m. None),
    stun_IntegrityCheck = (\<lambda>k m. if attr_lookup 8 m = Inr k then None
                                 else Some (OtherError ''integrity check failed'')),
    stun_NewLongTermIntegrity = (\<lambda>u r p. bytes_of_string (u @ '':'' @ r @ '':'' @ p)),
    stun_NonceGetFrom = attr_lookup 21,
    stun_Reset = (\<lambda>m. m\<lparr>msg_Raw := [], msg_Attributes := []\<rparr>),
    stun_WriteHeader = (\<lambda>m. m\<lparr>msg_Raw := replicate 20 0\<rparr>),
    stun_AddTo = (\<lambda>s m. Inr (m\<lparr>msg_Attributes := msg_Attributes m @ [setter_attr s],
                                  msg_Raw := msg_Raw m @ snd (setter_attr s)\<rparr>)),
    turn_TransportGetFrom = (\<lambda>m. map_sum id (\<lambda>v. if take 1 v = [17] then ProtoUDP else ProtoOther 0)
                                   (attr_lookup 25 m)),
    turn_LifetimeGetFrom = (\<lambda>m. map_sum id (\<lambda>v. int (bytes_nat v) * Second) (attr_lookup 13 m)),
    turn_ParseLifetime = (\<lambda>m. map_sum id (\<lambda>v. int (bytes_nat v) * Second) (attr_lookup 13 m)),
    turn_PeerAddressGetFrom = (\<lambda>m. map_sum id addr_of_bytes (attr_lookup 18 m)),
    turn_ParseDataAndPeer = (\<lambda>m. case attr_lookup 19 m of Inl e \<Rightarrow> Inl e
        | Inr d \<Rightarrow> map_sum id (\<lambda>v. (d, addr_of_bytes v)) (attr_lookup 18 m)),
    turn_ParsePeerAndChannel = (\<lambda>m. case attr_lookup 18 m of Inl e \<Rightarrow> Inl e
        | Inr p \<Rightarrow> map_sum id (\<lambda>v. (addr_of_bytes p, of_nat (bytes_nat (take 2 v))))
                     (attr_lookup 12 m)),
    turn_BuildDataIndication = (\<lambda>tx d a. Inr (zero_message
        \<lparr>msg_Type := NewType MethodData ClassIndication, msg_TransactionID := tx,
         msg_Raw := 1 # of_int (addr_Port a) # d\<rparr>)),
    turn_IsChannelData = (\<lambda>raw. length raw \<ge> 4 \<and> 64 \<le> hd raw \<and> hd raw < 128),
    turn_ChannelDataDecode = (\<lambda>raw. Inr (of_nat (bytes_nat (take 2 raw)), drop 4 raw)),
    turn_ChannelDataEncode = (\<lambda>n d. [ucast (drop_bit 8 n), ucast n, 0, of_nat (length d)] @ d)\<rparr>"

interpretation documented_stun: stun_laws documented_stun
  by unfold_locales (auto simp: documented_stun_def decode_message_def)

end
