(* ===== verification/Filter_Rules.thy ===== *)
theory Filter_Rules
  imports Turn_Api
begin

text \<open>
  Address filtering, \<open>internal/filter/filter.go\<close>: the three actions, the rules (a subnet
  with an action, the rule that allows everything, a list of rules with a default action),
  their constructors and their \<open>Action\<close> methods.

  Shown here: a list answers with its first rule that does not pass, or with its default; the
  answer of every rule depends on the address only up to \<open>IP.Equal\<close>, so an IPv4 address and
  its IPv4-mapped form are filtered alike; a rule built from an IPv4 subnet in CIDR notation
  matches exactly the addresses that share the prefix.
\<close>

datatype action = Pass | Allow | Deny

definition Action_String :: "action \<Rightarrow> string" where
  "Action_String a = (case a of Pass \<Rightarrow> ''pass'' | Allow \<Rightarrow> ''allow'' | Deny \<Rightarrow> ''deny'')"

record subnet_rule =
  sr_action :: action
  sr_net :: ip_net

datatype rule =
    SubnetRule subnet_rule
  | AllowAll
  | RuleList action "rule list"

definition subnetRule_Action :: "subnet_rule \<Rightarrow> addr \<Rightarrow> action" where
  "subnetRule_Action r a = (let inSubnet = Contains (sr_net r) (addr_IP a)
                            in if inSubnet then sr_action r else Pass)"

definition allowAll_Action :: "addr \<Rightarrow> action" where
  "allowAll_Action a = Allow"

fun rule_Action :: "rule \<Rightarrow> addr \<Rightarrow> action"
  and list_Action :: "action \<Rightarrow> rule list \<Rightarrow> addr \<Rightarrow> action" where
  "rule_Action (SubnetRule r) x = subnetRule_Action r x"
| "rule_Action AllowAll x = allowAll_Action x"
| "rule_Action (RuleList d rs) x = list_Action d rs x"
| "list_Action d [] x = d"
| "list_Action d (r # rs) x = (let a = rule_Action r x in if a = Pass then list_Action d rs x else a)"

definition StaticNetRule :: "action \<Rightarrow> string \<Rightarrow> rule option" where
  "StaticNetRule a subnet = (case ParseCIDR subnet of
     None \<Rightarrow> None
   | Some (_, parsedNet) \<Rightarrow> Some (SubnetRule \<lparr>sr_action = a, sr_net = parsedNet\<rparr>))"

definition AllowNet :: "string \<Rightarrow> rule option" where
  "AllowNet subnet = StaticNetRule Allow subnet"

definition ForbidNet :: "string \<Rightarrow> rule option" where
  "ForbidNet subnet = StaticNetRule Deny subnet"

definition NewFilter :: "action \<Rightarrow> rule list \<Rightarrow> rule" where
  "NewFilter a rules = RuleList a rules"

section \<open>Lists of rules\<close>

lemma list_Action_first:
  "list_Action d rs x = (case find (\<lambda>r. rule_Action r x \<noteq> Pass) rs of
     None \<Rightarrow> d | Some r \<Rightarrow> rule_Action r x)"
  by (induction rs) (auto simp: Let_def)

lemma list_Action_append:
  "list_Action d (rs @ rs') x = (if list_Action Pass rs x = Pass then list_Action d rs' x
                                 else list_Action Pass rs x)"
  by (induction rs) (auto simp: Let_def)

section \<open>Rules see addresses up to \<open>IP.Equal\<close>\<close>

lemma rule_Action_cong:
  "ip_Equal (addr_IP a) (addr_IP b) \<Longrightarrow> rule_Action r a = rule_Action r b"
  "ip_Equal (addr_IP a) (addr_IP b) \<Longrightarrow> list_Action d rs a = list_Action d rs b"
  by (induction r a and d rs a rule: rule_Action_list_Action.induct)
     (auto simp: subnetRule_Action_def allowAll_Action_def Let_def dest: Contains_canon)

text \<open>
  Claim C16. Address form: whatever rules are configured, two addresses that Go's
  \<open>IP.Equal\<close> identifies (an IPv4 address and its IPv4-mapped IPv6 form) are treated alike.
\<close>

theorem filter_address_form:
  assumes "ip_Equal (addr_IP a) (addr_IP b)"
  shows "rule_Action r a = rule_Action r b"
  using assms by (rule rule_Action_cong)

theorem filter_address_form_witness:
  "ip_Equal [10, 0, 0, 1] (IPv4 10 0 0 1) \<and>
   rule_Action (RuleList Deny [AllowAll]) \<lparr>addr_IP = [10, 0, 0, 1], addr_Port = 5\<rparr>
   = rule_Action (RuleList Deny [AllowAll]) \<lparr>addr_IP = IPv4 10 0 0 1, addr_Port = 5\<rparr>"
proof -
  have h: "ip_Equal [10, 0, 0, 1] (IPv4 10 0 0 1)"
    by (simp add: ip_Equal_def IPv4_def v4InV6Prefix_def)
  then show ?thesis
    using filter_address_form
      [of "\<lparr>addr_IP = [10, 0, 0, 1], addr_Port = 5\<rparr>" "\<lparr>addr_IP = IPv4 10 0 0 1, addr_Port = 5\<rparr>"]
    by simp
qed

text \<open>
  A filter list answers with the action of its first rule that does not pass, and
  with its default action when every rule passes.
\<close>

theorem filter_first_match:
  "rule_Action (NewFilter d rules) x =
     (case dropWhile (\<lambda>r. rule_Action r x = Pass) rules of [] \<Rightarrow> d | r # _ \<Rightarrow> rule_Action r x)"
  by (induction rules) (auto simp: NewFilter_def Let_def)

section \<open>Rules from CIDR notation\<close>

lemma StaticNetRule_v4:
  assumes "CHR ''/'' \<notin> set a" and x: "parseIPv4 a = Some x"
    and m: "dtoi m = Some (n, [])" and n: "n \<le> 32"
  shows "StaticNetRule act (a @ CHR ''/'' # m) = Some (SubnetRule
           \<lparr>sr_action = act, sr_net = \<lparr>net_IP = ip_Mask x (CIDRMask n 32), net_Mask = CIDRMask n 32\<rparr>\<rparr>)"
proof -
  have "takeWhile (\<lambda>c. c \<noteq> CHR ''/'') (a @ CHR ''/'' # m) = a"
    and "dropWhile (\<lambda>c. c \<noteq> CHR ''/'') (a @ CHR ''/'' # m) = CHR ''/'' # m"
    using assms(1) by (auto simp: takeWhile_append dropWhile_append)
  then show ?thesis
    using x m n by (simp add: StaticNetRule_def ParseCIDR_def Let_def)
qed

text \<open>
  Claim C17. A rule made from an IPv4 subnet \<open>a/m\<close> in CIDR notation applies its action
  to exactly the IPv4 addresses (in either form) whose first \<open>m\<close> bits are those of
  \<open>a\<close>, and passes on every other address.
\<close>

theorem StaticNetRule_prefix:
  assumes "CHR ''/'' \<notin> set a" and "parseIPv4 a = Some x"
    and "dtoi m = Some (n, [])" and "n \<le> 32"
  shows "\<exists>r. StaticNetRule act (a @ CHR ''/'' # m) = Some r \<and>
           (\<forall>y. rule_Action r y =
              (if length (ip_canon (addr_IP y)) = 4 \<and>
                  take n (ip_bits (ip_canon (addr_IP y))) = take n (ip_bits (ip_canon x))
               then act else Pass))"
  using StaticNetRule_v4 [OF assms, of act]
  by (auto simp: subnetRule_Action_def Contains_CIDR_v4 [OF assms(2,4)])

theorem StaticNetRule_prefix_witness:
  "\<exists>r. StaticNetRule Deny ''10.5.0.0/24'' = Some r \<and>
     rule_Action r \<lparr>addr_IP = [10, 5, 0, 7], addr_Port = 1\<rparr> = Deny \<and>
     rule_Action r \<lparr>addr_IP = IPv4 10 5 0 7, addr_Port = 1\<rparr> = Deny \<and>
     rule_Action r \<lparr>addr_IP = [10, 5, 1, 7], addr_Port = 1\<rparr> = Pass"
proof -
  have a: "CHR ''/'' \<notin> set ''10.5.0.0''" by simp
  have x: "parseIPv4 ''10.5.0.0'' = Some (IPv4 10 5 0 0)" by (simp add: parse_eval)
  have m: "dtoi ''24'' = Some (24, [])" by (simp add: parse_eval)
  have s: "''10.5.0.0'' @ CHR ''/'' # ''24'' = ''10.5.0.0/24''" by simp
  obtain r where r: "StaticNetRule Deny ''10.5.0.0/24'' = Some r"
    and act: "\<And>y. rule_Action r y =
      (if length (ip_canon (addr_IP y)) = 4 \<and>
          take 24 (ip_bits (ip_canon (addr_IP y))) = take 24 (ip_bits (ip_canon (IPv4 10 5 0 0)))
       then Deny else Pass)"
    using StaticNetRule_prefix [OF a x m, of Deny] unfolding s by auto
  have b: "take 24 (ip_bits (ip_canon [10, 5, 0, 7])) = take 24 (ip_bits (ip_canon (IPv4 10 5 0 0)))"
    "take 24 (ip_bits (ip_canon (IPv4 10 5 0 7))) = take 24 (ip_bits (ip_canon (IPv4 10 5 0 0)))"
    "take 24 (ip_bits (ip_canon [10, 5, 1, 7])) \<noteq> take 24 (ip_bits (ip_canon (IPv4 10 5 0 0)))"
    by code_simp+
  have l: "length (ip_canon [10, 5, 0, 7]) = 4" "length (ip_canon (IPv4 10 5 0 7)) = 4"
    by code_simp+
  show ?thesis using r act b l by auto
qed

end
