(* ===== verification/Net_Ports.thy ===== *)
theory Net_Ports
  imports Turn_Api
begin

text \<open>
  Relayed ports: \<open>internal/allocator/port.go\<close> (\<open>NetAllocation\<close>, \<open>NetAllocator\<close>) and
  \<open>internal/allocator/port_sys.go\<close> (\<open>SystemPortAllocator\<close>) over a model of the
  system's UDP sockets.

  The operating system is a record: the open sockets with their local addresses, and as
  functions of that record the choices the program cannot predict (which port an ephemeral
  bind gets, which addresses are refused, what a name resolves to).

  Two interfaces of the code are locales here. \<open>port_allocator\<close> is
  \<open>NetPortAllocator\<close>: a successful allocation is a fresh socket on an address no other open
  socket has. \<open>relayed_addr_allocator\<close> is \<open>RelayedAddrAllocator\<close>: what \<open>New\<close> and
  \<open>Remove\<close> do to the relayed addresses in use. \<open>SystemPortAllocator\<close> implements the
  first, and \<open>NetAllocator\<close> over any implementation of the first implements the second.
\<close>

section \<open>Sockets of the system\<close>

record os =
  os_next :: nat
  os_open :: "(nat \<times> addr) list"
  os_pick :: "ip \<Rightarrow> (nat \<times> addr) list \<Rightarrow> int option"
  os_deny :: "addr \<Rightarrow> go_error option"
  os_resolve :: "string \<Rightarrow> string \<Rightarrow> go_error + addr"

text \<open>
  \<open>net.ListenUDP\<close>: port 0 asks the system for a free port; an address that is in use or
  refused is an error; a success is a socket number never used before.
\<close>

definition os_ListenUDP :: "os \<Rightarrow> string \<Rightarrow> addr \<Rightarrow> (go_error + packet_conn) \<times> os" where
  "os_ListenUDP s network a =
     (case (if addr_Port a = 0 then os_pick s (addr_IP a) (os_open s) else Some (addr_Port a)) of
        None \<Rightarrow> (Inl (OtherError ''cannot assign requested address''), s)
      | Some p \<Rightarrow>
          let laddr = a\<lparr>addr_Port := p\<rparr>
          in case os_deny s laddr of
               Some e \<Rightarrow> (Inl e, s)
             | None \<Rightarrow>
                 if laddr \<in> snd ` set (os_open s)
                 then (Inl (OtherError ''address already in use''), s)
                 else (Inr (UDPConn (os_next s)),
                       s\<lparr>os_next := Suc (os_next s),
                         os_open := os_open s @ [(os_next s, laddr)]\<rparr>))"

definition os_Close :: "os \<Rightarrow> packet_conn \<Rightarrow> go_error option \<times> os" where
  "os_Close s c =
     (case c of
        UDPConn k \<Rightarrow>
          if k \<in> fst ` set (os_open s)
          then (None, s\<lparr>os_open := filter (\<lambda>(j, _). j \<noteq> k) (os_open s)\<rparr>)
          else (Some (OtherError ''use of closed network connection''), s)
      | _ \<Rightarrow> (Some (OtherError ''not a socket''), s))"

definition os_sock :: "os \<Rightarrow> packet_conn \<Rightarrow> addr option" where
  "os_sock s c = (case c of UDPConn k \<Rightarrow> map_of (os_open s) k | _ \<Rightarrow> None)"

definition os_LocalAddr :: "os \<Rightarrow> packet_conn \<Rightarrow> addr" where
  "os_LocalAddr s c = (case os_sock s c of Some a \<Rightarrow> a | None \<Rightarrow> zero_addr)"

definition os_inv :: "os \<Rightarrow> bool" where
  "os_inv s \<longleftrightarrow> distinct (map fst (os_open s)) \<and> (\<forall>k \<in> fst ` set (os_open s). k < os_next s)"

section \<open>\<open>NetAllocation\<close> and \<open>SystemPortAllocator\<close>\<close>

record net_allocation =
  na_Addr :: addr
  na_Proto :: protocol
  na_Conn :: packet_conn

text \<open>A \<open>NetPortAllocator\<close> with the closing of the connections it has handed out.\<close>

record 'p port_ops =
  po_AllocatePort :: "'p \<Rightarrow> protocol \<Rightarrow> string \<Rightarrow> string \<Rightarrow> (go_error + net_allocation) \<times> 'p"
  po_Close :: "'p \<Rightarrow> packet_conn \<Rightarrow> go_error option \<times> 'p"

definition NetAllocation_Close ::
  "'p port_ops \<Rightarrow> 'p \<Rightarrow> net_allocation \<Rightarrow> go_error option \<times> net_allocation \<times> 'p" where
  "NetAllocation_Close P p n =
     (let (err, p') = po_Close P p (na_Conn n)
      in (err, n\<lparr>na_Conn := NilConn, na_Addr := zero_addr, na_Proto := ProtoOther 0\<rparr>, p'))"

definition SystemPort_AllocatePort ::
  "os \<Rightarrow> protocol \<Rightarrow> string \<Rightarrow> string \<Rightarrow> (go_error + net_allocation) \<times> os" where
  "SystemPort_AllocatePort s proto network defaultAddr =
     (case os_resolve s network defaultAddr of
        Inl e \<Rightarrow> (Inl e, s)
      | Inr a \<Rightarrow>
          (case os_ListenUDP s ''udp4'' a of
             (Inl e, s') \<Rightarrow> (Inl e, s')
           | (Inr conn, s') \<Rightarrow>
               let realAddr = os_LocalAddr s' conn
               in (Inr \<lparr>na_Addr = \<lparr>addr_IP = addr_IP realAddr, addr_Port = addr_Port realAddr\<rparr>,
                        na_Proto = proto, na_Conn = conn\<rparr>, s')))"

definition system_ports :: "os port_ops" where
  "system_ports = \<lparr>po_AllocatePort = SystemPort_AllocatePort, po_Close = os_Close\<rparr>"

section \<open>\<open>NetAllocator\<close>\<close>

record 'p net_allocator =
  nal_allocs :: "net_allocation list"
  nal_newAllocs :: "net_allocation list"
  nal_ports :: 'p
  nal_defaultAddr :: string

definition NetAllocator_New ::
  "'p port_ops \<Rightarrow> 'p net_allocator \<Rightarrow> protocol
   \<Rightarrow> (go_error + addr \<times> packet_conn) \<times> 'p net_allocator" where
  "NetAllocator_New P a proto =
     (case po_AllocatePort P (nal_ports a) proto ''udp4'' (nal_defaultAddr a) of
        (Inl err, p') \<Rightarrow> (Inl err, a\<lparr>nal_ports := p'\<rparr>)
      | (Inr n, p') \<Rightarrow>
          (Inr (na_Addr n, na_Conn n), a\<lparr>nal_ports := p', nal_allocs := nal_allocs a @ [n]\<rparr>))"

text \<open>
  The loop of \<open>Remove\<close>: allocations of another protocol or address go to the scratch slice
  \<open>newAllocs\<close>, the others to \<open>toRemove\<close>.
\<close>

fun net_remove_loop ::
  "turn_api \<Rightarrow> addr \<Rightarrow> protocol \<Rightarrow> net_allocation list \<Rightarrow> net_allocation list \<Rightarrow> net_allocation list
   \<Rightarrow> net_allocation list \<times> net_allocation list" where
  "net_remove_loop T x proto [] newAllocs toRemove = (newAllocs, toRemove)"
| "net_remove_loop T x proto (alloc # allocs) newAllocs toRemove =
     (if na_Proto alloc \<noteq> proto then net_remove_loop T x proto allocs (newAllocs @ [alloc]) toRemove
      else if \<not> Addr_Equal T x (na_Addr alloc)
           then net_remove_loop T x proto allocs (newAllocs @ [alloc]) toRemove
      else net_remove_loop T x proto allocs newAllocs (toRemove @ [alloc]))"

fun close_all :: "'p port_ops \<Rightarrow> net_allocation list \<Rightarrow> 'p \<Rightarrow> 'p" where
  "close_all P [] p = p"
| "close_all P (r # rs) p = (let (err, r', p') = NetAllocation_Close P p r in close_all P rs p')"

definition NetAllocator_Remove ::
  "turn_api \<Rightarrow> 'p port_ops \<Rightarrow> 'p net_allocator \<Rightarrow> addr \<Rightarrow> protocol
   \<Rightarrow> go_error option \<times> 'p net_allocator" where
  "NetAllocator_Remove T P a x proto =
     (let (newAllocs, toRemove) = net_remove_loop T x proto (nal_allocs a) (nal_newAllocs a) []
      in if length toRemove = 0 then (None, a\<lparr>nal_newAllocs := []\<rparr>)
         else (None, a\<lparr>nal_allocs := copy_reslice (nal_allocs a) newAllocs,
                       nal_newAllocs := [],
                       nal_ports := close_all P toRemove (nal_ports a)\<rparr>))"

text \<open>The dynamic type of the listening address decides whether a manager can be made.\<close>

datatype net_addr = UDPAddr addr | OtherNetAddr

definition NewNetAllocator ::
  "net_addr \<Rightarrow> 'p \<Rightarrow> go_error + 'p net_allocator" where
  "NewNetAllocator a ports =
     (case a of
        UDPAddr tAddr \<Rightarrow>
          Inr \<lparr>nal_allocs = [], nal_newAllocs = [], nal_ports = ports,
               nal_defaultAddr = ip_String (addr_IP tAddr) @ '':0''\<rparr>
      | OtherNetAddr \<Rightarrow> Inl (OtherError ''unsupported addr''))"

text \<open>The interface \<open>RelayedAddrAllocator\<close> of \<open>allocator.go\<close>, and \<open>NetAllocator\<close> as one.\<close>

record 'r raddr_ops =
  ra_New :: "'r \<Rightarrow> protocol \<Rightarrow> (go_error + addr \<times> packet_conn) \<times> 'r"
  ra_Remove :: "'r \<Rightarrow> addr \<Rightarrow> protocol \<Rightarrow> go_error option \<times> 'r"

definition net_raddr :: "turn_api \<Rightarrow> 'p port_ops \<Rightarrow> 'p net_allocator raddr_ops" where
  "net_raddr T P = \<lparr>ra_New = NetAllocator_New P, ra_Remove = NetAllocator_Remove T P\<rparr>"

section \<open>The loop and the closing of sockets\<close>

definition removes :: "turn_api \<Rightarrow> addr \<Rightarrow> protocol \<Rightarrow> net_allocation \<Rightarrow> bool" where
  "removes T x proto n \<longleftrightarrow> na_Proto n = proto \<and> Addr_Equal T x (na_Addr n)"

lemma net_remove_loop_filter:
  "net_remove_loop T x proto as new rem
   = (new @ filter (\<lambda>n. \<not> removes T x proto n) as, rem @ filter (removes T x proto) as)"
  by (induction as arbitrary: new rem) (auto simp: removes_def)

lemma NetAllocator_Remove_eq:
  assumes "nal_newAllocs a = []"
  shows "NetAllocator_Remove T P a x proto =
    (None, a\<lparr>nal_allocs := filter (\<lambda>n. \<not> removes T x proto n) (nal_allocs a), nal_newAllocs := [],
             nal_ports := close_all P (filter (removes T x proto) (nal_allocs a)) (nal_ports a)\<rparr>)"
  using assms
  by (auto simp: NetAllocator_Remove_def net_remove_loop_filter filter_empty_conv)

lemma close_all_Cons: "close_all P (r # rs) p = close_all P rs (snd (po_Close P p (na_Conn r)))"
  by (simp add: NetAllocation_Close_def split: prod.split)

section \<open>\<open>NetPortAllocator\<close>\<close>

text \<open>
  \<open>sock p c\<close> is the local address of the connection \<open>c\<close> if it is open.
\<close>

locale port_allocator =
  fixes P :: "'p port_ops"
    and sock :: "'p \<Rightarrow> packet_conn \<Rightarrow> addr option"
    and pinv :: "'p \<Rightarrow> bool"
  assumes allocate_ok:
      "pinv p \<Longrightarrow> po_AllocatePort P p proto net d = (Inr n, p') \<Longrightarrow>
       pinv p' \<and> na_Proto n = proto \<and> na_Conn n \<noteq> NilConn \<and> sock p (na_Conn n) = None \<and>
       na_Addr n \<notin> ran (sock p) \<and> sock p' = (sock p)(na_Conn n \<mapsto> na_Addr n)"
    and allocate_err:
      "pinv p \<Longrightarrow> po_AllocatePort P p proto net d = (Inl e, p') \<Longrightarrow> pinv p' \<and> sock p' = sock p"
    and close_inv: "pinv p \<Longrightarrow> pinv (snd (po_Close P p c))"
    and close_sock: "pinv p \<Longrightarrow> sock (snd (po_Close P p c)) = (sock p)(c := None)"
begin

lemma close_all_inv: "pinv p \<Longrightarrow> pinv (close_all P rs p)"
  by (induction rs arbitrary: p) (simp_all add: close_all_Cons close_inv del: close_all.simps(2))

lemma close_all_sock:
  "pinv p \<Longrightarrow> sock (close_all P rs p) = (\<lambda>c. if c \<in> na_Conn ` set rs then None else sock p c)"
proof (induction rs arbitrary: p)
  case (Cons r rs)
  then show ?case
    using Cons.IH [OF close_inv [OF Cons.prems]] close_sock [OF Cons.prems]
    by (auto simp: fun_eq_iff close_all_Cons simp del: close_all.simps(2))
qed (simp add: fun_eq_iff)

end

text \<open>The system's sockets satisfy the interface.\<close>

lemma os_ListenUDP_ok:
  assumes "os_inv s" and "os_ListenUDP s network a = (Inr c, s')"
  shows "\<exists>laddr. c = UDPConn (os_next s) \<and> s' = s\<lparr>os_next := Suc (os_next s),
           os_open := os_open s @ [(os_next s, laddr)]\<rparr> \<and> laddr \<notin> snd ` set (os_open s)"
  using assms by (auto simp: os_ListenUDP_def Let_def split: option.splits if_splits)

lemma os_ListenUDP_err:
  "os_ListenUDP s network a = (Inl e, s') \<Longrightarrow> s' = s"
  by (auto simp: os_ListenUDP_def Let_def split: option.splits if_splits)

lemma os_inv_fresh: "os_inv s \<Longrightarrow> map_of (os_open s) (os_next s) = None"
  by (auto simp: os_inv_def map_of_eq_None_iff)

lemma os_sock_snoc:
  assumes "os_inv s"
  shows "os_sock (s\<lparr>os_next := m, os_open := os_open s @ [(os_next s, a)]\<rparr>)
         = (os_sock s)(UDPConn (os_next s) \<mapsto> a)"
  using os_inv_fresh [OF assms]
  by (auto simp: os_sock_def fun_eq_iff map_add_def split: packet_conn.splits option.splits)

lemma os_sock_range: "ran (os_sock s) \<subseteq> snd ` set (os_open s)"
proof
  fix a
  assume "a \<in> ran (os_sock s)"
  then obtain c where "os_sock s c = Some a" by (auto simp: ran_def)
  then show "a \<in> snd ` set (os_open s)"
    by (cases c) (auto simp: os_sock_def dest!: map_of_SomeD intro: rev_image_eqI)
qed

lemma SystemPort_ok:
  assumes "os_inv s" and "SystemPort_AllocatePort s proto net d = (Inr n, s')"
  shows "os_inv s'" and "na_Proto n = proto" and "na_Conn n = UDPConn (os_next s)"
    and "na_Addr n \<notin> ran (os_sock s)" and "os_sock s' = (os_sock s)(na_Conn n \<mapsto> na_Addr n)"
proof -
  obtain a c where L: "os_ListenUDP s ''udp4'' a = (Inr c, s')" and n: "na_Conn n = c" "na_Proto n = proto"
    "na_Addr n = os_LocalAddr s' c"
    using assms(2) by (auto simp: SystemPort_AllocatePort_def Let_def split: sum.splits prod.splits)
  obtain laddr where l: "c = UDPConn (os_next s)" "s' = s\<lparr>os_next := Suc (os_next s),
      os_open := os_open s @ [(os_next s, laddr)]\<rparr>" "laddr \<notin> snd ` set (os_open s)"
    using os_ListenUDP_ok [OF assms(1) L] by auto
  note sock = os_sock_snoc [OF assms(1), where m = "Suc (os_next s)" and a = laddr]
  show "os_inv s'" using assms(1) l by (force simp: os_inv_def)
  show "na_Proto n = proto" "na_Conn n = UDPConn (os_next s)" using n l by auto
  have "na_Addr n = laddr" using n l sock by (simp add: os_LocalAddr_def)
  then show "na_Addr n \<notin> ran (os_sock s)" "os_sock s' = (os_sock s)(na_Conn n \<mapsto> na_Addr n)"
    using l n sock os_sock_range [of s] by auto
qed

lemma SystemPort_err: "SystemPort_AllocatePort s proto net d = (Inl e, s') \<Longrightarrow> s' = s"
  by (auto simp: SystemPort_AllocatePort_def Let_def split: sum.splits prod.splits
           dest: os_ListenUDP_err)

lemma os_Close_inv: "os_inv s \<Longrightarrow> os_inv (snd (os_Close s c))"
  by (auto simp: os_inv_def os_Close_def distinct_map_filter split: packet_conn.splits)

lemma map_of_filter_key: "map_of (filter (\<lambda>(j, _). j \<noteq> k) xs) = (map_of xs)(k := None)"
  by (induction xs) (auto simp: fun_eq_iff)

lemma os_Close_sock: "os_sock (snd (os_Close s c)) = (os_sock s)(c := None)"
  by (auto simp: os_sock_def os_Close_def fun_eq_iff map_of_filter_key map_of_eq_None_iff image_iff
           split: packet_conn.splits if_splits)

interpretation sys: port_allocator system_ports os_sock os_inv
proof
  show "os_inv s' \<and> na_Proto n = proto \<and> na_Conn n \<noteq> NilConn \<and> os_sock s (na_Conn n) = None \<and>
        na_Addr n \<notin> ran (os_sock s) \<and> os_sock s' = (os_sock s)(na_Conn n \<mapsto> na_Addr n)"
    if "os_inv s" "po_AllocatePort system_ports s proto net d = (Inr n, s')" for s proto net d n s'
  proof -
    have "SystemPort_AllocatePort s proto net d = (Inr n, s')"
      using that(2) by (simp add: system_ports_def)
    from SystemPort_ok [OF that(1) this] os_inv_fresh [OF that(1)] show ?thesis
      by (auto simp: os_sock_def)
  qed
qed (auto simp: system_ports_def os_Close_inv os_Close_sock dest: SystemPort_err)

section \<open>\<open>RelayedAddrAllocator\<close>\<close>

text \<open>
  \<open>live r\<close> lists the relayed addresses in use with their protocol and connection,
  \<open>rsock r c\<close> is the address of the connection \<open>c\<close> if its socket is open, and
  \<open>rel\<close> is the equality by which \<open>Remove\<close> recognises an address.
\<close>

locale relayed_addr_allocator =
  fixes R :: "'r raddr_ops"
    and live :: "'r \<Rightarrow> (addr \<times> protocol \<times> packet_conn) list"
    and rsock :: "'r \<Rightarrow> packet_conn \<Rightarrow> addr option"
    and rinv :: "'r \<Rightarrow> bool"
    and rel :: "addr \<Rightarrow> addr \<Rightarrow> bool"
  assumes new_ok:
      "rinv r \<Longrightarrow> ra_New R r p = (Inr (a, c), r') \<Longrightarrow>
       rinv r' \<and> c \<noteq> NilConn \<and> live r' = live r @ [(a, p, c)] \<and> a \<notin> fst ` set (live r)"
    and new_err: "rinv r \<Longrightarrow> ra_New R r p = (Inl e, r') \<Longrightarrow> rinv r' \<and> live r' = live r"
    and remove_inv: "rinv r \<Longrightarrow> rinv (snd (ra_Remove R r a p))"
    and remove_live: "rinv r \<Longrightarrow> live (snd (ra_Remove R r a p))
       = filter (\<lambda>(b, q, c). \<not> (q = p \<and> rel a b)) (live r)"
    and live_open: "rinv r \<Longrightarrow> (a, p, c) \<in> set (live r) \<Longrightarrow> rsock r c = Some a"
begin

lemma remove_subset: "rinv r \<Longrightarrow> set (live (snd (ra_Remove R r a p))) \<subseteq> set (live r)"
  by (auto simp: remove_live)

lemma remove_none:
  "rinv r \<Longrightarrow> \<forall>(b, q, c) \<in> set (live r). \<not> rel a b \<Longrightarrow> live (snd (ra_Remove R r a p)) = live r"
  by (auto simp: remove_live filter_id_conv)

end

definition net_live :: "'p net_allocator \<Rightarrow> (addr \<times> protocol \<times> packet_conn) list" where
  "net_live a = map (\<lambda>n. (na_Addr n, na_Proto n, na_Conn n)) (nal_allocs a)"

definition net_inv ::
  "('p \<Rightarrow> packet_conn \<Rightarrow> addr option) \<Rightarrow> ('p \<Rightarrow> bool) \<Rightarrow> 'p net_allocator \<Rightarrow> bool" where
  "net_inv sock pinv a \<longleftrightarrow> nal_newAllocs a = [] \<and> pinv (nal_ports a) \<and>
     distinct (map na_Conn (nal_allocs a)) \<and>
     (\<forall>n \<in> set (nal_allocs a). na_Conn n \<noteq> NilConn \<and> sock (nal_ports a) (na_Conn n) = Some (na_Addr n))"

context port_allocator
begin

lemma NetAllocator_New_ok:
  assumes inv: "net_inv sock pinv r" and new: "NetAllocator_New P r p = (Inr (a, c), r')"
  shows "net_inv sock pinv r' \<and> c \<noteq> NilConn \<and> net_live r' = net_live r @ [(a, p, c)] \<and>
         a \<notin> fst ` set (net_live r)"
proof -
  obtain n p' where al: "po_AllocatePort P (nal_ports r) p ''udp4'' (nal_defaultAddr r) = (Inr n, p')"
    and n: "a = na_Addr n" "c = na_Conn n" "r' = r\<lparr>nal_ports := p', nal_allocs := nal_allocs r @ [n]\<rparr>"
    using new by (auto simp: NetAllocator_New_def split: prod.splits sum.splits)
  have pi: "pinv (nal_ports r)" using inv by (simp add: net_inv_def)
  note ok = allocate_ok [OF pi al]
  have old: "sock (nal_ports r) (na_Conn x) = Some (na_Addr x)" if "x \<in> set (nal_allocs r)" for x
    using that inv by (simp add: net_inv_def)
  have fresh: "na_Conn n \<notin> na_Conn ` set (nal_allocs r)" "na_Addr n \<notin> na_Addr ` set (nal_allocs r)"
    using old ok by (force, metis imageE ranI)
  show ?thesis
    using inv ok fresh n by (auto simp: net_inv_def net_live_def image_image)
qed

lemma NetAllocator_Remove_inv:
  assumes inv: "net_inv sock pinv r"
  shows "net_inv sock pinv (snd (NetAllocator_Remove T P r a p))"
proof -
  have pi: "pinv (nal_ports r)" and na: "nal_newAllocs r = []" and d: "distinct (map na_Conn (nal_allocs r))"
    using inv by (auto simp: net_inv_def)
  have "na_Conn x \<notin> na_Conn ` set (filter (removes T a p) (nal_allocs r))"
    if "x \<in> set (nal_allocs r)" "\<not> removes T a p x" for x
    using that d by (auto simp: distinct_map inj_on_def)
  then show ?thesis
    using inv close_all_sock [OF pi] close_all_inv [OF pi]
    by (auto simp: NetAllocator_Remove_eq [OF na] net_inv_def distinct_map_filter)
qed

end

sublocale port_allocator \<subseteq> net: relayed_addr_allocator "net_raddr T P" net_live
  "\<lambda>r. sock (nal_ports r)" "net_inv sock pinv" "Addr_Equal T" for T
proof
  show "net_inv sock pinv r' \<and> net_live r' = net_live r"
    if "net_inv sock pinv r" "ra_New (net_raddr T P) r p = (Inl e, r')" for r p e r'
    using that allocate_err [of "nal_ports r"]
    by (auto simp: net_raddr_def NetAllocator_New_def net_inv_def net_live_def
             split: prod.splits sum.splits)
  show "net_live (snd (ra_Remove (net_raddr T P) r a p))
        = filter (\<lambda>(b, q, c). \<not> (q = p \<and> Addr_Equal T a b)) (net_live r)"
    if "net_inv sock pinv r" for r a p
    using that by (auto simp: net_raddr_def net_inv_def NetAllocator_Remove_eq net_live_def
        filter_map o_def removes_def)
  show "sock (nal_ports r) c = Some a"
    if "net_inv sock pinv r" "(a, p, c) \<in> set (net_live r)" for r a p c
    using that by (auto simp: net_inv_def net_live_def)
qed (auto simp: net_raddr_def intro: NetAllocator_Remove_inv NetAllocator_New_ok dest: NetAllocator_New_ok)

section \<open>Properties\<close>

context port_allocator
begin

lemma Remove_sock:
  assumes "net_inv sock pinv r"
  shows "sock (nal_ports (snd (NetAllocator_Remove T P r a p))) c
         = (if \<exists>b. (b, p, c) \<in> set (net_live r) \<and> Addr_Equal T a b then None else sock (nal_ports r) c)"
  using assms close_all_sock [of "nal_ports r"]
  by (auto simp: net_inv_def NetAllocator_Remove_eq net_live_def removes_def image_iff)

end

text \<open>
  Claim C18. A relayed address the port manager hands out over the system's sockets is new: no
  allocation in use has it, its connection is an open socket bound to it, and all sockets
  that were open before stay open.
\<close>

theorem NetAllocator_New_fresh:
  assumes "net_inv os_sock os_inv a"
    and "NetAllocator_New system_ports a proto = (Inr (x, c), a')"
  shows "net_inv os_sock os_inv a' \<and> x \<notin> fst ` set (net_live a) \<and>
         net_live a' = net_live a @ [(x, proto, c)] \<and>
         os_sock (nal_ports a') c = Some x"
  using sys.NetAllocator_New_ok [OF assms] sys.net.live_open [of a' x proto c] by auto

definition sample_os :: os where
  "sample_os = \<lparr>os_next = 3, os_open = [], os_pick = (\<lambda>_ opened. Some (5000 + int (length opened))),
     os_deny = (\<lambda>_. None), os_resolve = (\<lambda>_ _. Inr \<lparr>addr_IP = [127, 0, 0, 1], addr_Port = 0\<rparr>)\<rparr>"

definition sample_net :: "os net_allocator" where
  "sample_net = \<lparr>nal_allocs = [], nal_newAllocs = [], nal_ports = sample_os,
     nal_defaultAddr = ''127.0.0.1:0''\<rparr>"

lemma sample_net_inv: "net_inv os_sock os_inv sample_net"
  by (simp add: net_inv_def sample_net_def sample_os_def os_inv_def)

lemmas sample_net_eval = sample_net_def sample_os_def NetAllocator_New_def system_ports_def
  SystemPort_AllocatePort_def os_ListenUDP_def os_LocalAddr_def os_sock_def Let_def

theorem NetAllocator_New_fresh_witness:
  "\<exists>a'. NetAllocator_New system_ports sample_net ProtoUDP
      = (Inr (\<lparr>addr_IP = [127, 0, 0, 1], addr_Port = 5000\<rparr>, UDPConn 3), a') \<and>
    os_sock (nal_ports a') (UDPConn 3) = Some \<lparr>addr_IP = [127, 0, 0, 1], addr_Port = 5000\<rparr>"
proof -
  have "\<exists>a'. NetAllocator_New system_ports sample_net ProtoUDP
      = (Inr (\<lparr>addr_IP = [127, 0, 0, 1], addr_Port = 5000\<rparr>, UDPConn 3), a')"
    by (simp add: sample_net_eval)
  then show ?thesis
    using NetAllocator_New_fresh [OF sample_net_inv] by blast
qed

text \<open>
  \<open>NetAllocator.Remove\<close> closes exactly the sockets of the allocations with the
  given protocol and an equal address, forgets exactly those allocations, leaves every other
  socket open, and always returns no error (so that a call for an address nobody holds is a
  silent no-op).
\<close>

theorem NetAllocator_Remove_exact:
  assumes "net_inv os_sock os_inv a"
  shows "case NetAllocator_Remove T system_ports a x proto of (err, a') \<Rightarrow>
    err = None \<and> net_inv os_sock os_inv a' \<and>
    net_live a' = filter (\<lambda>(b, q, c). \<not> (q = proto \<and> Addr_Equal T x b)) (net_live a) \<and>
    (\<forall>c. os_sock (nal_ports a') c =
        (if \<exists>b. (b, proto, c) \<in> set (net_live a) \<and> Addr_Equal T x b then None
         else os_sock (nal_ports a) c))"
proof -
  have "fst (NetAllocator_Remove T system_ports a x proto) = None"
    by (simp add: NetAllocator_Remove_def split: prod.split)
  then show ?thesis
    using sys.net.remove_live [OF assms, of T x proto] sys.net.remove_inv [OF assms, of T x proto]
      sys.Remove_sock [OF assms, of T x proto]
    by (auto simp: net_raddr_def split: prod.splits)
qed

theorem NetAllocator_Remove_exact_witness:
  "\<exists>a1 a2 x. NetAllocator_New system_ports sample_net ProtoUDP = (Inr (x, UDPConn 3), a1) \<and>
     NetAllocator_Remove documented_turn system_ports a1 x ProtoUDP = (None, a2) \<and>
     os_sock (nal_ports a1) (UDPConn 3) = Some x \<and> os_sock (nal_ports a2) (UDPConn 3) = None"
proof -
  obtain x a1 where new: "NetAllocator_New system_ports sample_net ProtoUDP = (Inr (x, UDPConn 3), a1)"
    by (simp add: sample_net_eval)
  note f = sys.NetAllocator_New_ok [OF sample_net_inv new] sys.net.live_open [of a1 x ProtoUDP "UDPConn 3"]
  then have inv: "net_inv os_sock os_inv a1" and l: "(x, ProtoUDP, UDPConn 3) \<in> set (net_live a1)"
    and s: "os_sock (nal_ports a1) (UDPConn 3) = Some x"
    by auto
  show ?thesis
    using new s l NetAllocator_Remove_exact [OF inv, where T = documented_turn and x = x and proto = ProtoUDP]
    by (fastforce split: prod.splits)
qed

end
