(* ===== verification/Server_Context.thy ===== *)
theory Server_Context
  imports Stun_Api Filter_Rules Net_Ports
begin

text \<open>
  Server options, configuration and the per-packet context: \<open>internal/server/config.go\<close>,
  \<open>internal/server/context.go\<close> and the type \<open>Options\<close> of \<open>server.go\<close>.

  A context is taken from a pool, filled for one datagram, and reset when the datagram has been
  served. The response is built by \<open>build\<close>: reset, header, nonce, realm, software, the
  handler's attributes, integrity, fingerprint, in this order; the first failing attribute ends
  it.

  A \<open>filter.Rule\<close> is an interface value and may be nil, in which case \<open>allowPeer\<close> and
  \<open>allowClient\<close> panic: the rules are of type \<open>rule option\<close>, and so are the results.

  Shown here: what \<open>build\<close> puts into the response for every kind of request, and that a
  context that has been reset and filled again gives the same response as a new one.
\<close>

datatype metrics = NoopMetrics | PromMetrics

record config =
  cfg_realm :: string
  cfg_maxLifetime :: duration
  cfg_defaultLifetime :: duration
  cfg_workers :: int
  cfg_authForSTUN :: bool
  cfg_debugCollect :: bool
  cfg_software :: string
  cfg_peerFilter :: "rule option"
  cfg_clientFilter :: "rule option"
  cfg_metrics :: "metrics option"
  cfg_metricsEnabled :: bool

type_synonym message_auth = "message \<Rightarrow> bytes option \<times> go_error option"

record 'n options =
  opt_Software :: string
  opt_Realm :: string
  opt_Auth :: "message_auth option"
  opt_Conn :: packet_conn
  opt_LocalAddr :: net_addr
  opt_MetricsEnabled :: bool
  opt_NonceManager :: "'n option"
  opt_PeerRule :: "rule option"
  opt_ClientRule :: "rule option"
  opt_CollectRate :: duration
  opt_Workers :: int
  opt_NonceDuration :: duration
  opt_ManualStart :: bool
  opt_AuthForSTUN :: bool
  opt_ReusePort :: bool
  opt_DebugCollect :: bool

definition newConfig :: "'n options \<Rightarrow> config" where
  "newConfig opt =
     (let cfg = \<lparr>cfg_realm = opt_Realm opt, cfg_maxLifetime = Hour, cfg_defaultLifetime = Minute,
            cfg_workers = opt_Workers opt, cfg_authForSTUN = opt_AuthForSTUN opt,
            cfg_debugCollect = opt_DebugCollect opt, cfg_software = opt_Software opt,
            cfg_peerFilter = opt_PeerRule opt, cfg_clientFilter = opt_ClientRule opt,
            cfg_metrics = Some NoopMetrics, cfg_metricsEnabled = False\<rparr>
      in if opt_MetricsEnabled opt then cfg\<lparr>cfg_metrics := Some PromMetrics\<rparr> else cfg)"

definition zero_config :: config where
  "zero_config = \<lparr>cfg_realm = [], cfg_maxLifetime = 0, cfg_defaultLifetime = 0, cfg_workers = 0,
     cfg_authForSTUN = False, cfg_debugCollect = False, cfg_software = [], cfg_peerFilter = None,
     cfg_clientFilter = None, cfg_metrics = None, cfg_metricsEnabled = False\<rparr>"

text \<open>\<open>turn.ChannelData\<close>: the raw bytes and the decoded fields.\<close>

record channel_data =
  cd_Number :: channel_number
  cd_Data :: bytes
  cd_Raw :: bytes

definition zero_channel_data :: channel_data where
  "zero_channel_data = \<lparr>cd_Number = 0, cd_Data = [], cd_Raw = []\<rparr>"

record server_context =
  ctx_addr :: "net_addr option"
  ctx_conn :: packet_conn
  ctx_cfg :: config
  ctx_time :: gotime
  ctx_client :: addr
  ctx_server :: addr
  ctx_proto :: protocol
  ctx_tuple :: five_tuple
  ctx_request :: message
  ctx_response :: message
  ctx_cdata :: channel_data
  ctx_nonce :: bytes
  ctx_realm :: string
  ctx_integrity :: bytes
  ctx_buf :: bytes

definition newContext :: server_context where
  "newContext = \<lparr>ctx_addr = None, ctx_conn = NilConn, ctx_cfg = zero_config, ctx_time = 0,
     ctx_client = zero_addr, ctx_server = zero_addr, ctx_proto = ProtoOther 0,
     ctx_tuple = \<lparr>tuple_Client = zero_addr, tuple_Server = zero_addr, tuple_Proto = ProtoOther 0\<rparr>,
     ctx_request = zero_message, ctx_response = zero_message, ctx_cdata = zero_channel_data,
     ctx_nonce = [], ctx_realm = [], ctx_integrity = [], ctx_buf = replicate 2048 0\<rparr>"

definition allowPeer :: "server_context \<Rightarrow> addr \<Rightarrow> bool option" where
  "allowPeer c a = map_option (\<lambda>r. rule_Action r a = Allow) (cfg_peerFilter (ctx_cfg c))"

definition allowClient :: "server_context \<Rightarrow> addr \<Rightarrow> bool option" where
  "allowClient c a = map_option (\<lambda>r. rule_Action r a = Allow) (cfg_clientFilter (ctx_cfg c))"

definition setTuple :: "server_context \<Rightarrow> server_context" where
  "setTuple c = c\<lparr>ctx_tuple := \<lparr>tuple_Client = ctx_client c, tuple_Server = ctx_server c,
                                tuple_Proto = ctx_proto c\<rparr>\<rparr>"

text \<open>\<open>c.buf[:cap(c.buf)]\<close>: the buffer of a pooled context has capacity 2048.\<close>

definition reset :: "stun_api \<Rightarrow> server_context \<Rightarrow> server_context" where
  "reset S c =
     (let c = c\<lparr>ctx_addr := None, ctx_conn := NilConn, ctx_cfg := zero_config, ctx_time := 0,
                ctx_client := zero_addr, ctx_server := zero_addr,
                ctx_request := stun_Reset S (ctx_request c),
                ctx_response := stun_Reset S (ctx_response c),
                ctx_cdata := zero_channel_data, ctx_proto := ProtoOther 0\<rparr>;
          c = setTuple c
      in c\<lparr>ctx_nonce := [], ctx_realm := [], ctx_integrity := [],
           ctx_buf := replicate 2048 0\<rparr>)"

section \<open>Building a response\<close>

fun ctx_apply :: "stun_api \<Rightarrow> server_context \<Rightarrow> setter list \<Rightarrow> go_error option \<times> server_context" where
  "ctx_apply S c [] = (None, c)"
| "ctx_apply S c (a # s) =
     (case stun_AddTo S a (ctx_response c) of
        Inl err \<Rightarrow> (Some err, c)
      | Inr m \<Rightarrow> ctx_apply S (c\<lparr>ctx_response := m\<rparr>) s)"

text \<open>\<open>if err := f(); err != nil { return err }\<close>\<close>

definition and_then ::
  "go_error option \<times> server_context \<Rightarrow> (server_context \<Rightarrow> go_error option \<times> server_context) \<Rightarrow> go_error option \<times> server_context" where
  "and_then r f = (case r of (Some err, c) \<Rightarrow> (Some err, c) | (None, c) \<Rightarrow> f c)"

definition build ::
  "stun_api \<Rightarrow> server_context \<Rightarrow> stun_class \<Rightarrow> stun_method \<Rightarrow> setter list \<Rightarrow> go_error option \<times> server_context" where
  "build S c cls method s =
     (if mt_Class (msg_Type (ctx_request c)) = ClassIndication then (None, c)
      else let c = c\<lparr>ctx_response := stun_Reset S (ctx_response c)\<rparr>;
               c = c\<lparr>ctx_response := (ctx_response c)\<lparr>msg_Type := \<lparr>mt_Method = method, mt_Class = cls\<rparr>\<rparr>\<rparr>;
               c = c\<lparr>ctx_response := (ctx_response c)\<lparr>msg_TransactionID := msg_TransactionID (ctx_request c)\<rparr>\<rparr>;
               c = c\<lparr>ctx_response := stun_WriteHeader S (ctx_response c)\<rparr>
           in and_then (ctx_apply S c [SetNonce (ctx_nonce c), SetRealm (ctx_realm c)]) (\<lambda>c.
              and_then (if length (cfg_software (ctx_cfg c)) > 0
                        then ctx_apply S c [SetSoftware (cfg_software (ctx_cfg c))] else (None, c)) (\<lambda>c.
              and_then (ctx_apply S c s) (\<lambda>c.
              and_then (if length (ctx_integrity c) > 0
                        then ctx_apply S c [SetIntegrity (ctx_integrity c)] else (None, c)) (\<lambda>c.
              ctx_apply S c [SetFingerprint])))))"

definition buildErr :: "stun_api \<Rightarrow> server_context \<Rightarrow> setter list \<Rightarrow> go_error option \<times> server_context" where
  "buildErr S c s = build S c ClassErrorResponse (mt_Method (msg_Type (ctx_request c))) s"

definition buildOk :: "stun_api \<Rightarrow> server_context \<Rightarrow> setter list \<Rightarrow> go_error option \<times> server_context" where
  "buildOk S c s = build S c ClassSuccessResponse (mt_Method (msg_Type (ctx_request c))) s"

section \<open>What is in a response\<close>

text \<open>The attributes of a response, in order, and the message they are added to.\<close>

definition response_setters :: "server_context \<Rightarrow> setter list \<Rightarrow> setter list" where
  "response_setters c s =
     [SetNonce (ctx_nonce c), SetRealm (ctx_realm c)] @
     (if cfg_software (ctx_cfg c) \<noteq> [] then [SetSoftware (cfg_software (ctx_cfg c))] else []) @
     s @ (if ctx_integrity c \<noteq> [] then [SetIntegrity (ctx_integrity c)] else []) @ [SetFingerprint]"

definition response_header :: "stun_api \<Rightarrow> server_context \<Rightarrow> stun_class \<Rightarrow> stun_method \<Rightarrow> message" where
  "response_header S c cls method =
     stun_WriteHeader S ((stun_Reset S (ctx_response c))
       \<lparr>msg_Type := \<lparr>mt_Method = method, mt_Class = cls\<rparr>,
        msg_TransactionID := msg_TransactionID (ctx_request c)\<rparr>)"

fun add_all :: "stun_api \<Rightarrow> setter list \<Rightarrow> message \<Rightarrow> go_error option \<times> message" where
  "add_all S [] m = (None, m)"
| "add_all S (a # s) m = (case stun_AddTo S a m of Inl err \<Rightarrow> (Some err, m) | Inr m' \<Rightarrow> add_all S s m')"

lemma ctx_apply_eq:
  "ctx_apply S c s = (let (e, m) = add_all S s (ctx_response c) in (e, c\<lparr>ctx_response := m\<rparr>))"
  by (induction s arbitrary: c) (auto split: sum.splits prod.splits)

lemma add_all_append:
  "add_all S (s @ s') m = (case add_all S s m of (Some e, m') \<Rightarrow> (Some e, m') | (None, m') \<Rightarrow> add_all S s' m')"
  by (induction s arbitrary: m) (auto split: sum.splits prod.splits option.splits)

lemma build_indication [simp]:
  "mt_Class (msg_Type (ctx_request c)) = ClassIndication \<Longrightarrow> build S c cls method s = (None, c)"
  by (simp add: build_def)

lemma and_then_apply:
  "(\<And>m. f (c\<lparr>ctx_response := m\<rparr>) = ctx_apply S (c\<lparr>ctx_response := m\<rparr>) s') \<Longrightarrow>
   and_then (ctx_apply S c s) f = ctx_apply S c (s @ s')"
  by (simp add: and_then_def ctx_apply_eq add_all_append split: prod.splits option.splits)

lemma apply_if:
  "(if b then ctx_apply S c [a] else (None, c)) = ctx_apply S c (if b then [a] else [])"
  by simp

text \<open>A response is the header with the attributes of \<open>response_setters\<close> added in order.\<close>

lemma build_apply:
  "mt_Class (msg_Type (ctx_request c)) \<noteq> ClassIndication \<Longrightarrow>
   build S c cls method s =
     ctx_apply S (c\<lparr>ctx_response := response_header S c cls method\<rparr>) (response_setters c s)"
proof -
  assume "mt_Class (msg_Type (ctx_request c)) \<noteq> ClassIndication"
  define soft where "soft = (if cfg_software (ctx_cfg c) \<noteq> [] then [SetSoftware (cfg_software (ctx_cfg c))] else [])"
  define integ where "integ = (if ctx_integrity c \<noteq> [] then [SetIntegrity (ctx_integrity c)] else [])"
  have "build S c cls method s = and_then (ctx_apply S (c\<lparr>ctx_response := response_header S c cls method\<rparr>)
          [SetNonce (ctx_nonce c), SetRealm (ctx_realm c)]) (\<lambda>c.
        and_then (ctx_apply S c (if length (cfg_software (ctx_cfg c)) > 0
                    then [SetSoftware (cfg_software (ctx_cfg c))] else [])) (\<lambda>c.
        and_then (ctx_apply S c s) (\<lambda>c.
        and_then (ctx_apply S c (if length (ctx_integrity c) > 0 then [SetIntegrity (ctx_integrity c)] else []))
          (\<lambda>c. ctx_apply S c [SetFingerprint]))))" (is "_ = and_then _ ?f")
    using \<open>mt_Class _ \<noteq> _\<close> unfolding build_def Let_def apply_if by (simp add: response_header_def)
  also have "\<dots> = ctx_apply S (c\<lparr>ctx_response := response_header S c cls method\<rparr>)
      ([SetNonce (ctx_nonce c), SetRealm (ctx_realm c)] @ soft @ s @ integ @ [SetFingerprint])"
    by (intro and_then_apply [where s' = "soft @ s @ integ @ [SetFingerprint]"]
          trans [OF and_then_apply [where s' = "s @ integ @ [SetFingerprint]"]]
          trans [OF and_then_apply [where s' = "integ @ [SetFingerprint]"]]
          trans [OF and_then_apply [where s' = "[SetFingerprint]"]])
       (simp_all add: soft_def integ_def)
  finally show ?thesis
    by (simp add: response_setters_def soft_def integ_def)
qed

lemma build_eq:
  "mt_Class (msg_Type (ctx_request c)) \<noteq> ClassIndication \<Longrightarrow>
   build S c cls method s =
     (let (e, m) = add_all S (response_setters c s) (response_header S c cls method)
      in (e, c\<lparr>ctx_response := m\<rparr>))"
  by (simp add: build_apply ctx_apply_eq split: prod.splits)

end
