(* ===== verification/Auth_Static.thy ===== *)
theory Auth_Static
  imports Stun_Api
begin

text \<open>
  Long-term credentials, \<open>internal/auth/auth.go\<close>: the list of static credentials, the map
  \<open>NewStatic\<close> builds from it, and \<open>Static.Auth\<close>, which finds the key of a message's
  user and realm and checks the message's integrity with it.

  Shown here: the key of a user is that of the last credential listed for it, and
  authentication succeeds exactly when the message names a configured user and its integrity
  checks under that user's key.
\<close>

record static_credential =
  sc_Username :: string
  sc_Password :: string
  sc_Realm :: string
  sc_Key :: bytes

record static_key =
  sk_username :: string
  sk_realm :: string

record static =
  credentials :: "static_key \<rightharpoonup> bytes"

text \<open>\<open>string(b)\<close> of a byte slice.\<close>

definition go_string :: "bytes \<Rightarrow> string" where
  "go_string bs = map (\<lambda>b. char_of (unat b)) bs"

definition NewStatic :: "stun_api \<Rightarrow> static_credential list \<Rightarrow> static" where
  "NewStatic S creds =
     \<lparr>credentials = fold (\<lambda>c m.
        let k = \<lparr>sk_username = sc_Username c, sk_realm = sc_Realm c\<rparr>
        in if length (sc_Key c) > 0 then m(k \<mapsto> sc_Key c)
           else m(k \<mapsto> stun_NewLongTermIntegrity S (sc_Username c) (sc_Realm c) (sc_Password c)))
      creds Map.empty\<rparr>"

definition Static_Auth :: "stun_api \<Rightarrow> static \<Rightarrow> message \<Rightarrow> bytes option \<times> go_error option" where
  "Static_Auth S s m =
     (case stun_Get S m AttrUsername of
        Inl e \<Rightarrow> (None, Some e)
      | Inr username \<Rightarrow>
          (case stun_Get S m AttrRealm of
             Inl e \<Rightarrow> (None, Some e)
           | Inr realm \<Rightarrow>
               (case credentials s \<lparr>sk_username = go_string username, sk_realm = go_string realm\<rparr> of
                  None \<Rightarrow> (None, Some ErrUserNotFound)
                | Some i \<Rightarrow> (Some i, stun_IntegrityCheck S i m))))"

section \<open>The credential map\<close>

definition cred_key :: "stun_api \<Rightarrow> static_credential \<Rightarrow> bytes" where
  "cred_key S c = (if sc_Key c \<noteq> [] then sc_Key c
     else stun_NewLongTermIntegrity S (sc_Username c) (sc_Realm c) (sc_Password c))"

definition cred_for :: "string \<Rightarrow> string \<Rightarrow> static_credential \<Rightarrow> bool" where
  "cred_for u r c \<longleftrightarrow> sc_Username c = u \<and> sc_Realm c = r"

lemma NewStatic_last:
  "credentials (NewStatic S creds) \<lparr>sk_username = u, sk_realm = r\<rparr>
   = map_option (cred_key S) (find (cred_for u r) (rev creds))"
proof (induction creds rule: rev_induct)
  case (snoc c creds)
  then show ?case
    by (auto simp: NewStatic_def Let_def cred_key_def cred_for_def)
qed (simp add: NewStatic_def)

text \<open>
  Static authentication accepts a message exactly when the message has a user name
  and a realm, some credential is configured for that user and realm, and the message's
  integrity checks under the key of the last such credential (its explicit key if it has one,
  the long-term key derived from its password otherwise); the integrity returned is that key.
\<close>

theorem Static_Auth_accepts_iff:
  "Static_Auth S (NewStatic S creds) m = (Some i, None) \<longleftrightarrow>
     (\<exists>u r c. stun_Get S m AttrUsername = Inr u \<and> stun_Get S m AttrRealm = Inr r \<and>
        find (cred_for (go_string u) (go_string r)) (rev creds) = Some c \<and>
        i = cred_key S c \<and> stun_IntegrityCheck S i m = None)"
  by (auto simp: Static_Auth_def NewStatic_last split: sum.splits option.splits)

lemma Static_Auth_empty: "snd (Static_Auth S (NewStatic S []) m) \<noteq> None"
  by (auto simp: Static_Auth_def NewStatic_def split: sum.splits)

end
