(* ===== verification/Auth_Nonce.thy ===== *)
theory Auth_Nonce
  imports Stun_Api
begin

text \<open>
  Nonces, \<open>internal/auth/nonce.go\<close>: one nonce per 5-tuple, valid for a configured duration
  (for ever if the duration is zero), rotated by \<open>NonceAuth.Check\<close> when it has expired.
  The 12 random bytes \<open>newNonce\<close> draws are an argument; a failing random source, on which
  the code panics, is not modelled.

  The interface \<open>NonceManager\<close> of \<open>internal/server/server.go\<close> is the locale
  \<open>nonce_manager\<close>; \<open>NonceAuth\<close> implements it for every five-tuple equality that
  satisfies \<open>turn_laws\<close>. The main fact is the challenge-response round: whatever nonce
  \<open>Check\<close> returns is the one it accepts next, so a client is never asked twice.
\<close>

record nonce =
  nonce_tuple :: five_tuple
  nonce_value :: bytes
  nonce_validUntil :: gotime

definition nonce_valid :: "nonce \<Rightarrow> gotime \<Rightarrow> bool" where
  "nonce_valid n t \<longleftrightarrow> IsZero (nonce_validUntil n) \<or> After (nonce_validUntil n) t"

record nonce_auth =
  na_duration :: duration
  na_nonces :: "nonce list"

definition NewNonceAuth :: "duration \<Rightarrow> nonce_auth" where
  "NewNonceAuth d = \<lparr>na_duration = d, na_nonces = []\<rparr>"

text \<open>\<open>hex.Encode\<close>: two lower-case digits per byte.\<close>

definition hex_digit :: "nat \<Rightarrow> byte" where
  "hex_digit n = (if n < 10 then of_nat (48 + n) else of_nat (87 + n))"

definition hex_Encode :: "bytes \<Rightarrow> bytes" where
  "hex_Encode bs = concat (map (\<lambda>b. [hex_digit (unat b div 16), hex_digit (unat b mod 16)]) bs)"

definition newNonce :: "bytes \<Rightarrow> bytes" where
  "newNonce rnd = (let buf = take 12 (rnd @ replicate 12 0); v = hex_Encode buf in v)"

definition NonceAuth_Check ::
  "turn_api \<Rightarrow> nonce_auth \<Rightarrow> five_tuple \<Rightarrow> bytes \<Rightarrow> gotime \<Rightarrow> bytes
   \<Rightarrow> (bytes \<times> go_error option) \<times> nonce_auth" where
  "NonceAuth_Check T n tuple v at rnd =
     (case find (\<lambda>x. FiveTuple_Equal T (nonce_tuple x) tuple) (na_nonces n) of
        Some current \<Rightarrow>
          if nonce_valid current at then
            (if nonce_value current \<noteq> v then ((nonce_value current, Some ErrStaleNonce), n)
             else ((nonce_value current, None), n))
          else
            let current' = current\<lparr>nonce_value := newNonce rnd,
                                   nonce_validUntil := at + na_duration n\<rparr>
            in ((nonce_value current', Some ErrStaleNonce),
                n\<lparr>na_nonces := update_first (\<lambda>x. FiveTuple_Equal T (nonce_tuple x) tuple)
                     (\<lambda>_. current') (na_nonces n)\<rparr>)
      | None \<Rightarrow>
          let current = \<lparr>nonce_tuple = tuple, nonce_value = newNonce rnd,
                nonce_validUntil = (if na_duration n \<noteq> 0 then at + na_duration n else 0)\<rparr>
          in ((nonce_value current, Some ErrStaleNonce), n\<lparr>na_nonces := na_nonces n @ [current]\<rparr>))"

section \<open>Invariant\<close>

text \<open>
  A nonce expires only when the manager has a positive duration, and no two nonces are for the
  same 5-tuple.
\<close>

definition nonce_inv :: "turn_api \<Rightarrow> nonce_auth \<Rightarrow> bool" where
  "nonce_inv T n \<longleftrightarrow> na_duration n \<ge> 0 \<and>
     (\<forall>x \<in> set (na_nonces n). nonce_validUntil x \<noteq> 0 \<longrightarrow> na_duration n > 0) \<and>
     pairwise_ne (FiveTuple_Equal T) (map nonce_tuple (na_nonces n))"

lemma length_newNonce: "length (newNonce rnd) = 24"
proof -
  have "length (hex_Encode bs) = 2 * length bs" for bs
    by (induction bs) (auto simp: hex_Encode_def)
  then show ?thesis by (simp add: newNonce_def)
qed

lemma nonce_inv_New: "d \<ge> 0 \<Longrightarrow> nonce_inv T (NewNonceAuth d)"
  by (simp add: nonce_inv_def NewNonceAuth_def)

lemma NonceAuth_Check_duration [simp]:
  "na_duration (snd (NonceAuth_Check T n t v at rnd)) = na_duration n"
  by (simp add: NonceAuth_Check_def Let_def split: option.splits)

text \<open>The three branches of \<open>Check\<close>: a known and valid nonce, an expired one, no nonce.\<close>

abbreviation same_tuple :: "turn_api \<Rightarrow> five_tuple \<Rightarrow> nonce \<Rightarrow> bool" where
  "same_tuple T t \<equiv> \<lambda>x. FiveTuple_Equal T (nonce_tuple x) t"

definition rotated :: "nonce_auth \<Rightarrow> gotime \<Rightarrow> bytes \<Rightarrow> nonce \<Rightarrow> nonce" where
  "rotated n at rnd x = x\<lparr>nonce_value := newNonce rnd, nonce_validUntil := at + na_duration n\<rparr>"

definition issued :: "nonce_auth \<Rightarrow> five_tuple \<Rightarrow> gotime \<Rightarrow> bytes \<Rightarrow> nonce" where
  "issued n t at rnd = \<lparr>nonce_tuple = t, nonce_value = newNonce rnd,
     nonce_validUntil = (if na_duration n \<noteq> 0 then at + na_duration n else 0)\<rparr>"

lemma Check_valid:
  "find (same_tuple T t) (na_nonces n) = Some x \<Longrightarrow> nonce_valid x at \<Longrightarrow>
   NonceAuth_Check T n t v at rnd
   = ((nonce_value x, if nonce_value x = v then None else Some ErrStaleNonce), n)"
  by (simp add: NonceAuth_Check_def)

lemma Check_expired:
  "find (same_tuple T t) (na_nonces n) = Some x \<Longrightarrow> \<not> nonce_valid x at \<Longrightarrow>
   NonceAuth_Check T n t v at rnd
   = ((newNonce rnd, Some ErrStaleNonce),
      n\<lparr>na_nonces := update_first (same_tuple T t) (rotated n at rnd) (na_nonces n)\<rparr>)"
proof -
  assume f: "find (same_tuple T t) (na_nonces n) = Some x" and nv: "\<not> nonce_valid x at"
  have "update_first P (\<lambda>_. g x) ys = update_first P g ys" if "find P ys = Some x"
    for P g and ys :: "nonce list"
    using that by (induction ys) (auto split: if_splits)
  from this [OF f, of "rotated n at rnd"] show ?thesis
    using f nv by (simp add: NonceAuth_Check_def Let_def rotated_def)
qed

lemma Check_unknown:
  "find (same_tuple T t) (na_nonces n) = None \<Longrightarrow>
   NonceAuth_Check T n t v at rnd
   = ((newNonce rnd, Some ErrStaleNonce), n\<lparr>na_nonces := na_nonces n @ [issued n t at rnd]\<rparr>)"
  by (simp add: NonceAuth_Check_def Let_def issued_def)

lemmas Check_simps = Check_valid Check_expired Check_unknown

lemma Check_cases:
  obtains (valid) x where "find (same_tuple T t) (na_nonces n) = Some x" "nonce_valid x at"
  | (expired) x where "find (same_tuple T t) (na_nonces n) = Some x" "\<not> nonce_valid x at"
  | (unknown) "find (same_tuple T t) (na_nonces n) = None"
  by (cases "find (same_tuple T t) (na_nonces n)") auto

lemma expired_duration:
  assumes "nonce_inv T n" and "find (same_tuple T t) (na_nonces n) = Some x" and "\<not> nonce_valid x at"
  shows "na_duration n > 0"
  using assms by (auto simp: nonce_inv_def nonce_valid_def IsZero_def dest!: find_SomeD)

lemma nonce_inv_Check [wf_intros]:
  assumes inv: "nonce_inv T n"
  shows "nonce_inv T (snd (NonceAuth_Check T n t v at rnd))"
proof (cases T t n at rule: Check_cases)
  case (valid x)
  then show ?thesis using inv by (simp add: Check_valid)
next
  case (expired x)
  have "map nonce_tuple (update_first (same_tuple T t) (rotated n at rnd) (na_nonces n))
        = map nonce_tuple (na_nonces n)"
    by (rule map_update_first) (simp add: rotated_def)
  with expired expired_duration [OF inv expired] inv show ?thesis
    by (simp add: Check_expired nonce_inv_def)
next
  case unknown
  then show ?thesis
    using inv by (auto simp: Check_unknown nonce_inv_def find_None_iff_all issued_def)
qed

section \<open>The interface\<close>

text \<open>
  What the server relies on in a nonce manager. \<open>Check n t v at rnd\<close> returns the nonce to
  use for \<open>t\<close> and whether \<open>v\<close> was it.
\<close>

locale nonce_manager =
  fixes check :: "'n \<Rightarrow> five_tuple \<Rightarrow> bytes \<Rightarrow> gotime \<Rightarrow> bytes \<Rightarrow> (bytes \<times> go_error option) \<times> 'n"
    and ninv :: "'n \<Rightarrow> bool"
  assumes check_inv: "ninv n \<Longrightarrow> ninv (snd (check n t v at rnd))"
    and check_error: "snd (fst (check n t v at rnd)) \<in> {None, Some ErrStaleNonce}"
    and check_accept: "check n t v at rnd = ((v', None), n') \<Longrightarrow> v' = v \<and> n' = n"
    and check_again: "ninv n \<Longrightarrow> check n t v at rnd = ((v', e), n') \<Longrightarrow>
                      check n' t v' at rnd' = ((v', None), n')"
begin

lemma challenge_response:
  assumes "ninv n" and "check n t v at rnd = ((v', e), n')"
  shows "e = None \<or> (e = Some ErrStaleNonce \<and> check n' t v' at rnd' = ((v', None), n'))"
  using assms check_error [of n t v at rnd] check_again [of n t v at rnd] by auto

end

context turn_laws
begin

lemma find_same_tuple_update:
  "find (same_tuple T t) (update_first (same_tuple T t) (rotated n at rnd) ns)
   = map_option (rotated n at rnd) (find (same_tuple T t) ns)"
  by (rule find_update_first) (simp add: rotated_def)

lemma Check_again:
  assumes inv: "nonce_inv T n" and c: "NonceAuth_Check T n t v at rnd = ((v', e), n')"
  shows "NonceAuth_Check T n' t v' at rnd' = ((v', None), n')"
proof (cases T t n at rule: Check_cases)
  case (valid x)
  then show ?thesis using c by (auto simp: Check_valid)
next
  case (expired x)
  have "nonce_valid (rotated n at rnd x) at"
    using expired_duration [OF inv expired] by (simp add: rotated_def nonce_valid_def After_def)
  with expired c show ?thesis
    by (auto simp: Check_expired find_same_tuple_update rotated_def
             intro!: Check_valid [THEN trans])
next
  case unknown
  have "nonce_valid (issued n t at rnd) at"
    using inv by (auto simp: issued_def nonce_valid_def After_def IsZero_def nonce_inv_def)
  moreover have "find (same_tuple T t) (na_nonces n @ [issued n t at rnd]) = Some (issued n t at rnd)"
    using unknown by (simp add: find_append issued_def)
  ultimately show ?thesis
    using unknown c by (auto simp: Check_unknown issued_def intro!: Check_valid [THEN trans])
qed

end

sublocale turn_laws \<subseteq> na: nonce_manager "NonceAuth_Check T" "nonce_inv T"
proof
  show "snd (fst (NonceAuth_Check T n t v at rnd)) \<in> {None, Some ErrStaleNonce}" for n t v at rnd
    by (cases T t n at rule: Check_cases) (auto simp: Check_simps)
  show "v' = v \<and> n' = n" if "NonceAuth_Check T n t v at rnd = ((v', None), n')" for n t v at rnd v' n'
    using that by (cases T t n at rule: Check_cases) (auto simp: Check_simps split: if_splits)
qed (auto intro: nonce_inv_Check Check_again)

section \<open>Properties\<close>

context turn_laws
begin

lemma nonce_round:
  assumes "nonce_inv T n" and "NonceAuth_Check T n t v at rnd = ((v', e), n')"
  shows "nonce_inv T n'" and "e = None \<or> e = Some ErrStaleNonce"
    and "NonceAuth_Check T n' t v' at rnd' = ((v', None), n')"
  using assms na.check_inv [of n t v at rnd] na.challenge_response [of n t v at rnd]
    na.check_again [of n t v at rnd]
  by auto

lemma issued_window:
  assumes unk: "find (same_tuple T t) (na_nonces n) = None" and d: "na_duration n > 0" and at: "at > 0"
    and c: "NonceAuth_Check T n t v at rnd = ((v', e), n')"
  shows "fst (NonceAuth_Check T n' t v' at' rnd') = (v', None) \<longleftrightarrow> at' < at + na_duration n"
proof -
  have n': "n' = n\<lparr>na_nonces := na_nonces n @ [issued n t at rnd]\<rparr>" "v' = newNonce rnd"
    using c unk by (auto simp: Check_unknown)
  have f: "find (same_tuple T t) (na_nonces n') = Some (issued n t at rnd)"
    using unk by (simp add: n' find_append issued_def)
  have "nonce_valid (issued n t at rnd) at' \<longleftrightarrow> at' < at + na_duration n"
    using d at by (auto simp: issued_def nonce_valid_def After_def IsZero_def)
  then show ?thesis
    using f n'(2) by (cases "nonce_valid (issued n t at rnd) at'")
      (auto simp: Check_valid Check_expired issued_def)
qed

end



text \<open>
  Claim C15. Lifetime of a nonce: with a positive duration, the nonce issued to a 5-tuple that
  had none is accepted at exactly the instants before \<open>at + duration\<close>, and never after.
\<close>

theorem nonce_lifetime:
  assumes "turn_laws T" and "find (same_tuple T t) (na_nonces n) = None"
    and "na_duration n > 0" and "at > 0"
    and "NonceAuth_Check T n t v at rnd = ((v', e), n')"
  shows "fst (NonceAuth_Check T n' t v' at' rnd') = (v', None) \<longleftrightarrow> at' < at + na_duration n"
  using turn_laws.issued_window [OF assms] by simp

theorem nonce_lifetime_witness:
  "\<exists>v' e n'. NonceAuth_Check documented_turn (NewNonceAuth 10) sample_tuple [] 50 [] = ((v', e), n') \<and>
     fst (NonceAuth_Check documented_turn n' sample_tuple v' 59 []) = (v', None) \<and>
     fst (NonceAuth_Check documented_turn n' sample_tuple v' 60 []) \<noteq> (v', None)"
proof -
  let ?n = "NewNonceAuth 10"
  have f: "find (same_tuple documented_turn sample_tuple) (na_nonces ?n) = None"
    by (simp add: NewNonceAuth_def)
  obtain v' e n' where c: "NonceAuth_Check documented_turn ?n sample_tuple [] 50 [] = ((v', e), n')"
    by (metis surj_pair)
  have "na_duration ?n > 0" by (simp add: NewNonceAuth_def)
  note L = nonce_lifetime [OF documented.turn_laws_axioms f this _ c]
  show ?thesis
    using c L [of 59 "[]"] L [of 60 "[]"] by (auto simp: NewNonceAuth_def)
qed

end
