(* ===== verification/Allocator_Model.thy ===== *)
theory Allocator_Model
  imports Net_Ports
begin

text \<open>
  The allocation table, \<open>internal/allocator/allocation.go\<close> and
  \<open>internal/allocator/allocator.go\<close>: bindings, permissions and allocations, and every
  operation of \<open>Allocator\<close> on them.

  The state is the slice of allocations, the state of the relayed address allocator behind the
  interface \<open>RelayedAddrAllocator\<close> (any type, with its operations as the record
  \<open>raddr_ops\<close>), and the read loops started so far (\<open>go allocation.ReadUntilClosed()\<close>
  starts one on a copy of the allocation).
  \<open>New\<close> holds the lock twice, around the reservation and around the commit, and opens the
  socket in between; the two critical sections are definitions of their own so that
  interleavings can be stated. Every other operation is one critical section.
  Logging and the metrics descriptors are left out.
\<close>

type_synonym peer_handler = nat

record binding =
  bind_Port :: int
  bind_Channel :: channel_number
  bind_Timeout :: gotime

record permission =
  perm_IP :: ip
  perm_Timeout :: gotime
  perm_Bindings :: "binding list"

record allocation =
  alloc_Tuple :: five_tuple
  alloc_Permissions :: "permission list"
  alloc_RelayedAddr :: addr
  alloc_Conn :: packet_conn
  alloc_Callback :: peer_handler
  alloc_Timeout :: gotime
  alloc_Buf :: bytes

record 'r allocator =
  al_allocs :: "allocation list"
  al_raddr :: 'r
  al_readers :: "allocation list"

definition NewAllocator :: "'r \<Rightarrow> 'r allocator" where
  "NewAllocator conn = \<lparr>al_allocs = [], al_raddr = conn, al_readers = []\<rparr>"

section \<open>\<open>Permission.conflicts\<close>\<close>

definition conflicts :: "permission \<Rightarrow> channel_number \<Rightarrow> addr \<Rightarrow> bool" where
  "conflicts p n peer =
     (if ip_Equal (perm_IP p) (addr_IP peer) \<and> length (perm_Bindings p) = 0 then False
      else if \<not> ip_Equal (perm_IP p) (addr_IP peer) then False
      else (case find (\<lambda>b. bind_Port b = addr_Port peer) (perm_Bindings p) of
              Some b \<Rightarrow> bind_Channel b \<noteq> n
            | None \<Rightarrow> False))"

section \<open>Sending\<close>

text \<open>
  The search of \<open>SendBound\<close>: no loop breaks, so the last matching binding decides the
  connection and the address.
\<close>

definition SendBound_search ::
  "turn_api \<Rightarrow> allocation list \<Rightarrow> five_tuple \<Rightarrow> channel_number \<Rightarrow> packet_conn \<times> addr" where
  "SendBound_search T allocs tuple n =
     fold (\<lambda>a st.
       if \<not> FiveTuple_Equal T (alloc_Tuple a) tuple then st
       else fold (\<lambda>p st.
              if length (perm_Bindings p) = 0 then st
              else fold (\<lambda>b st.
                     if bind_Channel b \<noteq> n then st
                     else (alloc_Conn a, \<lparr>addr_IP = perm_IP p, addr_Port = bind_Port b\<rparr>))
                   (perm_Bindings p) st)
            (alloc_Permissions a) st)
     allocs (NilConn, zero_addr)"

definition SendBound ::
  "turn_api \<Rightarrow> write_env \<Rightarrow> 'r allocator \<Rightarrow> five_tuple \<Rightarrow> channel_number \<Rightarrow> bytes
   \<Rightarrow> (int \<times> go_error option) \<times> packet list" where
  "SendBound T W s tuple n d =
     (let (conn, x) = SendBound_search T (al_allocs s) tuple n
      in if conn = NilConn then ((0, Some ErrPermissionNotFound), [])
         else let pkt = \<lparr>pkt_Conn = conn, pkt_Data = d,
                         pkt_To = \<lparr>addr_IP = addr_IP x, addr_Port = addr_Port x\<rparr>\<rparr>
              in (W pkt, [pkt]))"

definition Send_search ::
  "turn_api \<Rightarrow> allocation list \<Rightarrow> five_tuple \<Rightarrow> addr \<Rightarrow> packet_conn" where
  "Send_search T allocs tuple peer =
     fold (\<lambda>a conn.
       if \<not> FiveTuple_Equal T (alloc_Tuple a) tuple then conn
       else fold (\<lambda>p conn. if \<not> ip_Equal (addr_IP peer) (perm_IP p) then conn else alloc_Conn a)
            (alloc_Permissions a) conn)
     allocs NilConn"

definition Send ::
  "turn_api \<Rightarrow> write_env \<Rightarrow> 'r allocator \<Rightarrow> five_tuple \<Rightarrow> addr \<Rightarrow> bytes
   \<Rightarrow> (int \<times> go_error option) \<times> packet list" where
  "Send T W s tuple peer d =
     (let conn = Send_search T (al_allocs s) tuple peer
      in if conn = NilConn then ((0, Some ErrPermissionNotFound), [])
         else let pkt = \<lparr>pkt_Conn = conn, pkt_Data = d,
                         pkt_To = \<lparr>addr_IP = addr_IP peer, addr_Port = addr_Port peer\<rparr>\<rparr>
              in (W pkt, [pkt]))"

section \<open>Removing and pruning\<close>

text \<open>The relayed address is given back after the lock is released; an error is only logged.\<close>

fun dealloc_all :: "'r raddr_ops \<Rightarrow> allocation list \<Rightarrow> 'r \<Rightarrow> 'r" where
  "dealloc_all R [] r = r"
| "dealloc_all R (a # as) r =
     (let (err, r') = ra_Remove R r (tuple_Server (alloc_Tuple a)) (tuple_Proto (alloc_Tuple a))
      in dealloc_all R as r')"

text \<open>The critical section of \<open>Remove\<close>: the new table and the allocations to give back.\<close>

definition Remove_unlink ::
  "turn_api \<Rightarrow> 'r allocator \<Rightarrow> five_tuple \<Rightarrow> 'r allocator \<times> allocation list" where
  "Remove_unlink T s t =
     (let newAllocs = filter (\<lambda>a. \<not> FiveTuple_Equal T (alloc_Tuple a) t) (al_allocs s);
          toDealloc = filter (\<lambda>a. FiveTuple_Equal T (alloc_Tuple a) t) (al_allocs s)
      in (s\<lparr>al_allocs := copy_reslice (al_allocs s) newAllocs\<rparr>, toDealloc))"

definition Remove ::
  "turn_api \<Rightarrow> 'r raddr_ops \<Rightarrow> 'r allocator \<Rightarrow> five_tuple \<Rightarrow> go_error option \<times> 'r allocator" where
  "Remove T R s t =
     (let (s1, toDealloc) = Remove_unlink T s t
      in if length toDealloc = 0 then (Some ErrAllocationMismatch, s1)
         else (None, s1\<lparr>al_raddr := dealloc_all R toDealloc (al_raddr s1)\<rparr>))"

definition prune_permission :: "gotime \<Rightarrow> permission \<Rightarrow> permission" where
  "prune_permission t p =
     p\<lparr>perm_Bindings := filter (\<lambda>b. After (bind_Timeout b) t) (perm_Bindings p)\<rparr>"

definition prune_allocation :: "gotime \<Rightarrow> allocation \<Rightarrow> allocation" where
  "prune_allocation t a =
     (let newPermissions = filter (\<lambda>p. After (perm_Timeout p) t)
                             (map (prune_permission t) (alloc_Permissions a))
      in a\<lparr>alloc_Permissions := copy_reslice (alloc_Permissions a) newPermissions\<rparr>)"

definition Prune_unlink :: "'r allocator \<Rightarrow> gotime \<Rightarrow> 'r allocator \<times> allocation list" where
  "Prune_unlink s t =
     (let pruned = map (prune_allocation t) (al_allocs s);
          newAllocs = filter (\<lambda>a. After (alloc_Timeout a) t) pruned;
          toDealloc = filter (\<lambda>a. \<not> After (alloc_Timeout a) t) pruned
      in (s\<lparr>al_allocs := copy_reslice pruned newAllocs\<rparr>, toDealloc))"

definition Prune :: "'r raddr_ops \<Rightarrow> 'r allocator \<Rightarrow> gotime \<Rightarrow> 'r allocator" where
  "Prune R s t =
     (let (s1, toDealloc) = Prune_unlink s t
      in s1\<lparr>al_raddr := dealloc_all R toDealloc (al_raddr s1)\<rparr>)"

section \<open>\<open>New\<close>\<close>

definition fresh_allocation :: "five_tuple \<Rightarrow> gotime \<Rightarrow> peer_handler \<Rightarrow> allocation" where
  "fresh_allocation tuple timeout callback =
     \<lparr>alloc_Tuple = tuple, alloc_Permissions = [], alloc_RelayedAddr = zero_addr,
      alloc_Conn = NilConn, alloc_Callback = callback, alloc_Timeout = timeout, alloc_Buf = []\<rparr>"

text \<open>First critical section: the 5-tuple is reserved.\<close>

definition New_reserve ::
  "turn_api \<Rightarrow> 'r allocator \<Rightarrow> five_tuple \<Rightarrow> gotime \<Rightarrow> peer_handler \<Rightarrow> go_error + 'r allocator" where
  "New_reserve T s tuple timeout callback =
     (case tuple_Proto tuple of
        ProtoOther p \<Rightarrow> Inl (ErrProtoNotImplemented (ProtoOther p))
      | ProtoUDP \<Rightarrow>
          if \<exists>a \<in> set (al_allocs s). FiveTuple_Equal T (alloc_Tuple a) tuple
          then Inl ErrAllocationMismatch
          else Inr (s\<lparr>al_allocs := al_allocs s @ [fresh_allocation tuple timeout callback]\<rparr>))"

text \<open>
  Second critical section: the reserved entry is overwritten with the connection, and a read
  loop starts on the local copy. If the entry is gone, the copy still has no connection.
\<close>

definition New_commit ::
  "turn_api \<Rightarrow> 'r allocator \<Rightarrow> five_tuple \<Rightarrow> gotime \<Rightarrow> peer_handler \<Rightarrow> addr \<Rightarrow> packet_conn
   \<Rightarrow> 'r allocator" where
  "New_commit T s tuple timeout callback raddr conn =
     (let allocation = fresh_allocation tuple timeout callback;
          found = (\<exists>a \<in> set (al_allocs s). FiveTuple_Equal T (alloc_Tuple a) tuple);
          allocation' = (if found
             then allocation\<lparr>alloc_Conn := conn, alloc_RelayedAddr := raddr,
                             alloc_Buf := replicate 2048 0\<rparr>
             else allocation)
      in s\<lparr>al_allocs := update_first (\<lambda>a. FiveTuple_Equal T (alloc_Tuple a) tuple)
                          (\<lambda>_. allocation') (al_allocs s),
           al_readers := al_readers s @ [allocation']\<rparr>)"

definition New ::
  "turn_api \<Rightarrow> 'r raddr_ops \<Rightarrow> 'r allocator \<Rightarrow> five_tuple \<Rightarrow> gotime \<Rightarrow> peer_handler
   \<Rightarrow> (go_error + addr) \<times> 'r allocator" where
  "New T R s tuple timeout callback =
     (case New_reserve T s tuple timeout callback of
        Inl e \<Rightarrow> (Inl e, s)
      | Inr s1 \<Rightarrow>
          (case ra_New R (al_raddr s1) (tuple_Proto tuple) of
             (Inl err, r') \<Rightarrow> (Inl (Wrap ''failed to allocate'' err), s1\<lparr>al_raddr := r'\<rparr>)
           | (Inr (raddr, conn), r') \<Rightarrow>
               (Inr raddr, New_commit T (s1\<lparr>al_raddr := r'\<rparr>) tuple timeout callback raddr conn)))"

section \<open>Permissions and channel bindings\<close>

definition CreatePermission ::
  "turn_api \<Rightarrow> 'r allocator \<Rightarrow> five_tuple \<Rightarrow> addr \<Rightarrow> gotime \<Rightarrow> go_error option \<times> 'r allocator" where
  "CreatePermission T s tuple peer timeout =
     (let permission = \<lparr>perm_IP = addr_IP peer, perm_Timeout = timeout, perm_Bindings = []\<rparr>;
          hit = (\<lambda>p. ip_Equal (perm_IP p) (addr_IP peer));
          found = (\<exists>a \<in> set (al_allocs s). FiveTuple_Equal T (alloc_Tuple a) tuple);
          upd = (\<lambda>a. if \<exists>p \<in> set (alloc_Permissions a). hit p
                     then a\<lparr>alloc_Permissions := update_first hit (\<lambda>p. p\<lparr>perm_Timeout := timeout\<rparr>)
                                                  (alloc_Permissions a)\<rparr>
                     else a\<lparr>alloc_Permissions := alloc_Permissions a @ [permission]\<rparr>);
          s' = s\<lparr>al_allocs := update_first (\<lambda>a. FiveTuple_Equal T (alloc_Tuple a) tuple) upd
                                (al_allocs s)\<rparr>
      in if \<not> found then (Some ErrAllocationMismatch, s') else (None, s'))"

text \<open>
  The loop of \<open>ChannelBind\<close> over the permissions of one allocation: \<open>None\<close> is the early
  return on a conflict, otherwise the new permissions and the flags \<open>updated\<close> and
  \<open>found\<close>, which the code declares outside the loop over the allocations.
\<close>

definition extend_timeout :: "gotime \<Rightarrow> permission \<Rightarrow> permission" where
  "extend_timeout timeout p = (if After timeout (perm_Timeout p) then p\<lparr>perm_Timeout := timeout\<rparr> else p)"

fun bind_permissions ::
  "channel_number \<Rightarrow> addr \<Rightarrow> gotime \<Rightarrow> permission list \<Rightarrow> bool \<Rightarrow> bool
   \<Rightarrow> (permission list \<times> bool \<times> bool) option" where
  "bind_permissions n peer timeout [] updated found = Some ([], updated, found)"
| "bind_permissions n peer timeout (p # ps) updated found =
     (if \<not> ip_Equal (perm_IP p) (addr_IP peer)
      then map_option (\<lambda>(ps', u, f). (p # ps', u, f)) (bind_permissions n peer timeout ps updated found)
      else if conflicts p n peer then None
      else if \<exists>b \<in> set (perm_Bindings p). bind_Channel b = n
      then Some (extend_timeout timeout
                   (p\<lparr>perm_Bindings := update_first (\<lambda>b. bind_Channel b = n)
                        (\<lambda>b. b\<lparr>bind_Timeout := timeout\<rparr>) (perm_Bindings p)\<rparr>) # ps, True, True)
      else if \<not> updated
      then Some ((extend_timeout timeout p)\<lparr>perm_Bindings := perm_Bindings p @
                   [\<lparr>bind_Port = addr_Port peer, bind_Channel = n, bind_Timeout = timeout\<rparr>]\<rparr> # ps,
                 updated, True)
      else Some (p # ps, updated, True))"

fun ChannelBind_loop ::
  "turn_api \<Rightarrow> five_tuple \<Rightarrow> channel_number \<Rightarrow> addr \<Rightarrow> gotime \<Rightarrow> allocation list
   \<Rightarrow> bool \<Rightarrow> bool \<Rightarrow> bool \<Rightarrow> go_error option \<times> allocation list" where
  "ChannelBind_loop T tuple n peer timeout [] updated found allocFound =
     (if \<not> allocFound then Some ErrAllocationMismatch else None, [])"
| "ChannelBind_loop T tuple n peer timeout (a # as) updated found allocFound =
     (if \<not> FiveTuple_Equal T (alloc_Tuple a) tuple
      then (let (e, as') = ChannelBind_loop T tuple n peer timeout as updated found allocFound
            in (e, a # as'))
      else (case bind_permissions n peer timeout (alloc_Permissions a) updated found of
              None \<Rightarrow> (Some ErrAllocationMismatch, a # as)
            | Some (ps, updated', found') \<Rightarrow>
                let ps' = (if \<not> found'
                           then ps @ [\<lparr>perm_IP = addr_IP peer, perm_Timeout = timeout,
                                       perm_Bindings = [\<lparr>bind_Port = addr_Port peer,
                                         bind_Channel = n, bind_Timeout = timeout\<rparr>]\<rparr>]
                           else ps);
                    (e, as') = ChannelBind_loop T tuple n peer timeout as updated' found' True
                in (e, a\<lparr>alloc_Permissions := ps'\<rparr> # as')))"

definition ChannelBind ::
  "turn_api \<Rightarrow> 'r allocator \<Rightarrow> five_tuple \<Rightarrow> channel_number \<Rightarrow> addr \<Rightarrow> gotime
   \<Rightarrow> go_error option \<times> 'r allocator" where
  "ChannelBind T s tuple n peer timeout =
     (if \<not> ChannelNumber_Valid T n then (Some ErrInvalidChannelNumber, s)
      else let (e, as) = ChannelBind_loop T tuple n peer timeout (al_allocs s) False False False
           in (e, s\<lparr>al_allocs := as\<rparr>))"

definition Bound ::
  "turn_api \<Rightarrow> 'r allocator \<Rightarrow> five_tuple \<Rightarrow> addr \<Rightarrow> go_error + channel_number" where
  "Bound T s tuple peer =
     (case first_some (\<lambda>a.
             if \<not> FiveTuple_Equal T (alloc_Tuple a) tuple then None
             else first_some (\<lambda>p.
                    if \<not> ip_Equal (perm_IP p) (addr_IP peer) then None
                    else first_some (\<lambda>b. if bind_Port b = addr_Port peer then Some (bind_Channel b)
                                         else None) (perm_Bindings p))
                  (alloc_Permissions a)) (al_allocs s) of
        Some c \<Rightarrow> Inr c
      | None \<Rightarrow> Inl ErrAllocationMismatch)"

definition Refresh ::
  "turn_api \<Rightarrow> 'r allocator \<Rightarrow> five_tuple \<Rightarrow> gotime \<Rightarrow> go_error option \<times> 'r allocator" where
  "Refresh T s tuple timeout =
     (None, s\<lparr>al_allocs := update_first (\<lambda>a. FiveTuple_Equal T (alloc_Tuple a) tuple)
                             (\<lambda>a. a\<lparr>alloc_Timeout := timeout\<rparr>) (al_allocs s)\<rparr>)"

section \<open>Statistics\<close>

record stats =
  st_Allocations :: nat
  st_Permissions :: nat
  st_Bindings :: nat

definition Stats :: "'r allocator \<Rightarrow> stats" where
  "Stats s =
     fold (\<lambda>a st. fold (\<lambda>p st. st\<lparr>st_Bindings := st_Bindings st + length (perm_Bindings p)\<rparr>)
                  (alloc_Permissions a)
                  (st\<lparr>st_Permissions := st_Permissions st + length (alloc_Permissions a)\<rparr>))
       (al_allocs s) \<lparr>st_Allocations = length (al_allocs s), st_Permissions = 0, st_Bindings = 0\<rparr>"

text \<open>\<open>Collect\<close> sends the three gauges, in this order.\<close>

definition Collect :: "'r allocator \<Rightarrow> (string \<times> nat) list" where
  "Collect s = (let st = Stats s in
     [(''gortcd_allocation_count'', st_Allocations st),
      (''gortcd_permission_count'', st_Permissions st),
      (''gortcd_binding_count'', st_Bindings st)])"

section \<open>\<open>ReadUntilClosed\<close>\<close>

text \<open>
  One iteration reads from the connection. The environment answers with the outcome of
  \<open>SetReadDeadline\<close> and \<open>ReadFrom\<close>: data, \<open>io.EOF\<close> (which the loop treats as data,
  so that its type assertion panics if there is no address), a temporary or timeout error, or
  another error. The loop runs over the answers still to come; it ends with the calls of the
  peer handler in order and the reason. A loop that has consumed every answer is still
  running. A nil connection panics at the first call.
\<close>

datatype read_event =
    DeadlineError go_error
  | ReadData bytes addr
  | ReadEOF bytes "addr option"
  | ReadTemporary
  | ReadError go_error

datatype read_end = ReadRunning | ReadStopped | ReadPanic

record peer_call =
  pc_Handler :: peer_handler
  pc_Data :: bytes
  pc_Tuple :: five_tuple
  pc_From :: addr

definition handle_call :: "allocation \<Rightarrow> bytes \<Rightarrow> addr \<Rightarrow> peer_call" where
  "handle_call a d from =
     \<lparr>pc_Handler = alloc_Callback a, pc_Data = take (length (alloc_Buf a)) d,
      pc_Tuple = alloc_Tuple a, pc_From = \<lparr>addr_IP = addr_IP from, addr_Port = addr_Port from\<rparr>\<rparr>"

fun read_loop :: "allocation \<Rightarrow> read_event list \<Rightarrow> peer_call list \<times> read_end" where
  "read_loop a [] = ([], ReadRunning)"
| "read_loop a (DeadlineError e # es) = ([], ReadStopped)"
| "read_loop a (ReadTemporary # es) = read_loop a es"
| "read_loop a (ReadError e # es) = ([], ReadStopped)"
| "read_loop a (ReadEOF d None # es) = ([], ReadPanic)"
| "read_loop a (ReadEOF d (Some from) # es) =
     (let (calls, r) = read_loop a es in (handle_call a d from # calls, r))"
| "read_loop a (ReadData d from # es) =
     (let (calls, r) = read_loop a es in (handle_call a d from # calls, r))"

definition ReadUntilClosed :: "allocation \<Rightarrow> read_event list \<Rightarrow> peer_call list \<times> read_end" where
  "ReadUntilClosed a es = (if alloc_Conn a = NilConn then ([], ReadPanic) else read_loop a es)"

end
