(* ===== verification/Allocator_Invariant.thy ===== *)
theory Allocator_Invariant
  imports Allocator_Model
begin

text \<open>
  The invariant of the allocation table and its preservation by every operation.

  \<^item> No two allocations have equal 5-tuples.
  \<^item> No two permissions of an allocation are for equal IP addresses.
  \<^item> No two bindings of a permission have the same port or the same channel number.
  \<^item> A read loop that has a connection reads on the relayed address of its allocation.

  The invariant does not say that a channel number is bound once per allocation: the code
  keeps channel numbers apart within a permission only.
\<close>

definition perm_wf :: "permission \<Rightarrow> bool" where
  "perm_wf p \<longleftrightarrow> distinct (map bind_Port (perm_Bindings p)) \<and> distinct (map bind_Channel (perm_Bindings p))"

definition alloc_wf :: "allocation \<Rightarrow> bool" where
  "alloc_wf a \<longleftrightarrow> pairwise_ne ip_Equal (map perm_IP (alloc_Permissions a)) \<and>
                  (\<forall>p \<in> set (alloc_Permissions a). perm_wf p)"

definition table_wf :: "turn_api \<Rightarrow> 'r allocator \<Rightarrow> bool" where
  "table_wf T s \<longleftrightarrow> pairwise_ne (FiveTuple_Equal T) (map alloc_Tuple (al_allocs s)) \<and>
                    (\<forall>a \<in> set (al_allocs s). alloc_wf a)"

lemma table_wf_New_empty: "table_wf T (NewAllocator r)"
  by (simp add: table_wf_def NewAllocator_def)

lemma alloc_wf_fresh [simp]: "alloc_wf (fresh_allocation t u c)"
  by (simp add: alloc_wf_def fresh_allocation_def)

text \<open>An operation that rewrites the allocations one by one keeps the table's invariant.\<close>

lemma table_wf_update:
  assumes "table_wf T s" and "\<And>a. P a \<Longrightarrow> alloc_wf a \<Longrightarrow> alloc_wf (f a)"
    and "\<And>a. P a \<Longrightarrow> alloc_Tuple (f a) = alloc_Tuple a"
  shows "table_wf T (s\<lparr>al_allocs := update_first P f (al_allocs s)\<rparr>)"
  using assms update_first_all [of "al_allocs s" alloc_wf P f]
  by (auto simp: table_wf_def map_update_first)

lemma table_wf_filter:
  "table_wf T s \<Longrightarrow> table_wf T (s\<lparr>al_allocs := filter P (al_allocs s)\<rparr>)"
  by (auto simp: table_wf_def intro: pairwise_ne_filter)

lemma table_wf_raddr [simp]: "table_wf T (s\<lparr>al_raddr := r\<rparr>) = table_wf T s"
  by (simp add: table_wf_def)

lemma table_wf_readers [simp]: "table_wf T (s\<lparr>al_readers := r\<rparr>) = table_wf T s"
  by (simp add: table_wf_def)

section \<open>Remove, Prune, Refresh\<close>

lemma Remove_allocs [simp]:
  "al_allocs (snd (Remove T R s t)) = filter (\<lambda>a. \<not> FiveTuple_Equal T (alloc_Tuple a) t) (al_allocs s)"
  by (simp add: Remove_def Remove_unlink_def Let_def)

lemma Remove_wf [wf_intros]: "table_wf T s \<Longrightarrow> table_wf T (snd (Remove T R s t))"
  using table_wf_filter [of T s "\<lambda>a. \<not> FiveTuple_Equal T (alloc_Tuple a) t"]
  by (simp add: table_wf_def)

lemma prune_permission_simps [simp]:
  "perm_IP (prune_permission t p) = perm_IP p"
  "perm_Timeout (prune_permission t p) = perm_Timeout p"
  by (simp_all add: prune_permission_def)

lemma prune_permission_wf: "perm_wf p \<Longrightarrow> perm_wf (prune_permission t p)"
  by (simp add: perm_wf_def prune_permission_def distinct_map_filter)

lemma prune_allocation_permissions [simp]:
  "alloc_Permissions (prune_allocation t a)
   = map (prune_permission t) (filter (\<lambda>p. After (perm_Timeout p) t) (alloc_Permissions a))"
proof -
  have "length (filter (\<lambda>p. After (perm_Timeout p) t) (map (prune_permission t) (alloc_Permissions a)))
        \<le> length (alloc_Permissions a)"
    using length_filter_le by (metis length_map)
  then show ?thesis
    by (simp add: prune_allocation_def Let_def filter_map o_def)
qed

lemma prune_allocation_simps [simp]:
  "alloc_Tuple (prune_allocation t a) = alloc_Tuple a"
  "alloc_Timeout (prune_allocation t a) = alloc_Timeout a"
  "alloc_Conn (prune_allocation t a) = alloc_Conn a"
  "alloc_RelayedAddr (prune_allocation t a) = alloc_RelayedAddr a"
  by (simp_all add: prune_allocation_def Let_def)

lemma prune_allocation_wf: "alloc_wf a \<Longrightarrow> alloc_wf (prune_allocation t a)"
  by (auto simp: alloc_wf_def o_def intro: prune_permission_wf pairwise_ne_filter)

lemma Prune_allocs [simp]:
  "al_allocs (Prune R s t)
   = map (prune_allocation t) (filter (\<lambda>a. After (alloc_Timeout a) t) (al_allocs s))"
  by (simp add: Prune_def Prune_unlink_def Let_def filter_map o_def)

lemma Prune_wf [wf_intros]: "table_wf T s \<Longrightarrow> table_wf T (Prune R s t)"
  by (auto simp: table_wf_def o_def intro: prune_allocation_wf pairwise_ne_filter)

lemma Refresh_wf [wf_intros]: "table_wf T s \<Longrightarrow> table_wf T (snd (Refresh T s t u))"
  by (auto simp: Refresh_def alloc_wf_def intro!: table_wf_update)

section \<open>New\<close>

lemma New_reserve_wf [wf_intros]:
  "table_wf T s \<Longrightarrow> New_reserve T s t u c = Inr s1 \<Longrightarrow> table_wf T s1"
  by (auto simp: New_reserve_def table_wf_def fresh_allocation_def [of t] alloc_wf_def
           split: protocol.splits if_splits)

context turn_laws
begin

text \<open>
  The commit overwrites an entry with an allocation for an equal 5-tuple, which may be
  written differently: the invariant survives because the equality is an equivalence.
\<close>

lemma pairwise_ne_overwrite:
  assumes "pairwise_ne (FiveTuple_Equal T) (map alloc_Tuple as)" and "alloc_Tuple b = t"
  shows "pairwise_ne (FiveTuple_Equal T)
           (map alloc_Tuple (update_first (\<lambda>a. FiveTuple_Equal T (alloc_Tuple a) t) (\<lambda>_. b) as))"
  using assms(1)
proof (induction as)
  case (Cons a as)
  show ?case
  proof (cases "FiveTuple_Equal T (alloc_Tuple a) t")
    case True
    then show ?thesis using Cons.prems assms(2) by (auto dest: tuple_trans)
  next
    case False
    have "\<not> FiveTuple_Equal T (alloc_Tuple a) (alloc_Tuple x)"
      if "x \<in> set (update_first (\<lambda>a. FiveTuple_Equal T (alloc_Tuple a) t) (\<lambda>_. b) as)" for x
      using that set_update_first_sub [of "\<lambda>a. FiveTuple_Equal T (alloc_Tuple a) t" "\<lambda>_. b" as]
        False Cons.prems assms(2) by auto
    with False Cons show ?thesis by auto
  qed
qed simp

lemma New_commit_wf:
  assumes wf: "table_wf T s"
  shows "table_wf T (New_commit T s t u c raddr conn)"
proof -
  let ?P = "\<lambda>a. FiveTuple_Equal T (alloc_Tuple a) t"
  define b where "b = (if \<exists>a \<in> set (al_allocs s). ?P a
    then (fresh_allocation t u c)\<lparr>alloc_Conn := conn, alloc_RelayedAddr := raddr, alloc_Buf := replicate 2048 0\<rparr>
    else fresh_allocation t u c)"
  have eq: "New_commit T s t u c raddr conn
      = s\<lparr>al_allocs := update_first ?P (\<lambda>_. b) (al_allocs s), al_readers := al_readers s @ [b]\<rparr>"
    by (simp only: New_commit_def Let_def b_def)
  have b: "alloc_wf b" "alloc_Tuple b = t"
    by (simp_all add: b_def fresh_allocation_def alloc_wf_def)
  have "\<forall>a \<in> set (update_first ?P (\<lambda>_. b) (al_allocs s)). alloc_wf a"
    using b(1) wf by (intro update_first_all) (simp_all add: table_wf_def)
  then show ?thesis
    using wf pairwise_ne_overwrite [OF _ b(2)] by (simp add: eq table_wf_def)
qed

lemma New_wf:
  assumes "table_wf T s"
  shows "table_wf T (snd (New T R s t u c))"
  using assms New_reserve_wf [OF assms]
  by (auto simp: New_def intro!: New_commit_wf split: sum.splits prod.splits)

end

section \<open>CreatePermission\<close>

definition put_permission :: "addr \<Rightarrow> gotime \<Rightarrow> allocation \<Rightarrow> allocation" where
  "put_permission peer timeout a =
     (let hit = (\<lambda>p. ip_Equal (perm_IP p) (addr_IP peer))
      in if \<exists>p \<in> set (alloc_Permissions a). hit p
         then a\<lparr>alloc_Permissions := update_first hit (\<lambda>p. p\<lparr>perm_Timeout := timeout\<rparr>) (alloc_Permissions a)\<rparr>
         else a\<lparr>alloc_Permissions := alloc_Permissions a @
                  [\<lparr>perm_IP = addr_IP peer, perm_Timeout = timeout, perm_Bindings = []\<rparr>]\<rparr>)"

lemma CreatePermission_eq:
  "CreatePermission T s t peer u =
     ((if \<exists>a \<in> set (al_allocs s). FiveTuple_Equal T (alloc_Tuple a) t then None
       else Some ErrAllocationMismatch),
      s\<lparr>al_allocs := update_first (\<lambda>a. FiveTuple_Equal T (alloc_Tuple a) t) (put_permission peer u)
                       (al_allocs s)\<rparr>)"
  by (simp add: CreatePermission_def put_permission_def [abs_def] Let_def)

lemma put_permission_simps [simp]:
  "alloc_Tuple (put_permission peer u a) = alloc_Tuple a"
  "alloc_Conn (put_permission peer u a) = alloc_Conn a"
  "alloc_Timeout (put_permission peer u a) = alloc_Timeout a"
  "alloc_RelayedAddr (put_permission peer u a) = alloc_RelayedAddr a"
  by (simp_all add: put_permission_def Let_def)

lemma put_permission_hit:
  "\<exists>p \<in> set (alloc_Permissions a). ip_Equal (perm_IP p) (addr_IP peer) \<Longrightarrow>
   alloc_Permissions (put_permission peer u a)
   = update_first (\<lambda>p. ip_Equal (perm_IP p) (addr_IP peer)) (\<lambda>p. p\<lparr>perm_Timeout := u\<rparr>) (alloc_Permissions a)"
  by (simp add: put_permission_def Let_def)

lemma put_permission_miss:
  "\<not> (\<exists>p \<in> set (alloc_Permissions a). ip_Equal (perm_IP p) (addr_IP peer)) \<Longrightarrow>
   alloc_Permissions (put_permission peer u a)
   = alloc_Permissions a @ [\<lparr>perm_IP = addr_IP peer, perm_Timeout = u, perm_Bindings = []\<rparr>]"
  by (simp add: put_permission_def Let_def)

lemma put_permission_wf:
  assumes "alloc_wf a"
  shows "alloc_wf (put_permission peer u a)"
proof (cases "\<exists>p \<in> set (alloc_Permissions a). ip_Equal (perm_IP p) (addr_IP peer)")
  case True
  have "\<forall>p \<in> set (update_first (\<lambda>p. ip_Equal (perm_IP p) (addr_IP peer)) (\<lambda>p. p\<lparr>perm_Timeout := u\<rparr>)
          (alloc_Permissions a)). perm_wf p"
    using assms by (intro update_first_all) (simp_all add: alloc_wf_def perm_wf_def)
  then show ?thesis
    using assms by (simp add: alloc_wf_def put_permission_hit [OF True] map_update_first)
next
  case False
  then show ?thesis
    using assms by (simp add: alloc_wf_def put_permission_miss [OF False] perm_wf_def)
qed

lemma CreatePermission_wf [wf_intros]:
  "table_wf T s \<Longrightarrow> table_wf T (snd (CreatePermission T s t peer u))"
  by (auto simp: CreatePermission_eq intro!: table_wf_update put_permission_wf)

section \<open>ChannelBind\<close>

lemma extend_timeout_simps [simp]:
  "perm_IP (extend_timeout u p) = perm_IP p"
  "perm_Bindings (extend_timeout u p) = perm_Bindings p"
  by (simp_all add: extend_timeout_def)

lemma perm_wf_cong: "perm_Bindings p = perm_Bindings q \<Longrightarrow> perm_wf p = perm_wf q"
  by (simp add: perm_wf_def)

lemma conflicts_iff:
  "ip_Equal (perm_IP p) (addr_IP peer) \<Longrightarrow>
   conflicts p n peer \<longleftrightarrow> (\<exists>b. find (\<lambda>b. bind_Port b = addr_Port peer) (perm_Bindings p) = Some b \<and>
                            bind_Channel b \<noteq> n)"
  by (auto simp: conflicts_def split: option.splits)

lemma bind_permissions_IPs:
  "bind_permissions n peer u ps upd fnd = Some (ps', upd', fnd') \<Longrightarrow> map perm_IP ps' = map perm_IP ps"
  by (induction n peer u ps upd fnd arbitrary: ps' rule: bind_permissions.induct)
     (auto split: if_splits option.splits)

lemma bind_permissions_found:
  "bind_permissions n peer u ps upd fnd = Some (ps', upd', fnd') \<Longrightarrow>
   fnd' \<longleftrightarrow> fnd \<or> (\<exists>p \<in> set ps. ip_Equal (perm_IP p) (addr_IP peer))"
  by (induction n peer u ps upd fnd arbitrary: ps' rule: bind_permissions.induct)
     (auto split: if_splits option.splits)

lemma unbound_port:
  assumes hit: "ip_Equal (perm_IP p) (addr_IP peer)" and c: "\<not> conflicts p n peer"
    and n: "\<forall>b \<in> set (perm_Bindings p). bind_Channel b \<noteq> n"
  shows "\<forall>b \<in> set (perm_Bindings p). bind_Port b \<noteq> addr_Port peer"
proof (cases "find (\<lambda>b. bind_Port b = addr_Port peer) (perm_Bindings p)")
  case None
  then show ?thesis by (simp add: find_None_iff_all)
next
  case (Some b)
  then have "bind_Channel b = n" using c conflicts_iff [OF hit] by simp
  then show ?thesis using find_SomeD [OF Some] n by blast
qed

lemma perm_wf_bind_new:
  assumes "perm_wf p" and hit: "ip_Equal (perm_IP p) (addr_IP peer)" and c: "\<not> conflicts p n peer"
    and n: "\<forall>b \<in> set (perm_Bindings p). bind_Channel b \<noteq> n"
  shows "perm_wf (q\<lparr>perm_Bindings := perm_Bindings p @
           [\<lparr>bind_Port = addr_Port peer, bind_Channel = n, bind_Timeout = u\<rparr>]\<rparr>)"
  using assms(1) n unbound_port [OF hit c n] by (auto simp: perm_wf_def)

lemma bind_permissions_wf:
  "bind_permissions n peer u ps upd fnd = Some (ps', upd', fnd') \<Longrightarrow>
   \<forall>p \<in> set ps. perm_wf p \<Longrightarrow> \<forall>p \<in> set ps'. perm_wf p"
proof (induction n peer u ps upd fnd arbitrary: ps' rule: bind_permissions.induct)
  case (2 n peer u p ps upd fnd)
  have upd: "perm_wf (extend_timeout u (p\<lparr>perm_Bindings := update_first (\<lambda>b. bind_Channel b = n)
          (\<lambda>b. b\<lparr>bind_Timeout := u\<rparr>) (perm_Bindings p)\<rparr>))"
    using "2.prems"(2) by (simp add: perm_wf_def map_update_first)
  show ?case
    using 2 upd perm_wf_bind_new [of p peer n, where q = "extend_timeout u p"]
    by (auto split: if_splits option.splits)
qed simp

lemma ChannelBind_loop_tuples:
  "map alloc_Tuple (snd (ChannelBind_loop T t n peer u as upd fnd af)) = map alloc_Tuple as"
  by (induction T t n peer u as upd fnd af rule: ChannelBind_loop.induct)
     (auto simp: Let_def split: option.splits prod.splits)

lemma ChannelBind_loop_wf:
  "\<forall>a \<in> set as. alloc_wf a \<Longrightarrow>
   \<forall>a \<in> set (snd (ChannelBind_loop T t n peer u as upd fnd af)). alloc_wf a"
proof (induction as arbitrary: upd fnd af)
  case (Cons a as)
  have IH: "\<forall>a \<in> set (snd (ChannelBind_loop T t n peer u as upd fnd af)). alloc_wf a" for upd fnd af
    using Cons by simp
  show ?case
  proof (cases "FiveTuple_Equal T (alloc_Tuple a) t")
    case False
    then show ?thesis using Cons.prems IH [of upd fnd af] by (auto simp: Let_def split: prod.splits)
  next
    case True
    show ?thesis
    proof (cases "bind_permissions n peer u (alloc_Permissions a) upd fnd")
      case None
      then show ?thesis using Cons.prems True by auto
    next
      case (Some r)
      obtain ps upd' fnd' where r: "r = (ps, upd', fnd')" by (cases r)
      note b = Some [unfolded r]
      have "alloc_wf a" using Cons.prems by simp
      then have "pairwise_ne ip_Equal (map perm_IP ps)" "\<forall>p \<in> set ps. perm_wf p"
        using bind_permissions_IPs [OF b] bind_permissions_wf [OF b] by (auto simp: alloc_wf_def)
      moreover have "\<forall>p \<in> set ps. \<not> ip_Equal (perm_IP p) (addr_IP peer)" if "\<not> fnd'"
        using that bind_permissions_found [OF b] arg_cong [OF bind_permissions_IPs [OF b], of set]
        by (metis image_eqI image_iff list.set_map)
      ultimately show ?thesis
        using IH [of upd' fnd' True] True b
        by (auto simp: Let_def alloc_wf_def perm_wf_def split: prod.splits)
    qed
  qed
qed simp

lemma ChannelBind_wf [wf_intros]:
  assumes "table_wf T s"
  shows "table_wf T (snd (ChannelBind T s t n peer u))"
  using assms ChannelBind_loop_tuples [of T t n peer u "al_allocs s" False False False]
    ChannelBind_loop_wf [of "al_allocs s" T t n peer u False False False]
  by (auto simp: ChannelBind_def table_wf_def Let_def split: prod.splits)

end
