(* ===== verification/Allocator_View.thy ===== *)
theory Allocator_View
  imports Allocator_Invariant
begin

text \<open>
  The allocation table as a partial map from 5-tuples to allocations.

  \<open>view T s t\<close> is the allocation the table holds for a 5-tuple equal to \<open>t\<close>. On tables
  that satisfy the invariant, every operation of \<open>Allocator\<close> acts on this map in the way the
  abstract specification here says (the definitions named \<open>spec_\<close>), and the three lookups
  (\<open>Send\<close>, \<open>SendBound\<close>, \<open>Bound\<close>) read nothing but the map. So the loops over
  slices, with and without \<open>break\<close>, implement a finite map keyed by 5-tuples.
\<close>

definition view :: "turn_api \<Rightarrow> 'r allocator \<Rightarrow> five_tuple \<Rightarrow> allocation option" where
  "view T s t = find (\<lambda>a. FiveTuple_Equal T (alloc_Tuple a) t) (al_allocs s)"

type_synonym table = "five_tuple \<Rightarrow> allocation option"

section \<open>Abstract operations\<close>

definition spec_remove :: "turn_api \<Rightarrow> five_tuple \<Rightarrow> table \<Rightarrow> table" where
  "spec_remove T t m = (\<lambda>t'. if FiveTuple_Equal T t t' then None else m t')"

definition spec_update :: "turn_api \<Rightarrow> five_tuple \<Rightarrow> (allocation \<Rightarrow> allocation) \<Rightarrow> table \<Rightarrow> table" where
  "spec_update T t f m = (\<lambda>t'. if FiveTuple_Equal T t t' then map_option f (m t') else m t')"

definition spec_insert :: "turn_api \<Rightarrow> five_tuple \<Rightarrow> allocation \<Rightarrow> table \<Rightarrow> table" where
  "spec_insert T t a m = (\<lambda>t'. if FiveTuple_Equal T t t' then Some a else m t')"

definition spec_prune :: "gotime \<Rightarrow> table \<Rightarrow> table" where
  "spec_prune u m = (\<lambda>t'. case m t' of
     Some a \<Rightarrow> if After (alloc_Timeout a) u then Some (prune_allocation u a) else None
   | None \<Rightarrow> None)"

definition bind_alloc :: "channel_number \<Rightarrow> addr \<Rightarrow> gotime \<Rightarrow> allocation \<Rightarrow> allocation option" where
  "bind_alloc n peer u a =
     (case bind_permissions n peer u (alloc_Permissions a) False False of
        None \<Rightarrow> None
      | Some (ps, _, fnd) \<Rightarrow>
          Some (a\<lparr>alloc_Permissions := (if \<not> fnd
             then ps @ [\<lparr>perm_IP = addr_IP peer, perm_Timeout = u,
                         perm_Bindings = [\<lparr>bind_Port = addr_Port peer, bind_Channel = n, bind_Timeout = u\<rparr>]\<rparr>]
             else ps)\<rparr>))"

definition committed :: "five_tuple \<Rightarrow> gotime \<Rightarrow> peer_handler \<Rightarrow> addr \<Rightarrow> packet_conn \<Rightarrow> allocation" where
  "committed t u c raddr conn = (fresh_allocation t u c)
     \<lparr>alloc_Conn := conn, alloc_RelayedAddr := raddr, alloc_Buf := replicate 2048 0\<rparr>"

lemma bind_alloc_simps:
  "bind_alloc n peer u a = Some a' \<Longrightarrow> alloc_Tuple a' = alloc_Tuple a \<and> alloc_Conn a' = alloc_Conn a \<and>
     alloc_Timeout a' = alloc_Timeout a \<and> alloc_RelayedAddr a' = alloc_RelayedAddr a"
  by (auto simp: bind_alloc_def split: option.splits prod.splits)

section \<open>Loops over tables with at most one match\<close>

definition at_most_one :: "('a \<Rightarrow> bool) \<Rightarrow> 'a list \<Rightarrow> bool" where
  "at_most_one Q xs \<longleftrightarrow> length (filter Q xs) \<le> 1"

lemma at_most_one_Cons:
  "at_most_one Q (x # xs) \<longleftrightarrow> (if Q x then \<forall>y \<in> set xs. \<not> Q y else at_most_one Q xs)"
  by (auto simp: at_most_one_def filter_empty_conv)

lemma fold_unmatched: "\<forall>y \<in> set xs. \<not> Q y \<Longrightarrow> fold (\<lambda>x st. if \<not> Q x then st else g x st) xs st = st"
  by (induction xs) auto

lemma fold_one_match:
  "at_most_one Q xs \<Longrightarrow> fold (\<lambda>x st. if \<not> Q x then st else g x st) xs st
   = (case find Q xs of None \<Rightarrow> st | Some x \<Rightarrow> g x st)"
  by (induction xs arbitrary: st) (auto simp: at_most_one_Cons fold_unmatched split: if_splits)

lemma first_some_one_match:
  "at_most_one Q xs \<Longrightarrow> first_some (\<lambda>x. if \<not> Q x then None else g x) xs
   = (case find Q xs of None \<Rightarrow> None | Some x \<Rightarrow> g x)"
  by (induction xs) (auto simp: at_most_one_Cons split: if_splits option.splits)

lemma find_filter_one_match:
  "at_most_one Q xs \<Longrightarrow> find Q (filter P xs)
   = (case find Q xs of None \<Rightarrow> None | Some x \<Rightarrow> if P x then Some x else None)"
  by (induction xs) (auto simp: at_most_one_Cons find_None_iff_all split: if_splits)

lemma find_map_same: "(\<And>x. Q (f x) = Q x) \<Longrightarrow> find Q (map f xs) = map_option f (find Q xs)"
  by (induction xs) auto

lemma fold_const_match:
  "fold (\<lambda>x st. if \<not> Q x then st else k) xs st = (if \<exists>x \<in> set xs. Q x then k else st)"
  by (induction xs arbitrary: st) auto

context turn_laws
begin

abbreviation is_for :: "five_tuple \<Rightarrow> allocation \<Rightarrow> bool" where
  "is_for t \<equiv> \<lambda>a. FiveTuple_Equal T (alloc_Tuple a) t"

lemma is_for_cong: "FiveTuple_Equal T t t' \<Longrightarrow> is_for t a \<longleftrightarrow> is_for t' a"
  by (rule tuple_cong)

lemma at_most_one_is_for: "table_wf T s \<Longrightarrow> at_most_one (is_for t) (al_allocs s)"
  using pairwise_ne_filter_find [OF tuple_equivp, of alloc_Tuple "al_allocs s" t]
  by (auto simp: at_most_one_def table_wf_def split: option.splits)

lemma view_cong: "FiveTuple_Equal T t t' \<Longrightarrow> view T s t = view T s t'"
  by (simp add: view_def is_for_cong)

lemma view_wf: "table_wf T s \<Longrightarrow> view T s t = Some a \<Longrightarrow> alloc_wf a"
  by (auto simp: view_def table_wf_def dest: find_SomeD)

lemma view_tuple: "view T s t = Some a \<Longrightarrow> FiveTuple_Equal T (alloc_Tuple a) t"
  by (auto simp: view_def dest: find_SomeD)

lemma view_None: "view T s t = None \<longleftrightarrow> \<not> (\<exists>a \<in> set (al_allocs s). is_for t a)"
  by (auto simp: view_def find_None_iff_all)

section \<open>Refinement\<close>

lemma view_Remove: "view T (snd (Remove T R s t)) = spec_remove T t (view T s)"
proof
  fix t'
  show "view T (snd (Remove T R s t)) t' = spec_remove T t (view T s) t'"
  proof (cases "FiveTuple_Equal T t t'")
    case True
    then show ?thesis
      by (auto simp: view_def spec_remove_def find_None_iff_all is_for_cong [OF True])
  next
    case False
    then have "find (is_for t') (filter (\<lambda>a. \<not> is_for t a) (al_allocs s)) = find (is_for t') (al_allocs s)"
      by (intro find_filter_other) (metis tuple_sym tuple_trans)
    then show ?thesis using False by (simp add: view_def spec_remove_def)
  qed
qed

lemma view_update_first:
  assumes "\<And>a. alloc_Tuple (f a) = alloc_Tuple a"
  shows "view T (s\<lparr>al_allocs := update_first (is_for t) f (al_allocs s)\<rparr>) = spec_update T t f (view T s)"
proof
  fix t'
  show "view T (s\<lparr>al_allocs := update_first (is_for t) f (al_allocs s)\<rparr>) t' = spec_update T t f (view T s) t'"
  proof (cases "FiveTuple_Equal T t t'")
    case True
    then have "is_for t = is_for t'" by (auto simp: is_for_cong)
    with True show ?thesis
      by (simp add: view_def spec_update_def find_update_first assms)
  next
    case False
    then have "find (is_for t') (update_first (is_for t) f (al_allocs s)) = find (is_for t') (al_allocs s)"
      using assms by (intro find_update_first_other) (metis tuple_sym tuple_trans)
    with False show ?thesis by (simp add: view_def spec_update_def)
  qed
qed

lemma view_Refresh:
  "view T (snd (Refresh T s t u)) = spec_update T t (\<lambda>a. a\<lparr>alloc_Timeout := u\<rparr>) (view T s)"
  by (simp add: Refresh_def view_update_first)

lemma view_CreatePermission:
  "view T (snd (CreatePermission T s t peer u)) = spec_update T t (put_permission peer u) (view T s)"
  by (simp add: CreatePermission_eq view_update_first)

lemma CreatePermission_err:
  "fst (CreatePermission T s t peer u) = (if view T s t = None then Some ErrAllocationMismatch else None)"
  by (simp add: CreatePermission_eq view_None)

lemma view_Prune:
  assumes "table_wf T s"
  shows "view T (Prune R s u) = spec_prune u (view T s)"
proof
  fix t'
  have "find (is_for t') (map (prune_allocation u) (filter (\<lambda>a. After (alloc_Timeout a) u) (al_allocs s)))
     = map_option (prune_allocation u)
         (find (is_for t') (filter (\<lambda>a. After (alloc_Timeout a) u) (al_allocs s)))"
    by (rule find_map_same) simp
  then show "view T (Prune R s u) t' = spec_prune u (view T s) t'"
    using find_filter_one_match [OF at_most_one_is_for [OF assms]]
    by (simp add: view_def spec_prune_def split: option.splits)
qed

lemma view_append:
  assumes "view T s t = None" and "alloc_Tuple a = t"
  shows "view T (s\<lparr>al_allocs := al_allocs s @ [a]\<rparr>) = spec_insert T t a (view T s)"
proof
  fix t'
  show "view T (s\<lparr>al_allocs := al_allocs s @ [a]\<rparr>) t' = spec_insert T t a (view T s) t'"
    using assms view_cong [of t t' s]
    by (auto simp: view_def find_append spec_insert_def split: option.splits)
qed

lemma view_overwrite:
  assumes "view T s t \<noteq> None" and "alloc_Tuple b = t"
  shows "view T (s\<lparr>al_allocs := update_first (is_for t) (\<lambda>_. b) (al_allocs s)\<rparr>) = spec_insert T t b (view T s)"
proof
  fix t'
  show "view T (s\<lparr>al_allocs := update_first (is_for t) (\<lambda>_. b) (al_allocs s)\<rparr>) t' = spec_insert T t b (view T s) t'"
  proof (cases "FiveTuple_Equal T t t'")
    case True
    then have "is_for t = is_for t'" by (auto simp: is_for_cong)
    with True assms show ?thesis
      by (auto simp: view_def spec_insert_def find_update_first dest: find_SomeD)
  next
    case False
    then have "find (is_for t') (update_first (is_for t) (\<lambda>_. b) (al_allocs s)) = find (is_for t') (al_allocs s)"
      using assms by (intro find_update_first_other) (metis tuple_sym tuple_trans)
    with False show ?thesis by (simp add: view_def spec_insert_def)
  qed
qed

section \<open>New\<close>

lemma update_first_snoc:
  "\<forall>x \<in> set xs. \<not> P x \<Longrightarrow> P y \<Longrightarrow> update_first P f (xs @ [y]) = xs @ [f y]"
  by (induction xs) auto

lemma New_bad_proto: "tuple_Proto t = ProtoOther p \<Longrightarrow> New T R s t u c = (Inl (ErrProtoNotImplemented (ProtoOther p)), s)"
  by (simp add: New_def New_reserve_def)

lemma New_mismatch:
  "tuple_Proto t = ProtoUDP \<Longrightarrow> view T s t \<noteq> None \<Longrightarrow> New T R s t u c = (Inl ErrAllocationMismatch, s)"
  by (auto simp: New_def New_reserve_def view_None)

lemma New_failed:
  "tuple_Proto t = ProtoUDP \<Longrightarrow> view T s t = None \<Longrightarrow> ra_New R (al_raddr s) ProtoUDP = (Inl e, r') \<Longrightarrow>
   New T R s t u c = (Inl (Wrap ''failed to allocate'' e),
     s\<lparr>al_allocs := al_allocs s @ [fresh_allocation t u c], al_raddr := r'\<rparr>)"
  by (auto simp: New_def New_reserve_def view_None)

lemma New_commit_reserved:
  assumes "al_allocs s = as @ [fresh_allocation t u c]" and "\<forall>a \<in> set as. \<not> is_for t a"
  shows "New_commit T s t u c raddr conn
     = s\<lparr>al_allocs := as @ [committed t u c raddr conn],
         al_readers := al_readers s @ [committed t u c raddr conn]\<rparr>"
  using assms
  by (simp add: New_commit_def Let_def committed_def update_first_snoc fresh_allocation_def)

lemma New_ok:
  assumes "tuple_Proto t = ProtoUDP" and "view T s t = None"
    and "ra_New R (al_raddr s) ProtoUDP = (Inr (raddr, conn), r')"
  shows "New T R s t u c = (Inr raddr,
     s\<lparr>al_allocs := al_allocs s @ [committed t u c raddr conn], al_raddr := r',
       al_readers := al_readers s @ [committed t u c raddr conn]\<rparr>)"
proof -
  let ?s1 = "s\<lparr>al_allocs := al_allocs s @ [fresh_allocation t u c], al_raddr := r'\<rparr>"
  have "New T R s t u c = (Inr raddr, New_commit T ?s1 t u c raddr conn)"
    using assms by (auto simp: New_def New_reserve_def view_None)
  then show ?thesis
    using assms New_commit_reserved [of ?s1 "al_allocs s" t u c raddr conn] by (simp add: view_None)
qed

lemma New_cases:
  obtains (proto) p where "tuple_Proto t = ProtoOther p"
      "New T R s t u c = (Inl (ErrProtoNotImplemented (ProtoOther p)), s)"
  | (mismatch) "tuple_Proto t = ProtoUDP" "view T s t \<noteq> None" "New T R s t u c = (Inl ErrAllocationMismatch, s)"
  | (failed) e r' where "tuple_Proto t = ProtoUDP" "view T s t = None"
      "ra_New R (al_raddr s) ProtoUDP = (Inl e, r')"
      "New T R s t u c = (Inl (Wrap ''failed to allocate'' e),
         s\<lparr>al_allocs := al_allocs s @ [fresh_allocation t u c], al_raddr := r'\<rparr>)"
  | (ok) raddr conn r' where "tuple_Proto t = ProtoUDP" "view T s t = None"
      "ra_New R (al_raddr s) ProtoUDP = (Inr (raddr, conn), r')"
      "New T R s t u c = (Inr raddr,
         s\<lparr>al_allocs := al_allocs s @ [committed t u c raddr conn], al_raddr := r',
           al_readers := al_readers s @ [committed t u c raddr conn]\<rparr>)"
proof (cases "tuple_Proto t")
  case ProtoUDP
  show thesis
  proof (cases "view T s t")
    case None
    obtain x r' where ra: "ra_New R (al_raddr s) ProtoUDP = (x, r')"
      by (cases "ra_New R (al_raddr s) ProtoUDP") auto
    show thesis
    proof (cases x)
      case (Inl e)
      with failed ProtoUDP None ra show thesis using New_failed [OF ProtoUDP None, of R e r' u c] by simp
    next
      case (Inr y)
      obtain raddr conn where "y = (raddr, conn)" by (cases y) auto
      with Inr ok ProtoUDP None ra show thesis using New_ok [OF ProtoUDP None, of R raddr conn r' u c] by simp
    qed
  next
    case (Some a)
    with mismatch ProtoUDP show thesis using New_mismatch [OF ProtoUDP, of s R u c] by simp
  qed
next
  case (ProtoOther p)
  with proto show thesis using New_bad_proto [OF ProtoOther, of R s u c] by simp
qed

lemma view_raddr [simp]: "view T (s\<lparr>al_raddr := r\<rparr>) = view T s"
  by (simp add: view_def fun_eq_iff)

lemma view_readers [simp]: "view T (s\<lparr>al_readers := r\<rparr>) = view T s"
  by (simp add: view_def fun_eq_iff)

section \<open>ChannelBind\<close>

lemma ChannelBind_loop_none:
  "\<forall>a \<in> set as. \<not> is_for t a \<Longrightarrow>
   ChannelBind_loop T t n peer u as upd fnd af = (if \<not> af then Some ErrAllocationMismatch else None, as)"
  by (induction as) auto

lemma ChannelBind_loop_one:
  "at_most_one (is_for t) as \<Longrightarrow>
   ChannelBind_loop T t n peer u as False False False =
     (case find (is_for t) as of
        None \<Rightarrow> (Some ErrAllocationMismatch, as)
      | Some a \<Rightarrow> (case bind_alloc n peer u a of
                   None \<Rightarrow> (Some ErrAllocationMismatch, as)
                 | Some a' \<Rightarrow> (None, update_first (is_for t) (\<lambda>_. a') as)))"
proof (induction as)
  case (Cons a as)
  show ?case
  proof (cases "is_for t a")
    case True
    then have "\<forall>y \<in> set as. \<not> is_for t y" using Cons.prems by (simp add: at_most_one_Cons)
    note none = ChannelBind_loop_none [OF this]
    show ?thesis
      using True none by (auto simp: bind_alloc_def split: option.splits prod.splits)
  next
    case False
    then show ?thesis
      using Cons by (auto simp: at_most_one_Cons split: option.splits prod.splits)
  qed
qed simp

lemma ChannelBind_eq:
  assumes "table_wf T s" and "ChannelNumber_Valid T n"
  shows "ChannelBind T s t n peer u =
     (case view T s t of
        None \<Rightarrow> (Some ErrAllocationMismatch, s)
      | Some a \<Rightarrow> (case bind_alloc n peer u a of
                   None \<Rightarrow> (Some ErrAllocationMismatch, s)
                 | Some a' \<Rightarrow> (None, s\<lparr>al_allocs := update_first (is_for t) (\<lambda>_. a') (al_allocs s)\<rparr>)))"
  using assms ChannelBind_loop_one [OF at_most_one_is_for [OF assms(1)], of t n peer u]
  by (auto simp: ChannelBind_def view_def split: option.splits)

lemma view_ChannelBind:
  assumes wf: "table_wf T s" and v: "ChannelNumber_Valid T n" and s: "view T s t = Some a"
    and b: "bind_alloc n peer u a = Some a'"
  shows "view T (snd (ChannelBind T s t n peer u)) t' = (if FiveTuple_Equal T t t' then Some a' else view T s t')"
proof -
  have eq: "update_first (is_for t) (\<lambda>_. a') as = update_first (is_for t) (\<lambda>x. the (bind_alloc n peer u a)) as" for as
    using b by simp
  have "find (is_for t') (update_first (is_for t) (\<lambda>_. a') (al_allocs s))
        = (if FiveTuple_Equal T t t' then Some a' else find (is_for t') (al_allocs s))"
  proof (cases "FiveTuple_Equal T t t'")
    case True
    then have "is_for t = is_for t'" by (auto simp: is_for_cong)
    moreover have "is_for t' a'"
      using view_tuple [OF s] bind_alloc_simps [OF b] is_for_cong [OF True] by simp
    ultimately show ?thesis
      using True s view_cong [OF True, of s] by (simp add: find_update_first view_def)
  next
    case False
    then show ?thesis
      using view_tuple [OF s] bind_alloc_simps [OF b]
      by (auto intro!: find_update_first_other) (metis tuple_sym tuple_trans)+
  qed
  then show ?thesis using ChannelBind_eq [OF wf v] s b by (simp add: view_def)
qed

section \<open>Lookups\<close>

lemma Send_search_eq:
  assumes "table_wf T s"
  shows "Send_search T (al_allocs s) t peer =
     (case view T s t of
        Some a \<Rightarrow> if \<exists>p \<in> set (alloc_Permissions a). ip_Equal (addr_IP peer) (perm_IP p)
                   then alloc_Conn a else NilConn
      | None \<Rightarrow> NilConn)"
  unfolding Send_search_def view_def fold_one_match [OF at_most_one_is_for [OF assms]]
  by (simp add: fold_const_match split: option.splits)

lemma SendBound_search_eq:
  assumes "table_wf T s"
  shows "SendBound_search T (al_allocs s) t n =
     (case view T s t of
        Some a \<Rightarrow> SendBound_search T [a] (alloc_Tuple a) n
      | None \<Rightarrow> (NilConn, zero_addr))"
  unfolding SendBound_search_def view_def fold_one_match [OF at_most_one_is_for [OF assms]]
  by (simp split: option.splits)

lemma Bound_eq:
  assumes "table_wf T s"
  shows "Bound T s t peer =
     (case view T s t of
        Some a \<Rightarrow> (case first_some (\<lambda>p. if \<not> ip_Equal (perm_IP p) (addr_IP peer) then None
                       else map_option bind_Channel
                              (find (\<lambda>b. bind_Port b = addr_Port peer) (perm_Bindings p)))
                     (alloc_Permissions a) of
                   Some c \<Rightarrow> Inr c | None \<Rightarrow> Inl ErrAllocationMismatch)
      | None \<Rightarrow> Inl ErrAllocationMismatch)"
  unfolding Bound_def view_def first_some_find first_some_one_match [OF at_most_one_is_for [OF assms]]
  by (simp split: option.splits)

end

end
