(* ===== verification/Allocator_Theorems.thy ===== *)
theory Allocator_Theorems
  imports Allocator_View
begin

text \<open>
  The properties of the allocation table one operation at a time: refinement of the abstract
  map, the outcomes of \<open>New\<close>, where \<open>Send\<close> and \<open>SendBound\<close> deliver, how long a
  permission lives, what a successful \<open>ChannelBind\<close> has bound, and which relayed sockets
  \<open>Remove\<close> and \<open>Prune\<close> give back.
\<close>

section \<open>Lookups in one allocation\<close>

definition chan_addrs :: "allocation \<Rightarrow> channel_number \<Rightarrow> addr list" where
  "chan_addrs a n = concat (map (\<lambda>p. map (\<lambda>b. \<lparr>addr_IP = perm_IP p, addr_Port = bind_Port b\<rparr>)
      (filter (\<lambda>b. bind_Channel b = n) (perm_Bindings p))) (alloc_Permissions a))"

text \<open>A loop that remembers the last hit, when each element contributes a list of hits.\<close>

lemma fold_last_concat:
  assumes "\<And>x st. f x st = (if h x = [] then st else (k, last (h x)))"
  shows "fold f xs st = (if concat (map h xs) = [] then st else (k, last (concat (map h xs))))"
  by (induction xs arbitrary: st) (auto simp: assms)

lemma fold_last_filter:
  "fold (\<lambda>b st. if bind_Channel b \<noteq> n then st else (k, g b)) bs st
   = (let hits = map g (filter (\<lambda>b. bind_Channel b = n) bs) in if hits = [] then st else (k, last hits))"
  by (induction bs arbitrary: st) (auto simp: Let_def filter_empty_conv)

lemma SendBound_search_perms:
  "fold (\<lambda>p st. if length (perm_Bindings p) = 0 then st
          else fold (\<lambda>b st. if bind_Channel b \<noteq> n then st
                 else (alloc_Conn a, \<lparr>addr_IP = perm_IP p, addr_Port = bind_Port b\<rparr>)) (perm_Bindings p) st)
     (alloc_Permissions a) st
   = (if chan_addrs a n = [] then st else (alloc_Conn a, last (chan_addrs a n)))"
  unfolding chan_addrs_def
  by (rule fold_last_concat) (simp only: fold_last_filter Let_def, simp)

context turn_laws
begin

lemma SendBound_search_one:
  "SendBound_search T [a] (alloc_Tuple a) n
   = (if chan_addrs a n = [] then (NilConn, zero_addr) else (alloc_Conn a, last (chan_addrs a n)))"
  using SendBound_search_perms [of n a "(NilConn, zero_addr)"]
  by (simp add: SendBound_search_def)

lemma SendBound_eq:
  assumes "table_wf T s"
  shows "SendBound T W s t n d =
     (case view T s t of
        Some a \<Rightarrow>
          if alloc_Conn a = NilConn \<or> chan_addrs a n = [] then ((0, Some ErrPermissionNotFound), [])
          else let pkt = \<lparr>pkt_Conn = alloc_Conn a, pkt_Data = d, pkt_To = last (chan_addrs a n)\<rparr>
               in (W pkt, [pkt])
      | None \<Rightarrow> ((0, Some ErrPermissionNotFound), []))"
  by (auto simp: SendBound_def SendBound_search_eq [OF assms] SendBound_search_one Let_def
           split: option.splits)

lemma Send_eq:
  assumes "table_wf T s"
  shows "Send T W s t peer d =
     (case view T s t of
        Some a \<Rightarrow>
          if alloc_Conn a = NilConn \<or> \<not> (\<exists>p \<in> set (alloc_Permissions a). ip_Equal (addr_IP peer) (perm_IP p))
          then ((0, Some ErrPermissionNotFound), [])
          else let pkt = \<lparr>pkt_Conn = alloc_Conn a, pkt_Data = d, pkt_To = peer\<rparr> in (W pkt, [pkt])
      | None \<Rightarrow> ((0, Some ErrPermissionNotFound), []))"
  by (auto simp: Send_def Send_search_eq [OF assms] Let_def split: option.splits)

end

section \<open>Binding in one allocation\<close>

abbreviation for_peer :: "addr \<Rightarrow> permission \<Rightarrow> bool" where
  "for_peer peer \<equiv> \<lambda>p. ip_Equal (perm_IP p) (addr_IP peer)"

definition bind_permission :: "channel_number \<Rightarrow> addr \<Rightarrow> gotime \<Rightarrow> permission \<Rightarrow> permission" where
  "bind_permission n peer u p =
     (if \<exists>b \<in> set (perm_Bindings p). bind_Channel b = n
      then extend_timeout u (p\<lparr>perm_Bindings := update_first (\<lambda>b. bind_Channel b = n)
             (\<lambda>b. b\<lparr>bind_Timeout := u\<rparr>) (perm_Bindings p)\<rparr>)
      else (extend_timeout u p)\<lparr>perm_Bindings := perm_Bindings p @
             [\<lparr>bind_Port = addr_Port peer, bind_Channel = n, bind_Timeout = u\<rparr>]\<rparr>)"

lemma bind_permission_IP [simp]: "perm_IP (bind_permission n peer u p) = perm_IP p"
  by (simp add: bind_permission_def)

lemma bind_permissions_find:
  "bind_permissions n peer u ps False False =
     (case find (for_peer peer) ps of
        None \<Rightarrow> Some (ps, False, False)
      | Some p \<Rightarrow>
          if conflicts p n peer then None
          else Some (update_first (for_peer peer) (bind_permission n peer u) ps,
                     (\<exists>b \<in> set (perm_Bindings p). bind_Channel b = n), True))"
  by (induction ps) (auto simp: bind_permission_def split: option.splits)

lemma bind_alloc_find:
  "bind_alloc n peer u a =
     (case find (for_peer peer) (alloc_Permissions a) of
        None \<Rightarrow> Some (a\<lparr>alloc_Permissions := alloc_Permissions a @
                 [\<lparr>perm_IP = addr_IP peer, perm_Timeout = u,
                   perm_Bindings = [\<lparr>bind_Port = addr_Port peer, bind_Channel = n, bind_Timeout = u\<rparr>]\<rparr>]\<rparr>)
      | Some p \<Rightarrow>
          if conflicts p n peer then None
          else Some (a\<lparr>alloc_Permissions := update_first (for_peer peer) (bind_permission n peer u)
                         (alloc_Permissions a)\<rparr>))"
  by (auto simp: bind_alloc_def bind_permissions_find split: option.splits)

definition chan_of :: "addr \<Rightarrow> permission \<Rightarrow> channel_number option" where
  "chan_of peer p = map_option bind_Channel (find (\<lambda>b. bind_Port b = addr_Port peer) (perm_Bindings p))"

text \<open>The channel is already bound to another port of the peer's address.\<close>

definition chan_elsewhere :: "allocation \<Rightarrow> channel_number \<Rightarrow> addr \<Rightarrow> bool" where
  "chan_elsewhere a n peer \<longleftrightarrow> (\<exists>p \<in> set (alloc_Permissions a). for_peer peer p \<and>
     (\<exists>b \<in> set (perm_Bindings p). bind_Channel b = n \<and> bind_Port b \<noteq> addr_Port peer))"

lemma distinct_map_eq: "distinct (map f xs) \<Longrightarrow> x \<in> set xs \<Longrightarrow> y \<in> set xs \<Longrightarrow> f x = f y \<Longrightarrow> x = y"
  by (auto simp: distinct_map inj_on_def)

lemma chan_of_bind_permission:
  assumes wf: "perm_wf p" and hit: "for_peer peer p" and c: "\<not> conflicts p n peer"
  shows "chan_of peer (bind_permission n peer u p) =
    (if \<exists>b \<in> set (perm_Bindings p). bind_Channel b = n \<and> bind_Port b \<noteq> addr_Port peer then None else Some n)"
proof (cases "\<exists>b \<in> set (perm_Bindings p). bind_Channel b = n")
  case False
  then have "find (\<lambda>b. bind_Port b = addr_Port peer) (perm_Bindings p) = None"
    using unbound_port [OF hit c] by (auto simp: find_None_iff_all)
  then show ?thesis using False by (simp add: chan_of_def bind_permission_def find_append)
next
  case True
  then obtain b where b: "b \<in> set (perm_Bindings p)" "bind_Channel b = n" by blast
  have uniq: "b' = b" if "b' \<in> set (perm_Bindings p)" "bind_Channel b' = n" for b'
    using wf that b by (auto simp: perm_wf_def dest: distinct_map_eq)
  have find: "map_option bind_Channel (find (\<lambda>b. bind_Port b = addr_Port peer)
      (update_first (\<lambda>b. bind_Channel b = n) (\<lambda>b. b\<lparr>bind_Timeout := u\<rparr>) bs))
    = map_option bind_Channel (find (\<lambda>b. bind_Port b = addr_Port peer) bs)" for bs
    by (induction bs) auto
  have "chan_of peer (bind_permission n peer u p) = chan_of peer p"
    using True by (simp add: chan_of_def bind_permission_def find)
  also have "\<dots> = (if bind_Port b \<noteq> addr_Port peer then None else Some n)"
  proof (cases "find (\<lambda>b. bind_Port b = addr_Port peer) (perm_Bindings p)")
    case None
    then show ?thesis using b by (auto simp: chan_of_def find_None_iff_all)
  next
    case (Some b')
    then have "bind_Channel b' = n" using c conflicts_iff [OF hit] by simp
    then show ?thesis
      using Some find_SomeD [OF Some] uniq [of b'] by (simp add: chan_of_def)
  qed
  also have "\<dots> = (if \<exists>b \<in> set (perm_Bindings p). bind_Channel b = n \<and> bind_Port b \<noteq> addr_Port peer
                   then None else Some n)"
    using b uniq by (metis (no_types, lifting))
  finally show ?thesis .
qed

context turn_laws
begin

lemma at_most_one_for_peer: "alloc_wf a \<Longrightarrow> at_most_one (for_peer peer) (alloc_Permissions a)"
  using pairwise_ne_filter_find [OF ip_Equal_equivp, of perm_IP "alloc_Permissions a" "addr_IP peer"]
  by (auto simp: at_most_one_def alloc_wf_def split: option.splits)

lemma Bound_view:
  assumes "table_wf T s"
  shows "Bound T s t peer =
     (case view T s t of
        Some a \<Rightarrow> (case Option.bind (find (for_peer peer) (alloc_Permissions a)) (chan_of peer) of
                     Some c \<Rightarrow> Inr c | None \<Rightarrow> Inl ErrAllocationMismatch)
      | None \<Rightarrow> Inl ErrAllocationMismatch)"
proof (cases "view T s t")
  case (Some a)
  note amo = at_most_one_for_peer [OF view_wf [OF assms Some], of peer]
  show ?thesis
    unfolding Bound_eq [OF assms] Some option.case chan_of_def [symmetric] first_some_one_match [OF amo]
    by (simp split: option.splits)
qed (simp add: Bound_eq [OF assms])

lemma chan_elsewhere_find:
  assumes "alloc_wf a" and "find (for_peer peer) (alloc_Permissions a) = Some p"
  shows "chan_elsewhere a n peer \<longleftrightarrow>
    (\<exists>b \<in> set (perm_Bindings p). bind_Channel b = n \<and> bind_Port b \<noteq> addr_Port peer)"
proof -
  have "filter (for_peer peer) (alloc_Permissions a) = [p]"
    using pairwise_ne_filter_find [OF ip_Equal_equivp, of perm_IP "alloc_Permissions a" "addr_IP peer"] assms
    by (simp add: alloc_wf_def)
  then have "{q \<in> set (alloc_Permissions a). for_peer peer q} = {p}"
    by (metis set_filter list.set(1) list.set(2))
  then show ?thesis by (auto simp: chan_elsewhere_def)
qed

lemma bind_alloc_bound:
  assumes wf: "alloc_wf a" and b: "bind_alloc n peer u a = Some a'"
  shows "Option.bind (find (for_peer peer) (alloc_Permissions a')) (chan_of peer)
         = (if chan_elsewhere a n peer then None else Some n)"
proof (cases "find (for_peer peer) (alloc_Permissions a)")
  case None
  then have "\<not> chan_elsewhere a n peer" by (auto simp: chan_elsewhere_def find_None_iff_all)
  then show ?thesis using b None by (auto simp: bind_alloc_find find_append chan_of_def)
next
  case (Some p)
  have p: "p \<in> set (alloc_Permissions a)" "for_peer peer p" using find_SomeD [OF Some] by auto
  have pw: "perm_wf p" using wf p by (simp add: alloc_wf_def)
  have c: "\<not> conflicts p n peer" and
    a': "alloc_Permissions a' = update_first (for_peer peer) (bind_permission n peer u) (alloc_Permissions a)"
    using b Some by (auto simp: bind_alloc_find split: if_splits)
  have "find (for_peer peer) (alloc_Permissions a') = Some (bind_permission n peer u p)"
    using Some by (simp add: a' find_update_first)
  then show ?thesis
    using chan_of_bind_permission [OF pw p(2) c, of u] chan_elsewhere_find [OF wf Some, of n] by simp
qed

lemma ChannelBind_success:
  assumes wf: "table_wf T s" and ok: "ChannelBind T s t n peer u = (None, s')"
  shows "\<exists>a a'. view T s t = Some a \<and> bind_alloc n peer u a = Some a' \<and> view T s' t = Some a' \<and>
    ChannelNumber_Valid T n"
proof -
  have v: "ChannelNumber_Valid T n" using ok by (auto simp: ChannelBind_def split: if_splits)
  obtain a a' where a: "view T s t = Some a" "bind_alloc n peer u a = Some a'"
    using ok ChannelBind_eq [OF wf v, of t peer u] by (auto split: option.splits)
  with view_ChannelBind [OF wf v a, of t] ok v show ?thesis by auto
qed

lemma ChannelBind_bound:
  assumes wf: "table_wf T s" and ok: "ChannelBind T s t n peer u = (None, s')"
  shows "\<exists>a. view T s t = Some a \<and>
    Bound T s' t peer = (if chan_elsewhere a n peer then Inl ErrAllocationMismatch else Inr n)"
proof -
  obtain a a' where a: "view T s t = Some a" "bind_alloc n peer u a = Some a'" "view T s' t = Some a'"
    using ChannelBind_success [OF wf ok] by blast
  have "table_wf T s'" using ChannelBind_wf [OF wf, of t n peer u] ok by simp
  with a bind_alloc_bound [OF view_wf [OF wf a(1)] a(2)] show ?thesis
    by (simp add: Bound_view)
qed

end

end
