(* ===== verification/Allocator_Properties.thy ===== *)
theory Allocator_Properties
  imports Allocator_Theorems
begin

text \<open>
  The properties of the allocation table, stated over the model's operations, each with a run
  on a concrete table. Expiry of permissions is proved once for any table that behaves like
  the abstract map (the locale \<open>permission_table\<close>), and the fate of the relayed sockets for
  any relayed address allocator (inside \<open>relayed_addr_allocator\<close>).
\<close>

section \<open>A concrete table\<close>

definition sample_relayed :: addr where
  "sample_relayed = \<lparr>addr_IP = [127, 0, 0, 1], addr_Port = 5000\<rparr>"

definition sample_allocation :: allocation where
  "sample_allocation =
     \<lparr>alloc_Tuple = sample_tuple,
      alloc_Permissions = [\<lparr>perm_IP = [127, 0, 0, 2], perm_Timeout = 500,
        perm_Bindings = [\<lparr>bind_Port = 201, bind_Channel = 0x4000, bind_Timeout = 400\<rparr>]\<rparr>],
      alloc_RelayedAddr = sample_relayed, alloc_Conn = UDPConn 3, alloc_Callback = 0,
      alloc_Timeout = 1000, alloc_Buf = replicate 2048 0\<rparr>"

definition sample_table :: "os net_allocator allocator" where
  "sample_table = \<lparr>al_allocs = [sample_allocation], al_raddr = sample_net, al_readers = []\<rparr>"

abbreviation sample_raddr :: "os net_allocator raddr_ops" where
  "sample_raddr \<equiv> net_raddr documented_turn system_ports"

lemma sample_table_wf: "table_wf documented_turn sample_table"
  by (simp add: table_wf_def alloc_wf_def perm_wf_def sample_table_def sample_allocation_def)

lemma sample_view: "view documented_turn sample_table sample_tuple = Some sample_allocation"
  by (simp add: view_def sample_table_def sample_allocation_def documented.tuple_refl)

section \<open>Refinement\<close>

definition spec_bind :: "turn_api \<Rightarrow> five_tuple \<Rightarrow> channel_number \<Rightarrow> addr \<Rightarrow> gotime \<Rightarrow> table \<Rightarrow> table" where
  "spec_bind T t n peer u = spec_update T t (\<lambda>a. case bind_alloc n peer u a of Some a' \<Rightarrow> a' | None \<Rightarrow> a)"

context turn_laws
begin

lemma view_ChannelBind_spec:
  assumes wf: "table_wf T s" and v: "ChannelNumber_Valid T n"
  shows "view T (snd (ChannelBind T s t n peer u)) = spec_bind T t n peer u (view T s)"
proof
  fix t'
  show "view T (snd (ChannelBind T s t n peer u)) t' = spec_bind T t n peer u (view T s) t'"
  proof (cases "view T s t")
    case None
    then show ?thesis
      using ChannelBind_eq [OF wf v, of t peer u] view_cong [of t t' s]
      by (auto simp: spec_bind_def spec_update_def)
  next
    case (Some a)
    have t': "view T s t' = Some a" if "FiveTuple_Equal T t t'"
      using Some view_cong [OF that, of s] by simp
    show ?thesis
    proof (cases "bind_alloc n peer u a")
      case None
      then show ?thesis
        using Some t' ChannelBind_eq [OF wf v, of t peer u] by (auto simp: spec_bind_def spec_update_def)
    next
      case b: (Some a')
      show ?thesis
        using view_ChannelBind [OF wf v Some b, of t'] t' b by (auto simp: spec_bind_def spec_update_def)
    qed
  qed
qed

end



section \<open>Outcomes of New\<close>

text \<open>
  Claim C11. \<open>New\<close> succeeds exactly for a UDP 5-tuple that has no allocation yet and for
  which the relayed address allocator yields a socket; then the new allocation, with that
  address and socket, a read buffer and no permissions, is in the table and a read loop runs
  on it. A second allocation for the 5-tuple is refused with
  \<open>ErrAllocationMismatch\<close> and changes nothing.
\<close>

theorem New_succeeds_iff:
  assumes "turn_laws T"
  shows "New T R s t u c = (Inr x, s') \<longleftrightarrow>
    tuple_Proto t = ProtoUDP \<and> view T s t = None \<and>
    (\<exists>k r'. ra_New R (al_raddr s) ProtoUDP = (Inr (x, k), r') \<and>
       s' = s\<lparr>al_allocs := al_allocs s @ [committed t u c x k], al_raddr := r',
               al_readers := al_readers s @ [committed t u c x k]\<rparr>)"
  by (cases rule: turn_laws.New_cases [OF assms, where t = t and R = R and s = s and u = u and c = c]) auto

theorem New_succeeds_iff_witness:
  "\<exists>s'. New documented_turn sample_raddr (NewAllocator sample_net) sample_tuple 1000 0
      = (Inr sample_relayed, s')"
proof -
  have "\<exists>k r'. ra_New sample_raddr sample_net ProtoUDP = (Inr (sample_relayed, k), r')"
    by (simp add: net_raddr_def sample_net_eval sample_relayed_def)
  then show ?thesis
    using New_succeeds_iff [OF documented.turn_laws_axioms, where R = sample_raddr
        and s = "NewAllocator sample_net" and t = sample_tuple and u = 1000 and c = 0
        and x = sample_relayed]
    by (auto simp: sample_tuple_def NewAllocator_def view_def)
qed

context turn_laws
begin

lemma New_failed_reserved:
  assumes wf: "table_wf T s" and p: "tuple_Proto t = ProtoUDP" and v: "view T s t = None"
    and ra: "ra_New R (al_raddr s) ProtoUDP = (Inl e, r')" and new: "New T R s t u c = (res, s1)"
  shows "res = Inl (Wrap ''failed to allocate'' e)" and "view T s1 t = Some (fresh_allocation t u c)"
    and "table_wf T s1"
  using New_failed [OF p v ra, of u c] new view_append [OF v, of "fresh_allocation t u c"] New_wf [OF wf, of R t u c]
  by (auto simp: fresh_allocation_def spec_insert_def view_def)

lemma view_Prune_reserved:
  assumes "table_wf T s" and "view T s t = Some (fresh_allocation t u c)"
  shows "view T (Prune R s now) t = (if now < u then Some (fresh_allocation t u c) else None)"
  using view_Prune [OF assms(1), of R now] assms(2)
  by (auto simp: spec_prune_def After_def fresh_allocation_def prune_allocation_def)

end

text \<open>
  Claim C19. A failed \<open>New\<close> keeps the reservation: when the relayed address allocator
  has no socket to give, the 5-tuple stays in the table without a connection. Until that
  entry is pruned (after its timeout) or removed, every further \<open>New\<close> for the 5-tuple is
  refused with \<open>ErrAllocationMismatch\<close>, even if sockets are available again.
\<close>

theorem New_failure_keeps_reservation:
  assumes "turn_laws T" and "table_wf T s" and "tuple_Proto t = ProtoUDP" and "view T s t = None"
    and "ra_New R (al_raddr s) ProtoUDP = (Inl e, r')" and "New T R s t u c = (res, s1)"
  shows "res = Inl (Wrap ''failed to allocate'' e) \<and>
    view T s1 t = Some (fresh_allocation t u c) \<and>
    fst (New T R' s1 t u' c') = Inl ErrAllocationMismatch \<and>
    (now < u \<longrightarrow> fst (New T R' (Prune R' s1 now) t u' c') = Inl ErrAllocationMismatch) \<and>
    (view T (Prune R' s1 now) t = None \<longleftrightarrow> u \<le> now)"
proof -
  note r = turn_laws.New_failed_reserved [OF assms]
  note p = turn_laws.view_Prune_reserved [OF assms(1) r(3) r(2), of R' now]
  show ?thesis
    using r p turn_laws.New_mismatch [OF assms(1,3), of s1 R' u' c']
      turn_laws.New_mismatch [OF assms(1,3), of "Prune R' s1 now" R' u' c']
    by auto
qed

theorem New_failure_keeps_reservation_witness:
  "\<exists>e s1. New documented_turn
      (sample_raddr\<lparr>ra_New := \<lambda>r p. (Inl (OtherError ''no port''), r)\<rparr>)
      (NewAllocator sample_net) sample_tuple 1000 0 = (Inl e, s1) \<and>
    fst (New documented_turn sample_raddr s1 sample_tuple 2000 0) = Inl ErrAllocationMismatch \<and>
    fst (New documented_turn sample_raddr (Prune sample_raddr s1 999) sample_tuple 2000 0)
      = Inl ErrAllocationMismatch"
proof -
  let ?R = "sample_raddr\<lparr>ra_New := \<lambda>r p. (Inl (OtherError ''no port''), r)\<rparr>"
  obtain res s1 where new: "New documented_turn ?R (NewAllocator sample_net) sample_tuple 1000 0 = (res, s1)"
    by (metis surj_pair)
  have p: "tuple_Proto sample_tuple = ProtoUDP" by (simp add: sample_tuple_def)
  have v: "view documented_turn (NewAllocator sample_net) sample_tuple = None"
    by (simp add: view_def NewAllocator_def)
  have ra: "ra_New ?R (al_raddr (NewAllocator sample_net)) ProtoUDP
      = (Inl (OtherError ''no port''), al_raddr (NewAllocator sample_net))"
    by simp
  show ?thesis
    using new New_failure_keeps_reservation [OF documented.turn_laws_axioms table_wf_New_empty p v ra new,
        where R' = sample_raddr and u' = 2000 and c' = 0 and now = 999] by auto
qed

section \<open>Delivery\<close>

text \<open>
  Claim C9. \<open>Send\<close> writes the data, unchanged, to the peer through the relayed socket of
  the client's own allocation if that allocation has a permission for the peer's IP address
  (the port does not matter) and a socket; otherwise it writes nothing and returns
  \<open>ErrPermissionNotFound\<close>.
\<close>

theorem Send_delivers_iff_permitted:
  assumes "turn_laws T" and "table_wf T s"
  shows "Send T W s t peer d =
     (case view T s t of
        Some a \<Rightarrow>
          if alloc_Conn a \<noteq> NilConn \<and> (\<exists>p \<in> set (alloc_Permissions a). ip_Equal (addr_IP peer) (perm_IP p))
          then (W \<lparr>pkt_Conn = alloc_Conn a, pkt_Data = d, pkt_To = peer\<rparr>,
                [\<lparr>pkt_Conn = alloc_Conn a, pkt_Data = d, pkt_To = peer\<rparr>])
          else ((0, Some ErrPermissionNotFound), [])
      | None \<Rightarrow> ((0, Some ErrPermissionNotFound), []))"
  using turn_laws.Send_eq [OF assms, of W t peer d] by (auto simp: Let_def split: option.splits)

theorem Send_delivers_iff_permitted_witness:
  "snd (Send documented_turn (\<lambda>p. (3, None)) sample_table sample_tuple
      \<lparr>addr_IP = IPv4 127 0 0 2, addr_Port = 9\<rparr> [1, 2, 3])
   = [\<lparr>pkt_Conn = UDPConn 3, pkt_Data = [1, 2, 3], pkt_To = \<lparr>addr_IP = IPv4 127 0 0 2, addr_Port = 9\<rparr>\<rparr>] \<and>
   snd (Send documented_turn (\<lambda>p. (3, None)) sample_table sample_tuple
      \<lparr>addr_IP = [127, 0, 0, 3], addr_Port = 201\<rparr> [1, 2, 3]) = []"
  by (simp add: Send_delivers_iff_permitted [OF documented.turn_laws_axioms sample_table_wf] sample_view
      sample_allocation_def ip_Equal_def IPv4_def v4InV6Prefix_def)

text \<open>
  Claim C10. \<open>SendBound\<close> writes the data through the relayed socket of the client's own
  allocation to a transport address that the allocation has bound to the channel number: the
  last one bound, should there be several. Without such a binding it writes nothing and
  returns \<open>ErrPermissionNotFound\<close>.
\<close>

theorem SendBound_delivers_iff_bound:
  assumes "turn_laws T" and "table_wf T s"
  shows "SendBound T W s t n d =
     (case view T s t of
        Some a \<Rightarrow>
          if alloc_Conn a \<noteq> NilConn \<and> chan_addrs a n \<noteq> []
          then (W \<lparr>pkt_Conn = alloc_Conn a, pkt_Data = d, pkt_To = last (chan_addrs a n)\<rparr>,
                [\<lparr>pkt_Conn = alloc_Conn a, pkt_Data = d, pkt_To = last (chan_addrs a n)\<rparr>])
          else ((0, Some ErrPermissionNotFound), [])
      | None \<Rightarrow> ((0, Some ErrPermissionNotFound), []))"
  using turn_laws.SendBound_eq [OF assms, of W t n d] by (auto simp: Let_def split: option.splits)

theorem SendBound_delivers_iff_bound_witness:
  "snd (SendBound documented_turn (\<lambda>p. (1, None)) sample_table sample_tuple 0x4000 [7])
   = [\<lparr>pkt_Conn = UDPConn 3, pkt_Data = [7], pkt_To = \<lparr>addr_IP = [127, 0, 0, 2], addr_Port = 201\<rparr>\<rparr>] \<and>
   snd (SendBound documented_turn (\<lambda>p. (1, None)) sample_table sample_tuple 0x4001 [7]) = []"
  by (simp add: SendBound_delivers_iff_bound [OF documented.turn_laws_axioms sample_table_wf] sample_view
      sample_allocation_def chan_addrs_def)

section \<open>Channel bindings\<close>

text \<open>
  After a successful \<open>ChannelBind\<close> of channel \<open>n\<close> to a peer, data from
  that peer is delivered on channel \<open>n\<close> (\<open>Bound\<close> answers \<open>n\<close>), except when the
  permission for the peer's IP address already had channel \<open>n\<close> bound to another port: then
  the call refreshes that other binding, reports success, and the peer is not bound at all.
\<close>

theorem ChannelBind_then_Bound:
  assumes "turn_laws T" and "table_wf T s" and "ChannelBind T s t n peer u = (None, s')"
  shows "\<exists>a. view T s t = Some a \<and>
    Bound T s' t peer = (if chan_elsewhere a n peer then Inl ErrAllocationMismatch else Inr n)"
  using turn_laws.ChannelBind_bound [OF assms] .

definition sample_peer2 :: addr where
  "sample_peer2 = \<lparr>addr_IP = [127, 0, 0, 2], addr_Port = 202\<rparr>"

theorem ChannelBind_then_Bound_witness:
  "\<exists>s1 s2. ChannelBind documented_turn sample_table sample_tuple 0x4001 sample_peer2 600 = (None, s1) \<and>
     Bound documented_turn s1 sample_tuple sample_peer2 = Inr 0x4001 \<and>
     ChannelBind documented_turn sample_table sample_tuple 0x4000 sample_peer2 600 = (None, s2) \<and>
     Bound documented_turn s2 sample_tuple sample_peer2 = Inl ErrAllocationMismatch"
proof -
  have e: "chan_elsewhere sample_allocation 0x4000 sample_peer2"
    "\<not> chan_elsewhere sample_allocation 0x4001 sample_peer2"
    by (simp_all add: chan_elsewhere_def sample_allocation_def sample_peer2_def)
  have ok: "fst (ChannelBind documented_turn sample_table sample_tuple 0x4000 sample_peer2 600) = None"
    "fst (ChannelBind documented_turn sample_table sample_tuple 0x4001 sample_peer2 600) = None"
    by (simp_all add: ChannelBind_def sample_table_def sample_allocation_def sample_peer2_def
        sample_defs documented_turn_def addr_equal_doc_def conflicts_def)
  obtain s1 s2 where
    s: "ChannelBind documented_turn sample_table sample_tuple 0x4001 sample_peer2 600 = (None, s1)"
       "ChannelBind documented_turn sample_table sample_tuple 0x4000 sample_peer2 600 = (None, s2)"
    using ok by (metis prod.collapse)
  show ?thesis
    using s e ChannelBind_then_Bound [OF documented.turn_laws_axioms sample_table_wf s(1)]
      ChannelBind_then_Bound [OF documented.turn_laws_axioms sample_table_wf s(2)] sample_view by auto
qed



section \<open>Expiry\<close>

definition permitted :: "table \<Rightarrow> five_tuple \<Rightarrow> addr \<Rightarrow> bool" where
  "permitted m t peer \<longleftrightarrow> (\<exists>a. m t = Some a \<and> (\<exists>p \<in> set (alloc_Permissions a). for_peer peer p))"

text \<open>
  A table of allocations with permissions that expire, as the server sees it: what creating a
  permission, refreshing an allocation and pruning do to the abstract map.
\<close>

locale permission_table = turn_laws +
  fixes tview :: "'s \<Rightarrow> table"
    and tinv :: "'s \<Rightarrow> bool"
    and create :: "'s \<Rightarrow> five_tuple \<Rightarrow> addr \<Rightarrow> gotime \<Rightarrow> 's"
    and prune :: "'s \<Rightarrow> gotime \<Rightarrow> 's"
  assumes create_view: "tview (create s t peer u) = spec_update T t (put_permission peer u) (tview s)"
    and create_inv: "tinv s \<Longrightarrow> tinv (create s t peer u)"
    and prune_view: "tinv s \<Longrightarrow> tview (prune s now) = spec_prune now (tview s)"
    and prune_inv: "tinv s \<Longrightarrow> tinv (prune s now)"
    and tview_wf: "tinv s \<Longrightarrow> tview s t = Some a \<Longrightarrow> alloc_wf a"
begin

lemma permission_timeout:
  assumes "alloc_wf a"
  shows "\<exists>p. filter (for_peer peer) (alloc_Permissions (put_permission peer u a)) = [p] \<and> perm_Timeout p = u"
proof -
  have wf: "alloc_wf (put_permission peer u a)" using assms by (rule put_permission_wf)
  have "\<exists>p. find (for_peer peer) (alloc_Permissions (put_permission peer u a)) = Some p \<and> perm_Timeout p = u"
  proof (cases "\<exists>p \<in> set (alloc_Permissions a). for_peer peer p")
    case True
    then obtain p where "find (for_peer peer) (alloc_Permissions a) = Some p"
      by (metis find_None_iff_all option.exhaust)
    then show ?thesis by (auto simp: put_permission_hit [OF True] find_update_first)
  next
    case False
    then have "find (for_peer peer) (alloc_Permissions a) = None" by (auto simp: find_None_iff_all)
    then show ?thesis by (auto simp: put_permission_miss [OF False] find_append)
  qed
  then show ?thesis
    using pairwise_ne_filter_find [OF ip_Equal_equivp, of perm_IP
        "alloc_Permissions (put_permission peer u a)" "addr_IP peer"] wf
    by (auto simp: alloc_wf_def)
qed

lemma permission_window:
  assumes inv: "tinv s" and a: "tview s t = Some a"
  shows "permitted (tview (prune (create s t peer u) now)) t peer \<longleftrightarrow> now < u \<and> now < alloc_Timeout a"
proof -
  let ?a = "put_permission peer u a"
  obtain p where p: "filter (for_peer peer) (alloc_Permissions ?a) = [p]" "perm_Timeout p = u"
    using permission_timeout [OF tview_wf [OF inv a], of peer u] by blast
  have only: "{q \<in> set (alloc_Permissions ?a). for_peer peer q} = {p}"
    using arg_cong [OF p(1), of set] by simp
  have v: "tview (prune (create s t peer u) now) t
      = (if now < alloc_Timeout a then Some (prune_allocation now ?a) else None)"
    using a by (simp add: prune_view [OF create_inv [OF inv]] create_view spec_prune_def spec_update_def After_def)
  show ?thesis
    using only p(2) by (auto simp: permitted_def v After_def)
qed

end

sublocale turn_laws \<subseteq> tab: permission_table T "view T" "table_wf T"
  "\<lambda>s t peer u. snd (CreatePermission T s t peer u)" "Prune R" for R
  by unfold_locales
     (auto simp: view_CreatePermission view_Prune intro: CreatePermission_wf Prune_wf view_wf)

context turn_laws
begin

lemma Send_permitted:
  assumes "table_wf T s" and "view T s t = Some a"
  shows "snd (Send T W s t peer d) \<noteq> [] \<longleftrightarrow> alloc_Conn a \<noteq> NilConn \<and> permitted (view T s) t peer"
  using assms by (auto simp: Send_eq Let_def permitted_def ip_Equal_sym)

lemma created_permission_sends:
  assumes wf: "table_wf T s" and a: "view T s t = Some a" and c: "alloc_Conn a \<noteq> NilConn"
  shows "snd (Send T W (Prune R (snd (CreatePermission T s t peer u)) now) t peer d) \<noteq> []
         \<longleftrightarrow> now < u \<and> now < alloc_Timeout a"
proof -
  let ?s1 = "snd (CreatePermission T s t peer u)" and ?s2 = "Prune R (snd (CreatePermission T s t peer u)) now"
  have wf2: "table_wf T ?s2" using wf by (intro Prune_wf CreatePermission_wf)
  note win = tab.permission_window [OF wf a, where R = R and peer = peer and u = u and now = now]
  show ?thesis
  proof (cases "view T ?s2 t")
    case None
    then have "snd (Send T W ?s2 t peer d) = []" by (simp add: Send_eq [OF wf2])
    then show ?thesis using win None by (auto simp: permitted_def)
  next
    case (Some b)
    have "alloc_Conn b = alloc_Conn a"
      using Some a by (auto simp: view_Prune [OF CreatePermission_wf [OF wf]] view_CreatePermission
          spec_prune_def spec_update_def split: if_splits)
    then show ?thesis using Send_permitted [OF wf2 Some, of W peer d] win c by simp
  qed
qed

end



section \<open>Relayed sockets\<close>

context relayed_addr_allocator
begin

lemma dealloc_all_inv: "rinv r \<Longrightarrow> rinv (dealloc_all R as r)"
proof (induction as arbitrary: r)
  case (Cons a as)
  from remove_inv [OF Cons.prems] Cons.IH show ?case by (simp add: split_beta)
qed simp

lemma dealloc_all_live:
  "rinv r \<Longrightarrow> live (dealloc_all R as r) = filter (\<lambda>(b, q, c). \<not> (\<exists>a \<in> set as.
     q = tuple_Proto (alloc_Tuple a) \<and> rel (tuple_Server (alloc_Tuple a)) b)) (live r)"
proof (induction as arbitrary: r)
  case (Cons a as)
  let ?r = "snd (ra_Remove R r (tuple_Server (alloc_Tuple a)) (tuple_Proto (alloc_Tuple a)))"
  have "live (dealloc_all R (a # as) r) = live (dealloc_all R as ?r)" by (simp add: split_beta)
  then show ?case
    using Cons.IH [OF remove_inv [OF Cons.prems]] remove_live [OF Cons.prems]
    by (auto simp: split_beta intro!: filter_cong)
qed simp

text \<open>A relayed address that equals no server address survives every de-allocation.\<close>

lemma relayed_stays_open:
  assumes "rinv r" and "(x, p, k) \<in> set (live r)"
    and "\<forall>a \<in> set as. \<not> rel (tuple_Server (alloc_Tuple a)) x"
  shows "(x, p, k) \<in> set (live (dealloc_all R as r))" and "rsock (dealloc_all R as r) k = Some x"
  using assms live_open [OF dealloc_all_inv [OF assms(1)], of x p k as] by (auto simp: dealloc_all_live)

end

context turn_laws
begin

lemma Remove_raddr:
  "view T s t \<noteq> None \<Longrightarrow> Remove T R s t = (None,
     s\<lparr>al_allocs := filter (\<lambda>a. \<not> is_for t a) (al_allocs s),
       al_raddr := dealloc_all R (filter (is_for t) (al_allocs s)) (al_raddr s)\<rparr>)"
  by (auto simp: Remove_def Remove_unlink_def Let_def view_None filter_empty_conv)

end

lemma New_net_live:
  assumes "turn_laws T" and "net_inv os_sock os_inv (al_raddr s)"
    and "New T (net_raddr T system_ports) s t u c = (Inr x, s1)"
  shows "net_inv os_sock os_inv (al_raddr s1) \<and> view T s1 t \<noteq> None \<and>
    (\<exists>k. (x, ProtoUDP, k) \<in> set (net_live (al_raddr s1)))"
proof -
  obtain k r' where ra: "ra_New (net_raddr T system_ports) (al_raddr s) ProtoUDP = (Inr (x, k), r')"
    and s1: "s1 = s\<lparr>al_allocs := al_allocs s @ [committed t u c x k], al_raddr := r',
       al_readers := al_readers s @ [committed t u c x k]\<rparr>"
    using assms(3) by (cases rule: turn_laws.New_cases [OF assms(1), where t = t and R = "net_raddr T system_ports"
          and s = s and u = u and c = c]) auto
  have "view T s1 t \<noteq> None"
    using turn_laws.tuple_refl [OF assms(1)]
    by (auto simp: s1 turn_laws.view_None [OF assms(1)] committed_def fresh_allocation_def)
  with sys.net.new_ok [OF assms(2) ra] show ?thesis by (auto simp: s1)
qed

text \<open>
  Claim C20. \<open>Remove\<close> gives back the address of the server, not the relayed address: an
  allocation made over the system's sockets and then removed is gone from the table, but its
  relayed socket stays open and stays in the port manager's list, whenever the relayed
  address differs from the server's own address (which a fresh socket of the system always
  does while the server listens).
\<close>

theorem Remove_leaves_relayed_socket_open:
  assumes "turn_laws T" and "net_inv os_sock os_inv (al_raddr s)"
    and "New T (net_raddr T system_ports) s t u c = (Inr x, s1)"
    and "\<forall>a \<in> set (al_allocs s1). FiveTuple_Equal T (alloc_Tuple a) t \<longrightarrow>
           \<not> Addr_Equal T (tuple_Server (alloc_Tuple a)) x"
  shows "\<exists>k s2. Remove T (net_raddr T system_ports) s1 t = (None, s2) \<and> view T s2 t = None \<and>
    (x, ProtoUDP, k) \<in> set (net_live (al_raddr s2)) \<and>
    os_sock (nal_ports (al_raddr s2)) k = Some x"
proof -
  let ?R = "net_raddr T system_ports"
  obtain k where inv: "net_inv os_sock os_inv (al_raddr s1)" and v: "view T s1 t \<noteq> None"
    and l: "(x, ProtoUDP, k) \<in> set (net_live (al_raddr s1))"
    using New_net_live [OF assms(1-3)] by blast
  note rem = turn_laws.Remove_raddr [OF assms(1) v, of ?R]
  have gone: "view T (snd (Remove T ?R s1 t)) t = None"
    using turn_laws.view_Remove [OF assms(1), of ?R s1 t] turn_laws.tuple_refl [OF assms(1)]
    by (simp add: spec_remove_def)
  have "\<forall>a \<in> set (filter (\<lambda>a. FiveTuple_Equal T (alloc_Tuple a) t) (al_allocs s1)).
      \<not> Addr_Equal T (tuple_Server (alloc_Tuple a)) x"
    using assms(4) by auto
  from sys.net.relayed_stays_open [OF inv l this] rem gone show ?thesis by auto
qed

theorem Remove_leaves_relayed_socket_open_witness:
  "\<exists>s1 s2 x k. New documented_turn sample_raddr (NewAllocator sample_net) sample_tuple 1000 0 = (Inr x, s1) \<and>
     Remove documented_turn sample_raddr s1 sample_tuple = (None, s2) \<and>
     view documented_turn s2 sample_tuple = None \<and> os_sock (nal_ports (al_raddr s2)) k = Some x"
proof -
  let ?s = "NewAllocator sample_net"
  obtain s1 where new: "New documented_turn sample_raddr ?s sample_tuple 1000 0 = (Inr sample_relayed, s1)"
    and allocs: "map alloc_Tuple (al_allocs s1) = [sample_tuple]"
    by (simp add: New_def New_reserve_def New_commit_def NewAllocator_def net_raddr_def sample_net_eval
        sample_relayed_def fresh_allocation_def sample_tuple_def documented_turn_def addr_equal_doc_def)
  have inv: "net_inv os_sock os_inv (al_raddr ?s)"
    using sample_net_inv by (simp add: NewAllocator_def)
  have d: "\<forall>a \<in> set (al_allocs s1). FiveTuple_Equal documented_turn (alloc_Tuple a) sample_tuple \<longrightarrow>
      \<not> Addr_Equal documented_turn (tuple_Server (alloc_Tuple a)) sample_relayed"
    using allocs by (auto simp: map_eq_Cons_conv sample_defs sample_relayed_def documented_turn_def
        addr_equal_doc_def)
  show ?thesis
    using new Remove_leaves_relayed_socket_open [OF documented.turn_laws_axioms inv new d] by blast
qed

end
