(* ===== verification/Turn_Server.thy ===== *)
theory Turn_Server
  imports Server_Context Auth_Static Auth_Nonce Allocator_Properties
begin

text \<open>
  The server: \<open>internal/server/server.go\<close>, \<open>server_handlers.go\<close>, \<open>server_send.go\<close>
  and \<open>server_metrics.go\<close>.

  The state of a server is its address and connection, its authenticator, nonce manager,
  configuration and allocator, and the counter of STUN messages. A handler takes the state and
  the context of one packet and returns an error or nil, the context (with the response, if it
  built one), the new state and the packets written to peers. \<open>None\<close> is a panic, which
  happens when a filter rule of the configuration is nil.

  The packages \<open>turn\<close> and \<open>stun\<close>, the relayed address allocator, the nonce manager and
  the network are the parameters of \<open>server_env\<close>. Logging is left out.
\<close>

record ('r, 'n) server =
  sv_addr :: addr
  sv_conn :: packet_conn
  sv_auth :: "message_auth option"
  sv_nonce :: 'n
  sv_cfg :: config
  sv_allocs :: "'r allocator"
  sv_reusePort :: bool
  sv_stunMessages :: nat
  sv_maxWorkers :: int

record ('r, 'n) server_env =
  env_turn :: turn_api
  env_stun :: stun_api
  env_raddr :: "'r raddr_ops"
  env_Check :: "'n \<Rightarrow> five_tuple \<Rightarrow> bytes \<Rightarrow> gotime \<Rightarrow> bytes \<Rightarrow> (bytes \<times> go_error option) \<times> 'n"
  env_write :: write_env
  env_Error :: "go_error \<Rightarrow> string"

type_synonym ('r, 'n) handler_result =
  "(go_error option \<times> server_context \<times> ('r, 'n) server \<times> packet list) option"

text \<open>A handler that ends by building a response.\<close>

definition reply ::
  "('r, 'n) server \<Rightarrow> go_error option \<times> server_context \<Rightarrow> ('r, 'n) handler_result" where
  "reply s r = (case r of (err, c) \<Rightarrow> Some (err, c, s, []))"

text \<open>The peer handler the server passes to \<open>Allocator.New\<close> is the server itself.\<close>

definition self_handler :: peer_handler where
  "self_handler = 0"

definition BindingRequest :: message_type where
  "BindingRequest = NewType MethodBinding ClassRequest"

definition AllocateRequest :: message_type where
  "AllocateRequest = NewType MethodAllocate ClassRequest"

definition CreatePermissionRequest :: message_type where
  "CreatePermissionRequest = NewType MethodCreatePermission ClassRequest"

definition RefreshRequest :: message_type where
  "RefreshRequest = NewType MethodRefresh ClassRequest"

definition SendIndication :: message_type where
  "SendIndication = NewType MethodSend ClassIndication"

definition channelBindRequest :: message_type where
  "channelBindRequest = NewType MethodChannelBind ClassRequest"

lemmas message_type_defs = BindingRequest_def AllocateRequest_def CreatePermissionRequest_def
  RefreshRequest_def SendIndication_def channelBindRequest_def NewType_def

section \<open>Sending to peers\<close>

definition sendByBinding ::
  "('r, 'n) server_env \<Rightarrow> ('r, 'n) server \<Rightarrow> server_context \<Rightarrow> channel_number \<Rightarrow> bytes
   \<Rightarrow> go_error option \<times> packet list" where
  "sendByBinding E s c n data =
     (let ((_, err), pkts) = SendBound (env_turn E) (env_write E) (sv_allocs s) (ctx_tuple c) n data
      in (err, pkts))"

definition sendByPermission ::
  "('r, 'n) server_env \<Rightarrow> ('r, 'n) server \<Rightarrow> server_context \<Rightarrow> addr \<Rightarrow> bytes
   \<Rightarrow> go_error option \<times> packet list" where
  "sendByPermission E s c a data =
     (let ((_, err), pkts) = Send (env_turn E) (env_write E) (sv_allocs s) (ctx_tuple c) a data
      in (err, pkts))"

section \<open>Handlers\<close>

definition processBindingRequest ::
  "('r, 'n) server_env \<Rightarrow> ('r, 'n) server \<Rightarrow> server_context \<Rightarrow> ('r, 'n) handler_result" where
  "processBindingRequest E s c = reply s (buildOk (env_stun E) c [SetXORMappedAddress (ctx_client c)])"

definition processAllocateRequest ::
  "('r, 'n) server_env \<Rightarrow> ('r, 'n) server \<Rightarrow> server_context \<Rightarrow> ('r, 'n) handler_result" where
  "processAllocateRequest E s c =
     (let S = env_stun E in
      case turn_TransportGetFrom S (ctx_request c) of
        Inl _ \<Rightarrow> reply s (buildErr S c [SetErrorCode CodeBadRequest])
      | Inr _ \<Rightarrow>
          let lifetime = cfg_defaultLifetime (ctx_cfg c);
              (res, al) = New (env_turn E) (env_raddr E) (sv_allocs s) (ctx_tuple c)
                            (ctx_time c + lifetime) self_handler;
              s = s\<lparr>sv_allocs := al\<rparr>
          in case res of
               Inr relayedAddr \<Rightarrow>
                 reply s (buildOk S c [SetXORMappedAddress (tuple_Client (ctx_tuple c)),
                                       SetRelayedAddress relayedAddr, SetLifetime lifetime])
             | Inl err \<Rightarrow>
                 if err = ErrAllocationMismatch
                 then reply s (buildErr S c [SetErrorCode CodeAllocMismatch])
                 else reply s (buildErr S c [SetErrorCode CodeServerError]))"

definition processRefreshRequest ::
  "('r, 'n) server_env \<Rightarrow> ('r, 'n) server \<Rightarrow> server_context \<Rightarrow> ('r, 'n) handler_result" where
  "processRefreshRequest E s c =
     (let S = env_stun E;
          go = (\<lambda>lifetime.
            let (allocErr, al) =
                  (if lifetime = 0
                   then Remove (env_turn E) (env_raddr E) (sv_allocs s) (ctx_tuple c)
                   else Refresh (env_turn E) (sv_allocs s) (ctx_tuple c) (ctx_time c + lifetime));
                s = s\<lparr>sv_allocs := al\<rparr>
            in case allocErr of
                 None \<Rightarrow> reply s (buildOk S c [SetLifetime lifetime])
               | Some err \<Rightarrow>
                   if err = ErrAllocationMismatch
                   then reply s (buildErr S c [SetErrorCode CodeAllocMismatch])
                   else reply s (buildErr S c [SetErrorCode CodeServerError]))
      in case turn_ParseLifetime S (ctx_request c) of
           Inl err \<Rightarrow> if err \<noteq> ErrAttributeNotFound
                      then Some (Some (Wrap ''failed to parse'' err), c, s, [])
                      else go 0
         | Inr lifetime \<Rightarrow> go lifetime)"

definition processCreatePermissionRequest ::
  "('r, 'n) server_env \<Rightarrow> ('r, 'n) server \<Rightarrow> server_context \<Rightarrow> ('r, 'n) handler_result" where
  "processCreatePermissionRequest E s c =
     (let S = env_stun E;
          go = (\<lambda>peerAddr lifetime.
            let timeout = ctx_time c + lifetime in
            case allowPeer c peerAddr of
              None \<Rightarrow> None
            | Some False \<Rightarrow> reply s (buildErr S c [SetErrorCode CodeForbidden])
            | Some True \<Rightarrow>
                let (err, al) = CreatePermission (env_turn E) (sv_allocs s) (ctx_tuple c) peerAddr timeout;
                    s = s\<lparr>sv_allocs := al\<rparr>
                in case err of
                     None \<Rightarrow> reply s (buildOk S c [SetLifetime lifetime])
                   | Some e \<Rightarrow>
                       if e = ErrAllocationMismatch
                       then reply s (buildErr S c [SetErrorCode CodeAllocMismatch])
                       else Some (Some (Wrap ''failed to create allocation'' e), c, s, []))
      in case turn_PeerAddressGetFrom S (ctx_request c) of
           Inl err \<Rightarrow> Some (Some (Wrap ''failed to get create permission request addr'' err), c, s, [])
         | Inr peerAddr \<Rightarrow>
             (case turn_LifetimeGetFrom S (ctx_request c) of
                Inr lifetime \<Rightarrow>
                  let max = cfg_maxLifetime (ctx_cfg c)
                  in go peerAddr (if lifetime > max then max else lifetime)
              | Inl err \<Rightarrow>
                  if err = ErrAttributeNotFound then go peerAddr (cfg_defaultLifetime (ctx_cfg c))
                  else Some (Some (Wrap ''failed to get lifetime'' err), c, s, [])))"

definition processSendIndication ::
  "('r, 'n) server_env \<Rightarrow> ('r, 'n) server \<Rightarrow> server_context \<Rightarrow> ('r, 'n) handler_result" where
  "processSendIndication E s c =
     (case turn_ParseDataAndPeer (env_stun E) (ctx_request c) of
        Inl err \<Rightarrow> Some (Some (Wrap ''failed to parse send indication'' err), c, s, [])
      | Inr (data, a) \<Rightarrow>
          let (err, pkts) = sendByPermission E s c a data
          in Some (None, c, s, pkts))"

definition processChannelBinding ::
  "('r, 'n) server_env \<Rightarrow> ('r, 'n) server \<Rightarrow> server_context \<Rightarrow> ('r, 'n) handler_result" where
  "processChannelBinding E s c =
     (let S = env_stun E in
      case turn_ParsePeerAndChannel S (ctx_request c) of
        Inl _ \<Rightarrow> reply s (buildErr S c [SetErrorCode CodeBadRequest])
      | Inr (peerAddr, number) \<Rightarrow>
          let lifetime = cfg_defaultLifetime (ctx_cfg c);
              timeout = ctx_time c + lifetime
          in case allowPeer c peerAddr of
               None \<Rightarrow> None
             | Some False \<Rightarrow> reply s (buildErr S c [SetErrorCode CodeForbidden])
             | Some True \<Rightarrow>
                 let (err, al) = ChannelBind (env_turn E) (sv_allocs s) (ctx_tuple c) number peerAddr timeout;
                     s = s\<lparr>sv_allocs := al\<rparr>
                 in case err of
                      None \<Rightarrow> reply s (buildOk S c [SetChannelNumber number, SetLifetime lifetime])
                    | Some e \<Rightarrow>
                        if e = ErrAllocationMismatch
                        then reply s (buildErr S c [SetErrorCode CodeAllocMismatch])
                        else Some (Some (Wrap ''failed to create allocation'' e), c, s, []))"

definition processChannelData ::
  "('r, 'n) server_env \<Rightarrow> ('r, 'n) server \<Rightarrow> server_context \<Rightarrow> ('r, 'n) handler_result" where
  "processChannelData E s c =
     (case turn_ChannelDataDecode (env_stun E) (cd_Raw (ctx_cdata c)) of
        Inl _ \<Rightarrow> Some (None, c, s, [])
      | Inr (number, data) \<Rightarrow>
          let c = c\<lparr>ctx_cdata := (ctx_cdata c)\<lparr>cd_Number := number, cd_Data := data\<rparr>\<rparr>;
              (err, pkts) = sendByBinding E s c (cd_Number (ctx_cdata c)) (cd_Data (ctx_cdata c))
          in Some (err, c, s, pkts))"

definition handlers ::
  "message_type \<rightharpoonup> (('r, 'n) server_env \<Rightarrow> ('r, 'n) server \<Rightarrow> server_context \<Rightarrow> ('r, 'n) handler_result)" where
  "handlers = [BindingRequest \<mapsto> processBindingRequest,
     AllocateRequest \<mapsto> processAllocateRequest,
     CreatePermissionRequest \<mapsto> processCreatePermissionRequest,
     RefreshRequest \<mapsto> processRefreshRequest,
     SendIndication \<mapsto> processSendIndication,
     channelBindRequest \<mapsto> processChannelBinding]"

definition needAuth :: "('r, 'n) server \<Rightarrow> server_context \<Rightarrow> bool" where
  "needAuth s c =
     (if sv_auth s = None then False
      else if mt_Class (msg_Type (ctx_request c)) = ClassIndication then False
      else if msg_Type (ctx_request c) = BindingRequest \<and> \<not> cfg_authForSTUN (ctx_cfg c) then False
      else True)"

text \<open>Selecting the handler by the type of the request.\<close>

definition dispatch ::
  "('r, 'n) server_env \<Rightarrow> ('r, 'n) server \<Rightarrow> server_context \<Rightarrow> ('r, 'n) handler_result" where
  "dispatch E s c =
     (case handlers (msg_Type (ctx_request c)) of
        Some h \<Rightarrow> h E s c
      | None \<Rightarrow> reply s (buildErr (env_stun E) c [SetErrorCode CodeBadRequest]))"

text \<open>
  The authentication part of \<open>processMessage\<close>: \<open>Inl\<close> carries the response code of an
  early return, \<open>Inr\<close> the context to go on with. The nonce manager's state changes either
  way. \<open>rnd\<close> are the random bytes of a fresh nonce.
\<close>

definition authenticate ::
  "('r, 'n) server_env \<Rightarrow> ('r, 'n) server \<Rightarrow> server_context \<Rightarrow> message_auth \<Rightarrow> bytes
   \<Rightarrow> (error_code \<times> server_context + server_context) \<times> ('r, 'n) server" where
  "authenticate E s c auth rnd =
     (let S = env_stun E;
          got = stun_NonceGetFrom S (ctx_request c);
          c = (case got of Inr v \<Rightarrow> c\<lparr>ctx_nonce := v\<rparr> | Inl _ \<Rightarrow> c)
      in if (case got of Inl e \<Rightarrow> e \<noteq> ErrAttributeNotFound | Inr _ \<Rightarrow> False)
         then (Inl (CodeBadRequest, c), s)
         else let ((validNonce, nonceErr), n) = env_Check E (sv_nonce s) (ctx_tuple c) (ctx_nonce c) (ctx_time c) rnd;
                  s = s\<lparr>sv_nonce := n\<rparr>
              in if nonceErr \<noteq> None \<and> nonceErr \<noteq> Some ErrStaleNonce then (Inl (CodeServerError, c), s)
                 else let c = c\<lparr>ctx_nonce := validNonce\<rparr>
                      in if stun_Get S (ctx_request c) AttrMessageIntegrity = Inl ErrAttributeNotFound
                         then (Inl (CodeUnauthorized, c), s)
                         else if nonceErr = Some ErrStaleNonce then (Inl (CodeStaleNonce, c), s)
                         else case auth (ctx_request c) of
                                (integrity, None) \<Rightarrow>
                                  (Inr (c\<lparr>ctx_integrity := (case integrity of Some i \<Rightarrow> i | None \<Rightarrow> [])\<rparr>), s)
                              | (_, Some _) \<Rightarrow> (Inl (CodeUnauthorized, c), s))"

definition processMessage ::
  "('r, 'n) server_env \<Rightarrow> ('r, 'n) server \<Rightarrow> server_context \<Rightarrow> bytes \<Rightarrow> ('r, 'n) handler_result" where
  "processMessage E s c rnd =
     (let S = env_stun E in
      case stun_Decode S (ctx_request c) of
        Inl _ \<Rightarrow> Some (None, c, s, [])
      | Inr m \<Rightarrow>
          let c = c\<lparr>ctx_request := m, ctx_realm := cfg_realm (ctx_cfg c)\<rparr>
          in if stun_Contains S m AttrFingerprint \<and> stun_FingerprintCheck S m \<noteq> None
             then reply s (buildErr S c [SetErrorCode CodeBadRequest])
             else case (if needAuth s c then sv_auth s else None) of
                    None \<Rightarrow> dispatch E s c
                  | Some auth \<Rightarrow>
                      (case authenticate E s c auth rnd of
                         (Inl (code, c), s) \<Rightarrow> reply s (buildErr S c [SetErrorCode code])
                       | (Inr c, s) \<Rightarrow> dispatch E s c))"

section \<open>Serving a packet\<close>

definition incSTUNMessages :: "metrics option \<Rightarrow> ('r, 'n) server \<Rightarrow> ('r, 'n) server option" where
  "incSTUNMessages m s =
     (case m of None \<Rightarrow> None
      | Some NoopMetrics \<Rightarrow> Some s
      | Some PromMetrics \<Rightarrow> Some (s\<lparr>sv_stunMessages := sv_stunMessages s + 1\<rparr>))"

definition server_process ::
  "('r, 'n) server_env \<Rightarrow> ('r, 'n) server \<Rightarrow> server_context \<Rightarrow> bytes \<Rightarrow> ('r, 'n) handler_result" where
  "server_process E s c rnd =
     (if stun_IsMessage (env_stun E) (msg_Raw (ctx_request c))
      then (case incSTUNMessages (cfg_metrics (ctx_cfg c)) s of
              None \<Rightarrow> None
            | Some s \<Rightarrow> processMessage E s c rnd)
      else if turn_IsChannelData (env_stun E) (msg_Raw (ctx_request c)) then processChannelData E s c
      else Some (Some ErrNotSTUNMessage, c, s, []))"

text \<open>\<open>strings.HasSuffix(err.Error(), "use of closed network connection")\<close>\<close>

definition isErrConnClosed :: "('r, 'n) server_env \<Rightarrow> go_error \<Rightarrow> bool" where
  "isErrConnClosed E err =
     (let msg = env_Error E err; suf = ''use of closed network connection''
      in length suf \<le> length msg \<and> drop (length msg - length suf) msg = suf)"

definition serveConn ::
  "('r, 'n) server_env \<Rightarrow> ('r, 'n) server \<Rightarrow> server_context \<Rightarrow> gotime \<Rightarrow> bytes \<Rightarrow> ('r, 'n) handler_result" where
  "serveConn E s c now rnd =
     (let c = c\<lparr>ctx_time := now, ctx_request := (ctx_request c)\<lparr>msg_Raw := ctx_buf c\<rparr>,
                ctx_cdata := (ctx_cdata c)\<lparr>cd_Raw := ctx_buf c\<rparr>\<rparr>
      in case ctx_addr c of
           Some (UDPAddr a) \<Rightarrow>
             let c = c\<lparr>ctx_client := \<lparr>addr_IP = addr_IP a, addr_Port = addr_Port a\<rparr>, ctx_proto := ProtoUDP\<rparr>
             in (case allowClient c (ctx_client c) of
                   None \<Rightarrow> None
                 | Some False \<Rightarrow> Some (None, c, s, [])
                 | Some True \<Rightarrow>
                     (case server_process E s (setTuple c) rnd of
                        None \<Rightarrow> None
                      | Some (Some processErr, c, s, pkts) \<Rightarrow> Some (None, c, s, pkts)
                      | Some (None, c, s, pkts) \<Rightarrow>
                          if length (msg_Raw (ctx_response c)) = 0 then Some (None, c, s, pkts)
                          else let pkt = \<lparr>pkt_Conn = ctx_conn c, pkt_Data = msg_Raw (ctx_response c), pkt_To = a\<rparr>
                               in (case snd (env_write E pkt) of
                                     None \<Rightarrow> Some (None, c, s, pkts @ [pkt])
                                   | Some writeErr \<Rightarrow>
                                       Some (if \<not> isErrConnClosed E writeErr then Some writeErr else None,
                                             c, s, pkts @ [pkt]))))
         | _ \<Rightarrow> Some (Some (OtherError ''unknown addr''), c, s, []))"

text \<open>
  What the reading worker puts into a context: \<open>n\<close> bytes of its 2048-byte buffer. The bytes
  that a pooled context holds beyond its length are all overwritten by the copy.
\<close>

definition prepareContext ::
  "('r, 'n) server \<Rightarrow> server_context \<Rightarrow> packet_conn \<Rightarrow> bytes \<Rightarrow> nat \<Rightarrow> net_addr \<Rightarrow> server_context" where
  "prepareContext s c conn buf n a =
     c\<lparr>ctx_conn := conn, ctx_buf := take n (fst (go_copy (replicate 2048 0) buf)), ctx_addr := Some a,
       ctx_server := sv_addr s, ctx_cfg := sv_cfg s\<rparr>"

text \<open>One datagram through a pooled context: prepare, serve, reset (\<open>putContext\<close>).\<close>

definition serveDatagram ::
  "('r, 'n) server_env \<Rightarrow> ('r, 'n) server \<Rightarrow> server_context \<Rightarrow> packet_conn \<Rightarrow> bytes \<Rightarrow> nat \<Rightarrow> net_addr
   \<Rightarrow> gotime \<Rightarrow> bytes \<Rightarrow> ('r, 'n) handler_result" where
  "serveDatagram E s c conn buf n a now rnd =
     map_option (\<lambda>(err, c, s, pkts). (err, reset (env_stun E) c, s, pkts))
       (serveConn E s (prepareContext s c conn buf n a) now rnd)"

section \<open>Peer data, collection, options\<close>

definition HandlePeerData ::
  "('r, 'n) server_env \<Rightarrow> ('r, 'n) server \<Rightarrow> bytes \<Rightarrow> five_tuple \<Rightarrow> addr \<Rightarrow> bytes \<Rightarrow> packet list" where
  "HandlePeerData E s d t a txid =
     (let destination = \<lparr>addr_IP = addr_IP (tuple_Client t), addr_Port = addr_Port (tuple_Client t)\<rparr>
      in case Bound (env_turn E) (sv_allocs s) t a of
           Inr n \<Rightarrow> [\<lparr>pkt_Conn = sv_conn s, pkt_Data = turn_ChannelDataEncode (env_stun E) n d,
                      pkt_To = destination\<rparr>]
         | Inl _ \<Rightarrow>
             (case turn_BuildDataIndication (env_stun E) txid d a of
                Inl _ \<Rightarrow> []
              | Inr m \<Rightarrow> [\<lparr>pkt_Conn = sv_conn s, pkt_Data = msg_Raw m, pkt_To = destination\<rparr>]))"

definition collect :: "('r, 'n) server_env \<Rightarrow> ('r, 'n) server \<Rightarrow> gotime \<Rightarrow> ('r, 'n) server" where
  "collect E s t = s\<lparr>sv_allocs := Prune (env_raddr E) (sv_allocs s) t\<rparr>"

definition setOptions :: "('r, 'n) server \<Rightarrow> 'n options \<Rightarrow> ('r, 'n) server" where
  "setOptions s opt = s\<lparr>sv_cfg := newConfig opt\<rparr>"

text \<open>
  \<open>server.New\<close>, without the registration of metrics and the goroutines it starts:
  \<open>reuse\<close> is \<open>reuseport.Available()\<close>.
\<close>

definition default_options :: "nonce_auth options \<Rightarrow> nonce_auth options" where
  "default_options opt =
     (let opt = (if opt_Workers opt = 0 then opt\<lparr>opt_Workers := 100\<rparr> else opt);
          opt = (if opt_CollectRate opt = 0 then opt\<lparr>opt_CollectRate := Second\<rparr> else opt);
          opt = (if opt_NonceManager opt = None
                 then opt\<lparr>opt_NonceManager := Some (NewNonceAuth (opt_NonceDuration opt))\<rparr> else opt);
          opt = (if opt_PeerRule opt = None then opt\<lparr>opt_PeerRule := Some AllowAll\<rparr> else opt)
      in if opt_ClientRule opt = None then opt\<lparr>opt_ClientRule := Some AllowAll\<rparr> else opt)"

definition NewServer ::
  "nonce_auth options \<Rightarrow> 'p \<Rightarrow> bool \<Rightarrow> go_error + ('p net_allocator, nonce_auth) server" where
  "NewServer opt ports reuse =
     (let opt = default_options opt in
      case NewNetAllocator (opt_LocalAddr opt) ports of
        Inl err \<Rightarrow> Inl err
      | Inr netAlloc \<Rightarrow>
          (case opt_LocalAddr opt of
             UDPAddr a \<Rightarrow>
               Inr \<lparr>sv_addr = \<lparr>addr_IP = addr_IP a, addr_Port = addr_Port a\<rparr>, sv_conn = opt_Conn opt,
                    sv_auth = opt_Auth opt,
                    sv_nonce = (case opt_NonceManager opt of Some n \<Rightarrow> n | None \<Rightarrow> NewNonceAuth 0),
                    sv_cfg = newConfig opt, sv_allocs = NewAllocator netAlloc,
                    sv_reusePort = reuse \<and> opt_ReusePort opt, sv_stunMessages = 0,
                    sv_maxWorkers = opt_Workers opt\<rparr>
           | OtherNetAddr \<Rightarrow> Inl (OtherError ''unexpected local addr'')))"

end
