(* ===== verification/Server_Effects.thy ===== *)
theory Server_Effects
  imports Turn_Server
begin

text \<open>
  What a packet can do to the server. \<open>packet_effect E c s s' pkts\<close> lists the ways in which
  handling the packet of context \<open>c\<close> takes the server from \<open>s\<close> to \<open>s'\<close> and writes
  \<open>pkts\<close> to peers: at most one operation of the allocator, always on the packet's own
  5-tuple, on a peer only if the filter allows it, and for no longer than the longest lifetime
  configured (\<open>lifetime_cap\<close>). Every handler is shown to have one of
  these effects; invariants are then proved by cases on the relation.

  Also here: what \<open>build\<close> guarantees of a response, and that the outcome of a packet does
  not depend on what a pooled context held before.
\<close>

section \<open>Responses\<close>

lemma add_all_keeps:
  assumes "stun_laws S" and "add_all S s m = (e, m')"
  shows "msg_Type m' = msg_Type m \<and> msg_TransactionID m' = msg_TransactionID m \<and>
         (msg_Raw m \<noteq> [] \<longrightarrow> msg_Raw m' \<noteq> [])"
  using assms(2)
proof (induction s arbitrary: m)
  case (Cons a s)
  then show ?case
    using stun_laws.type_AddTo [OF assms(1), of a m] stun_laws.txid_AddTo [OF assms(1), of a m]
      stun_laws.raw_AddTo [OF assms(1), of a m]
    by (auto split: sum.splits)
qed simp

lemma build_frame: "build S c cls method s = (e, c') \<Longrightarrow> \<exists>m. c' = c\<lparr>ctx_response := m\<rparr>"
  by (cases "mt_Class (msg_Type (ctx_request c)) = ClassIndication")
     (auto simp: build_eq split: prod.splits intro: exI [where x = "ctx_response c"])

lemma build_response:
  assumes "stun_laws S" and "mt_Class (msg_Type (ctx_request c)) \<noteq> ClassIndication"
    and "build S c cls method s = (e, c')"
  shows "msg_Type (ctx_response c') = NewType method cls \<and>
         msg_TransactionID (ctx_response c') = msg_TransactionID (ctx_request c) \<and>
         msg_Raw (ctx_response c') \<noteq> []"
  using assms(2,3) add_all_keeps [OF assms(1), of "response_setters c s" "response_header S c cls method" e]
    stun_laws.type_WriteHeader [OF assms(1)] stun_laws.txid_WriteHeader [OF assms(1)]
    stun_laws.raw_WriteHeader [OF assms(1)]
  by (auto simp: build_eq response_header_def NewType_def split: prod.splits)

text \<open>The response depends on the previous contents of the response message in no way.\<close>

lemma response_setters_response [simp]:
  "response_setters (c\<lparr>ctx_response := m\<rparr>) s = response_setters c s"
  by (simp add: response_setters_def)

lemma build_fresh:
  assumes "stun_laws S" and "mt_Class (msg_Type (ctx_request c)) \<noteq> ClassIndication"
  shows "build S (c\<lparr>ctx_response := m\<rparr>) cls method s = build S c cls method s"
proof -
  have "response_header S (c\<lparr>ctx_response := m\<rparr>) cls method = response_header S c cls method"
    unfolding response_header_def
    using stun_laws.Reset_rest [OF assms(1), where m = m and m' = "ctx_response c"] by simp
  then show ?thesis
    using assms(2) by (simp add: build_eq)
qed

section \<open>Effects\<close>

definition lifetime_cap :: "server_context \<Rightarrow> duration" where
  "lifetime_cap c = max (cfg_maxLifetime (ctx_cfg c)) (cfg_defaultLifetime (ctx_cfg c))"

lemma default_within_cap:
  "ctx_time c + cfg_defaultLifetime (ctx_cfg c) \<le> ctx_time c + lifetime_cap c"
  by (simp add: lifetime_cap_def)

inductive packet_effect ::
  "('r, 'n) server_env \<Rightarrow> server_context \<Rightarrow> ('r, 'n) server \<Rightarrow> ('r, 'n) server \<Rightarrow> packet list \<Rightarrow> bool"
  for E c s where
  nothing: "packet_effect E c s s []"
| allocate: "New (env_turn E) (env_raddr E) (sv_allocs s) (ctx_tuple c) u self_handler = (res, al) \<Longrightarrow>
    packet_effect E c s (s\<lparr>sv_allocs := al\<rparr>) []"
| remove: "Remove (env_turn E) (env_raddr E) (sv_allocs s) (ctx_tuple c) = (err, al) \<Longrightarrow>
    packet_effect E c s (s\<lparr>sv_allocs := al\<rparr>) []"
| refresh: "Refresh (env_turn E) (sv_allocs s) (ctx_tuple c) u = (err, al) \<Longrightarrow>
    packet_effect E c s (s\<lparr>sv_allocs := al\<rparr>) []"
| permit: "allowPeer c peer = Some True \<Longrightarrow> u \<le> ctx_time c + lifetime_cap c \<Longrightarrow>
    CreatePermission (env_turn E) (sv_allocs s) (ctx_tuple c) peer u = (err, al) \<Longrightarrow>
    packet_effect E c s (s\<lparr>sv_allocs := al\<rparr>) []"
| bind_channel: "allowPeer c peer = Some True \<Longrightarrow> u \<le> ctx_time c + lifetime_cap c \<Longrightarrow>
    ChannelBind (env_turn E) (sv_allocs s) (ctx_tuple c) n peer u = (err, al) \<Longrightarrow>
    packet_effect E c s (s\<lparr>sv_allocs := al\<rparr>) []"
| send: "Send (env_turn E) (env_write E) (sv_allocs s) (ctx_tuple c) peer d = (r, pkts) \<Longrightarrow>
    packet_effect E c s s pkts"
| send_bound: "SendBound (env_turn E) (env_write E) (sv_allocs s) (ctx_tuple c) n d = (r, pkts) \<Longrightarrow>
    packet_effect E c s s pkts"

text \<open>The shape of a handler's result: an effect, and a context that differs in the response.\<close>

definition handled ::
  "('r, 'n) server_env \<Rightarrow> ('r, 'n) server \<Rightarrow> server_context \<Rightarrow> ('r, 'n) handler_result \<Rightarrow> bool" where
  "handled E s c r \<longleftrightarrow> (case r of None \<Rightarrow> True | Some (err, c', s', pkts) \<Rightarrow>
     packet_effect E c s s' pkts \<and> (\<exists>m. c' = c\<lparr>ctx_response := m\<rparr>))"

lemma handled_reply:
  "packet_effect E c s s' [] \<Longrightarrow> handled E s c (reply s' (build S c cls method st))"
  using build_frame [of S c cls _ st] by (auto simp: handled_def reply_def split: prod.splits)

lemma handled_ok: "packet_effect E c s s' [] \<Longrightarrow> handled E s c (reply s' (buildOk S c st))"
  and handled_err: "packet_effect E c s s' [] \<Longrightarrow> handled E s c (reply s' (buildErr S c st))"
  by (simp_all add: buildOk_def buildErr_def handled_reply)

lemma handled_return:
  "packet_effect E c s s' pkts \<Longrightarrow> handled E s c (Some (e, c, s', pkts))"
  by (auto simp: handled_def intro: exI [where x = "ctx_response c"])

lemma handled_panic: "handled E s c None"
  by (simp add: handled_def)

lemmas handled_intros = handled_ok handled_err handled_return handled_panic packet_effect.intros


section \<open>Every handler has one of the effects\<close>

lemma handled_Binding: "handled E s c (processBindingRequest E s c)"
  unfolding processBindingRequest_def by (intro handled_intros)

lemma handled_Allocate: "handled E s c (processAllocateRequest E s c)"
  by (auto simp: processAllocateRequest_def Let_def split: sum.splits prod.splits
      intro!: handled_ok handled_err intro: packet_effect.intros)

lemma handled_Refresh: "handled E s c (processRefreshRequest E s c)"
  by (auto simp: processRefreshRequest_def Let_def split: sum.splits prod.splits option.splits
      intro!: handled_ok handled_err handled_return intro: packet_effect.intros)

text \<open>The part of \<open>processCreatePermissionRequest\<close> after the lifetime is known.\<close>

definition grantPermission ::
  "('r, 'n) server_env \<Rightarrow> ('r, 'n) server \<Rightarrow> server_context \<Rightarrow> addr \<Rightarrow> duration \<Rightarrow> ('r, 'n) handler_result" where
  "grantPermission E s c peer l =
     (case allowPeer c peer of
        None \<Rightarrow> None
      | Some False \<Rightarrow> reply s (buildErr (env_stun E) c [SetErrorCode CodeForbidden])
      | Some True \<Rightarrow>
          (case CreatePermission (env_turn E) (sv_allocs s) (ctx_tuple c) peer (ctx_time c + l) of
             (None, al) \<Rightarrow> reply (s\<lparr>sv_allocs := al\<rparr>) (buildOk (env_stun E) c [SetLifetime l])
           | (Some e, al) \<Rightarrow>
               if e = ErrAllocationMismatch
               then reply (s\<lparr>sv_allocs := al\<rparr>) (buildErr (env_stun E) c [SetErrorCode CodeAllocMismatch])
               else Some (Some (Wrap ''failed to create allocation'' e), c, s\<lparr>sv_allocs := al\<rparr>, [])))"

lemma processCreatePermissionRequest_eq:
  "processCreatePermissionRequest E s c =
     (case turn_PeerAddressGetFrom (env_stun E) (ctx_request c) of
        Inl err \<Rightarrow> Some (Some (Wrap ''failed to get create permission request addr'' err), c, s, [])
      | Inr peer \<Rightarrow>
          (case turn_LifetimeGetFrom (env_stun E) (ctx_request c) of
             Inr l \<Rightarrow> grantPermission E s c peer
                        (if l > cfg_maxLifetime (ctx_cfg c) then cfg_maxLifetime (ctx_cfg c) else l)
           | Inl err \<Rightarrow>
               if err = ErrAttributeNotFound then grantPermission E s c peer (cfg_defaultLifetime (ctx_cfg c))
               else Some (Some (Wrap ''failed to get lifetime'' err), c, s, [])))"
  unfolding processCreatePermissionRequest_def grantPermission_def Let_def case_prod_beta by (simp split: sum.split option.split bool.split)

lemma handled_grant:
  assumes "l \<le> lifetime_cap c"
  shows "handled E s c (grantPermission E s c peer l)"
proof -
  have within: "ctx_time c + l \<le> ctx_time c + lifetime_cap c" using assms by simp
  show ?thesis
    by (auto simp: grantPermission_def split: prod.splits option.splits bool.splits
        intro!: handled_ok handled_err handled_return handled_panic
        intro: packet_effect.nothing packet_effect.permit [OF _ within])
qed

lemma handled_CreatePermission: "handled E s c (processCreatePermissionRequest E s c)"
  unfolding processCreatePermissionRequest_eq
  by (auto simp: lifetime_cap_def split: sum.splits
      intro!: handled_grant handled_return packet_effect.nothing)

lemma handled_Send: "handled E s c (processSendIndication E s c)"
  by (auto simp: processSendIndication_def sendByPermission_def split: sum.splits prod.splits
      intro!: handled_return intro: packet_effect.intros)

lemma handled_ChannelBind: "handled E s c (processChannelBinding E s c)"
  by (auto simp: processChannelBinding_def Let_def
      split: sum.splits prod.splits option.splits bool.splits
      intro!: handled_ok handled_err handled_return handled_panic
      intro: packet_effect.nothing packet_effect.bind_channel [OF _ default_within_cap])

lemma handlers_cases:
  assumes "handlers t = Some h"
  obtains "t = BindingRequest" "h = processBindingRequest"
  | "t = AllocateRequest" "h = processAllocateRequest"
  | "t = CreatePermissionRequest" "h = processCreatePermissionRequest"
  | "t = RefreshRequest" "h = processRefreshRequest"
  | "t = SendIndication" "h = processSendIndication"
  | "t = channelBindRequest" "h = processChannelBinding"
  using assms unfolding handlers_def by (auto split: if_splits)

lemma handled_dispatch: "handled E s c (dispatch E s c)"
  by (auto simp: dispatch_def split: option.splits elim!: handlers_cases
      intro!: handled_Binding handled_Allocate handled_Refresh handled_CreatePermission handled_Send
        handled_ChannelBind handled_err packet_effect.nothing)


section \<open>From the handler to the packet\<close>

text \<open>The fields of a context that stay as they are while a packet is processed.\<close>

definition same_packet :: "server_context \<Rightarrow> server_context \<Rightarrow> bool" where
  "same_packet c c' \<longleftrightarrow> ctx_addr c' = ctx_addr c \<and> ctx_conn c' = ctx_conn c \<and>
     ctx_cfg c' = ctx_cfg c \<and> ctx_time c' = ctx_time c \<and> ctx_client c' = ctx_client c \<and>
     ctx_server c' = ctx_server c \<and> ctx_tuple c' = ctx_tuple c \<and> ctx_buf c' = ctx_buf c"

lemma same_packet_simps [simp]:
  "same_packet c c"
  "same_packet c (c\<lparr>ctx_response := m\<rparr>)"
  "same_packet c (c\<lparr>ctx_request := m\<rparr>)"
  "same_packet c (c\<lparr>ctx_realm := r\<rparr>)"
  "same_packet c (c\<lparr>ctx_nonce := v\<rparr>)"
  "same_packet c (c\<lparr>ctx_integrity := v\<rparr>)"
  "same_packet c (c\<lparr>ctx_cdata := d\<rparr>)"
  by (simp_all add: same_packet_def)

lemma same_packet_trans [trans]: "same_packet c c' \<Longrightarrow> same_packet c' c'' \<Longrightarrow> same_packet c c''"
  by (simp add: same_packet_def)

lemma packet_effect_cong:
  assumes "packet_effect E c' s s' pkts" and "same_packet c c'"
  shows "packet_effect E c s s' pkts"
  using assms
  by (cases rule: packet_effect.cases)
     (auto simp: same_packet_def allowPeer_def lifetime_cap_def intro: packet_effect.intros)

lemma handled_result:
  assumes "handled E s c (Some (e, c', s', pkts))"
  shows "packet_effect E c s s' pkts" and "same_packet c c'" and "ctx_request c' = ctx_request c"
  using assms by (auto simp: handled_def)

text \<open>The context with which authentication goes on, or stops.\<close>

definition auth_context :: "(error_code \<times> server_context + server_context) \<Rightarrow> server_context" where
  "auth_context r = (case r of Inl (_, c) \<Rightarrow> c | Inr c \<Rightarrow> c)"

lemma authenticate_frame:
  assumes "authenticate E s c auth rnd = (r, s')"
  shows "\<exists>n. s' = s\<lparr>sv_nonce := n\<rparr>" and "same_packet c (auth_context r)"
    and "ctx_request (auth_context r) = ctx_request c"
    and "ctx_response (auth_context r) = ctx_response c"
proof -
  have unchanged: "\<exists>n. s = s\<lparr>sv_nonce := n\<rparr>" by (rule exI [where x = "sv_nonce s"]) simp
  show "\<exists>n. s' = s\<lparr>sv_nonce := n\<rparr>"
    using assms unchanged
    by (auto simp: authenticate_def Let_def split: sum.splits prod.splits if_splits option.splits)
qed (use assms in \<open>auto simp: authenticate_def auth_context_def Let_def same_packet_def
       split: sum.splits prod.splits if_splits option.splits\<close>)

lemma nonce_unchanged: "\<exists>n. s = s\<lparr>sv_nonce := n\<rparr>" for s :: "('r, 'n) server"
  by (rule exI [where x = "sv_nonce s"]) simp

definition decoded :: "server_context \<Rightarrow> message \<Rightarrow> server_context" where
  "decoded c m = c\<lparr>ctx_request := m, ctx_realm := cfg_realm (ctx_cfg c)\<rparr>"

lemma decoded_simps [simp]:
  "ctx_request (decoded c m) = m" "same_packet c (decoded c m)" "ctx_response (decoded c m) = ctx_response c"
  "ctx_tuple (decoded c m) = ctx_tuple c" "ctx_time (decoded c m) = ctx_time c"
  "ctx_cfg (decoded c m) = ctx_cfg c" "ctx_nonce (decoded c m) = ctx_nonce c"
  by (simp_all add: decoded_def same_packet_def)

text \<open>The ways through \<open>processMessage\<close>.\<close>

lemma processMessage_cases:
  assumes "processMessage E s c rnd = r"
  obtains (undecodable) e where "stun_Decode (env_stun E) (ctx_request c) = Inl e" "r = Some (None, c, s, [])"
  | (fingerprint) m where "stun_Decode (env_stun E) (ctx_request c) = Inr m"
      "r = reply s (buildErr (env_stun E) (decoded c m) [SetErrorCode CodeBadRequest])"
  | (open_access) m where "stun_Decode (env_stun E) (ctx_request c) = Inr m" "\<not> needAuth s (decoded c m)"
      "r = dispatch E s (decoded c m)"
  | (rejected) m auth code c' s' where "stun_Decode (env_stun E) (ctx_request c) = Inr m"
      "needAuth s (decoded c m)" "sv_auth s = Some auth"
      "authenticate E s (decoded c m) auth rnd = (Inl (code, c'), s')"
      "r = reply s' (buildErr (env_stun E) c' [SetErrorCode code])"
  | (accepted) m auth c' s' where "stun_Decode (env_stun E) (ctx_request c) = Inr m"
      "needAuth s (decoded c m)" "sv_auth s = Some auth"
      "authenticate E s (decoded c m) auth rnd = (Inr c', s')" "r = dispatch E s' c'"
proof (cases "stun_Decode (env_stun E) (ctx_request c)")
  case (Inl e)
  then show thesis using assms undecodable by (simp add: processMessage_def)
next
  case (Inr m)
  note pm = assms [unfolded processMessage_def Let_def Inr sum.case, folded decoded_def]
  show thesis
  proof (cases "stun_Contains (env_stun E) m AttrFingerprint \<and> stun_FingerprintCheck (env_stun E) m \<noteq> None")
    case True
    then show thesis using pm fingerprint [OF Inr] by simp
  next
    case fp: False
    note pm' = pm [unfolded if_not_P [OF fp]]
    show thesis
    proof (cases "needAuth s (decoded c m)")
      case False
      then show thesis using pm' open_access [OF Inr False] by simp
    next
      case need: True
      then obtain auth where auth: "sv_auth s = Some auth"
        by (auto simp: needAuth_def split: if_splits)
      obtain res s' where au: "authenticate E s (decoded c m) auth rnd = (res, s')"
        by (metis surj_pair)
      show thesis
      proof (cases res)
        case l: (Inl p)
        then show thesis
          using pm' need auth au rejected [OF Inr need auth, of "fst p" "snd p" s'] by (cases p) simp
      next
        case r: (Inr c')
        then show thesis
          using pm' need auth au accepted [OF Inr need auth, of c' s'] by simp
      qed
    qed
  qed
qed


lemma reply_buildErr:
  assumes "reply s (buildErr S c st) = Some (e, c', s', pkts)"
  shows "s' = s" and "pkts = []" and "same_packet c c'" and "ctx_request c' = ctx_request c"
  using assms build_frame [of S c ClassErrorResponse "mt_Method (msg_Type (ctx_request c))" st]
  by (auto simp: reply_def buildErr_def split: prod.splits)

lemma processMessage_effect:
  assumes "processMessage E s c rnd = Some (e, c', s', pkts)"
  shows "(\<exists>n. packet_effect E c (s\<lparr>sv_nonce := n\<rparr>) s' pkts) \<and> same_packet c c'"
  using assms
proof (cases rule: processMessage_cases)
  case (undecodable e)
  then show ?thesis using nonce_unchanged [of s] packet_effect.nothing by (metis Pair_inject option.inject same_packet_simps(1))
next
  case (fingerprint m)
  then show ?thesis
    using nonce_unchanged [of s] reply_buildErr [OF fingerprint(2) [symmetric]] same_packet_trans
    by (metis decoded_simps(2) packet_effect.nothing)
next
  case (open_access m)
  then have h: "handled E s (decoded c m) (Some (e, c', s', pkts))"
    using handled_dispatch by metis
  show ?thesis
    using nonce_unchanged [of s] handled_result [OF h] packet_effect_cong same_packet_trans
    by (metis decoded_simps(2))
next
  case (rejected m auth code c1 s1)
  note f = authenticate_frame [OF rejected(4), unfolded auth_context_def sum.case prod.case]
  show ?thesis
    using f reply_buildErr [OF rejected(5) [symmetric]]
    by (metis decoded_simps(2) packet_effect.nothing same_packet_trans)
next
  case (accepted m auth c1 s1)
  note f = authenticate_frame [OF accepted(4), unfolded auth_context_def sum.case]
  have h: "handled E s1 c1 (Some (e, c', s', pkts))"
    using accepted(5) handled_dispatch by metis
  have "same_packet c c1" using f(2) same_packet_trans by (metis decoded_simps(2))
  then show ?thesis
    using f(1) handled_result [OF h] packet_effect_cong same_packet_trans by metis
qed

lemma processChannelData_effect:
  assumes "processChannelData E s c = Some (e, c', s', pkts)"
  shows "packet_effect E c s s' pkts" and "same_packet c c'" and "ctx_response c' = ctx_response c"
  using assms
  by (auto simp: processChannelData_def sendByBinding_def Let_def split: sum.splits prod.splits
      intro: packet_effect.intros)

text \<open>The nonce manager and the message counter may change besides the packet's own effect.\<close>

definition bookkeeping :: "('r, 'n) server \<Rightarrow> ('r, 'n) server \<Rightarrow> bool" where
  "bookkeeping s s' \<longleftrightarrow> (\<exists>n k. s' = s\<lparr>sv_nonce := n, sv_stunMessages := k\<rparr>)"

lemma bookkeeping_simps:
  assumes "bookkeeping s s'"
  shows "sv_allocs s' = sv_allocs s" "sv_cfg s' = sv_cfg s" "sv_addr s' = sv_addr s"
    "sv_auth s' = sv_auth s" "sv_conn s' = sv_conn s"
  using assms by (auto simp: bookkeeping_def)

lemma bookkeeping_refl: "bookkeeping s s"
  unfolding bookkeeping_def by (rule exI [where x = "sv_nonce s"], rule exI [where x = "sv_stunMessages s"]) simp

lemma server_process_effect:
  assumes "server_process E s c rnd = Some (e, c', s', pkts)"
  shows "(\<exists>s0. bookkeeping s s0 \<and> packet_effect E c s0 s' pkts) \<and> same_packet c c'"
proof (cases "stun_IsMessage (env_stun E) (msg_Raw (ctx_request c))")
  case True
  then obtain s1 where s1: "incSTUNMessages (cfg_metrics (ctx_cfg c)) s = Some s1"
    and pm: "processMessage E s1 c rnd = Some (e, c', s', pkts)"
    using assms by (auto simp: server_process_def split: option.splits)
  obtain k where k: "s1 = s\<lparr>sv_stunMessages := k\<rparr>"
    using s1 that [of "sv_stunMessages s"] that [of "sv_stunMessages s + 1"] by (auto simp: incSTUNMessages_def split: option.splits metrics.splits)
  have "bookkeeping s (s1\<lparr>sv_nonce := n\<rparr>)" for n
    unfolding bookkeeping_def k by (rule exI [where x = n], rule exI [where x = k]) simp
  then show ?thesis using processMessage_effect [OF pm] by blast
next
  case False
  then show ?thesis
    using assms bookkeeping_refl [of s] processChannelData_effect [of E s c e c' s' pkts]
    by (auto simp: server_process_def split: if_splits intro: packet_effect.nothing)
qed

text \<open>The context with which a packet from the UDP address \<open>a\<close> is processed.\<close>

definition packet_context :: "server_context \<Rightarrow> addr \<Rightarrow> gotime \<Rightarrow> server_context" where
  "packet_context c a now =
     setTuple (c\<lparr>ctx_time := now, ctx_request := (ctx_request c)\<lparr>msg_Raw := ctx_buf c\<rparr>,
                 ctx_cdata := (ctx_cdata c)\<lparr>cd_Raw := ctx_buf c\<rparr>,
                 ctx_client := a, ctx_proto := ProtoUDP\<rparr>)"

lemma packet_context_simps [simp]:
  "ctx_tuple (packet_context c a now) = \<lparr>tuple_Client = a, tuple_Server = ctx_server c, tuple_Proto = ProtoUDP\<rparr>"
  "ctx_cfg (packet_context c a now) = ctx_cfg c"
  "ctx_conn (packet_context c a now) = ctx_conn c"
  "ctx_time (packet_context c a now) = now"
  "msg_Raw (ctx_request (packet_context c a now)) = ctx_buf c"
  "ctx_response (packet_context c a now) = ctx_response c"
  "ctx_nonce (packet_context c a now) = ctx_nonce c"
  "cd_Raw (ctx_cdata (packet_context c a now)) = ctx_buf c"
  "ctx_client (packet_context c a now) = a"
  by (simp_all add: packet_context_def setTuple_def)


lemma serveConn_udp:
  assumes "ctx_addr c = Some (UDPAddr a)"
  shows "serveConn E s c now rnd =
    (case cfg_clientFilter (ctx_cfg c) of
       None \<Rightarrow> None
     | Some r \<Rightarrow>
         if rule_Action r a \<noteq> Allow
         then Some (None, c\<lparr>ctx_time := now, ctx_request := (ctx_request c)\<lparr>msg_Raw := ctx_buf c\<rparr>,
                           ctx_cdata := (ctx_cdata c)\<lparr>cd_Raw := ctx_buf c\<rparr>,
                           ctx_client := a, ctx_proto := ProtoUDP\<rparr>, s, [])
         else (case server_process E s (packet_context c a now) rnd of
                 None \<Rightarrow> None
               | Some (Some e, c, s, pkts) \<Rightarrow> Some (None, c, s, pkts)
               | Some (None, c, s, pkts) \<Rightarrow>
                   if length (msg_Raw (ctx_response c)) = 0 then Some (None, c, s, pkts)
                   else let pkt = \<lparr>pkt_Conn = ctx_conn c, pkt_Data = msg_Raw (ctx_response c), pkt_To = a\<rparr>
                        in (case snd (env_write E pkt) of
                              None \<Rightarrow> Some (None, c, s, pkts @ [pkt])
                            | Some e \<Rightarrow> Some (if \<not> isErrConnClosed E e then Some e else None, c, s, pkts @ [pkt]))))"
  unfolding serveConn_def Let_def
  by (simp add: assms allowClient_def packet_context_def split: option.split bool.split)

lemma serveConn_cases:
  assumes "serveConn E s c now rnd = Some (err, c', s', pkts)"
  obtains (not_udp) "\<nexists>a. ctx_addr c = Some (UDPAddr a)" "s' = s" "pkts = []"
  | (denied) a r where "ctx_addr c = Some (UDPAddr a)" "cfg_clientFilter (ctx_cfg c) = Some r"
      "rule_Action r a \<noteq> Allow" "s' = s" "pkts = []"
  | (failed) a r e where "ctx_addr c = Some (UDPAddr a)" "cfg_clientFilter (ctx_cfg c) = Some r"
      "rule_Action r a = Allow" "server_process E s (packet_context c a now) rnd = Some (Some e, c', s', pkts)"
  | (silent) a r where "ctx_addr c = Some (UDPAddr a)" "cfg_clientFilter (ctx_cfg c) = Some r"
      "rule_Action r a = Allow" "server_process E s (packet_context c a now) rnd = Some (None, c', s', pkts)"
      "msg_Raw (ctx_response c') = []"
  | (replied) a r relayed where "ctx_addr c = Some (UDPAddr a)" "cfg_clientFilter (ctx_cfg c) = Some r"
      "rule_Action r a = Allow" "server_process E s (packet_context c a now) rnd = Some (None, c', s', relayed)"
      "msg_Raw (ctx_response c') \<noteq> []"
      "pkts = relayed @ [\<lparr>pkt_Conn = ctx_conn c, pkt_Data = msg_Raw (ctx_response c'), pkt_To = a\<rparr>]"
proof (cases "\<exists>a. ctx_addr c = Some (UDPAddr a)")
  case False
  then have "s' = s \<and> pkts = []"
    using assms by (auto simp: serveConn_def Let_def split: option.splits net_addr.splits)
  then show thesis using not_udp False by blast
next
  case True
  then obtain a where a: "ctx_addr c = Some (UDPAddr a)" by blast
  obtain r where r: "cfg_clientFilter (ctx_cfg c) = Some r"
    using assms serveConn_udp [OF a, of E s now rnd] by (auto split: option.splits)
  show thesis
  proof (cases "rule_Action r a = Allow")
    case False
    then show thesis using assms serveConn_udp [OF a, of E s now rnd] r denied [OF a r] by simp
  next
    case True
    obtain e c1 s1 relayed where
      p: "server_process E s (packet_context c a now) rnd = Some (e, c1, s1, relayed)"
      using assms serveConn_udp [OF a, of E s now rnd] r True by (auto split: option.splits)
    have conn: "ctx_conn c1 = ctx_conn c"
      using server_process_effect [OF p] by (simp add: same_packet_def)
    have "\<not> rule_Action r a \<noteq> Allow" using True by simp
    note sc = assms [unfolded serveConn_udp [OF a] r option.case if_not_P [OF this] p prod.case]
    show thesis
    proof (cases e)
      case (Some x)
      then show thesis using sc p failed [OF a r True, of x] by simp
    next
      case None
      show thesis
      proof (cases "msg_Raw (ctx_response c1) = []")
        case t: True
        then show thesis using sc None p silent [OF a r True] by simp
      next
        case f: False
        then show thesis
          using sc None p conn replied [OF a r True, of relayed]
          by (auto simp: Let_def split: option.splits)
      qed
    qed
  qed
qed

lemma serveConn_effect:
  assumes "serveConn E s c now rnd = Some (err, c', s', pkts)"
  shows "s' = s \<and> pkts = [] \<or>
    (\<exists>a s0 relayed resp. ctx_addr c = Some (UDPAddr a) \<and> bookkeeping s s0 \<and>
       packet_effect E (packet_context c a now) s0 s' relayed \<and> pkts = relayed @ resp \<and>
       length resp \<le> 1 \<and> (\<forall>p \<in> set resp. pkt_Conn p = ctx_conn c \<and> pkt_To p = a))"
  using assms
proof (cases rule: serveConn_cases)
  case (failed a r e)
  then show ?thesis using server_process_effect [OF failed(4)] by (metis append_Nil2 empty_iff le0 list.set(1) list.size(3))
next
  case (silent a r)
  then show ?thesis using server_process_effect [OF silent(4)] by (metis append_Nil2 empty_iff le0 list.set(1) list.size(3))
next
  case (replied a r relayed)
  then show ?thesis using server_process_effect [OF replied(4)] by fastforce
qed auto

end
