(* ===== verification/Server_Samples.thy ===== *)
theory Server_Samples
  imports Server_Runs
begin

text \<open>
  A concrete server, its environment and some datagrams, on which the properties of the server
  are run: no authentication or one static credential, a filter that denies one peer subnet.
\<close>

definition sample_filter :: rule where
  "sample_filter = NewFilter Allow [SubnetRule \<lparr>sr_action = Deny,
     sr_net = \<lparr>net_IP = [10, 0, 0, 0], net_Mask = [255, 0, 0, 0]\<rparr>\<rparr>]"

definition sample_options :: "nonce_auth options" where
  "sample_options = \<lparr>opt_Software = [], opt_Realm = [], opt_Auth = None, opt_Conn = UDPConn 2,
     opt_LocalAddr = UDPAddr sample_server, opt_MetricsEnabled = False, opt_NonceManager = None,
     opt_PeerRule = Some sample_filter, opt_ClientRule = None, opt_CollectRate = 0, opt_Workers = 0,
     opt_NonceDuration = 0, opt_ManualStart = True, opt_AuthForSTUN = False, opt_ReusePort = False,
     opt_DebugCollect = False\<rparr>"

definition sample_config :: config where
  "sample_config = \<lparr>cfg_realm = [], cfg_maxLifetime = Hour, cfg_defaultLifetime = Minute,
     cfg_workers = 100, cfg_authForSTUN = False, cfg_debugCollect = False, cfg_software = [],
     cfg_peerFilter = Some sample_filter, cfg_clientFilter = Some AllowAll,
     cfg_metrics = Some NoopMetrics, cfg_metricsEnabled = False\<rparr>"

definition sample_srv :: "(os net_allocator, nonce_auth) server" where
  "sample_srv = \<lparr>sv_addr = sample_server, sv_conn = UDPConn 2, sv_auth = None, sv_nonce = NewNonceAuth 0,
     sv_cfg = sample_config,
     sv_allocs = NewAllocator (sample_net\<lparr>nal_defaultAddr := ip_String (addr_IP sample_server) @ '':0''\<rparr>),
     sv_reusePort = False,
     sv_stunMessages = 0, sv_maxWorkers = 100\<rparr>"

definition sample_env :: "(os net_allocator, nonce_auth) server_env" where
  "sample_env = \<lparr>env_turn = documented_turn, env_stun = documented_stun, env_raddr = sample_raddr,
     env_Check = NonceAuth_Check documented_turn, env_write = (\<lambda>p. (int (length (pkt_Data p)), None)),
     env_Error = (\<lambda>_. [])\<rparr>"

lemma sample_env_simps [simp]:
  "env_turn sample_env = documented_turn" "env_stun sample_env = documented_stun"
  "env_raddr sample_env = sample_raddr" "env_Check sample_env = NonceAuth_Check documented_turn"
  "snd (env_write sample_env p) = None"
  by (simp_all add: sample_env_def)

lemma sample_defaults:
  "default_options sample_options = sample_options\<lparr>opt_Workers := 100, opt_CollectRate := Second,
     opt_NonceManager := Some (NewNonceAuth 0), opt_ClientRule := Some AllowAll\<rparr>"
  by (simp add: default_options_def sample_options_def Let_def)

text \<open>Datagrams: a Binding request, an Allocate request, a CreatePermission request for a peer.\<close>

definition stun_header :: "byte \<Rightarrow> byte \<Rightarrow> byte \<Rightarrow> bytes" where
  "stun_header c t n = [c, t, 0, n, 0x21, 0x12, 0xA4, 0x42, 1, 2, 3, 4, 5, 6, 7, 8, 9, 10, 11, 12]"

definition binding_datagram :: bytes where
  "binding_datagram = stun_header 0 1 0"

definition allocate_datagram :: bytes where
  "allocate_datagram = stun_header 0 3 8 @ [0, 25, 0, 4, 17, 0, 0, 0]"

definition permission_datagram :: "bytes \<Rightarrow> bytes" where
  "permission_datagram x = stun_header 0 8 12 @ [0, 18, 0, 6, 0, 201] @ x @ [0, 0]"

lemma sample_server_ok: "NewServer sample_options sample_os False = Inr sample_srv"
  unfolding NewServer_def sample_defaults Let_def
  by (simp add: NewNetAllocator_def sample_options_def newConfig_def sample_server_def
      sample_srv_def sample_config_def NewAllocator_def sample_net_def Let_def)

lemma sample_run: "server_run sample_env sample_srv [] sample_srv"
  by (rule server_run.start)

section \<open>Decoding the datagrams\<close>

lemma decode_binding:
  "stun_Decode documented_stun (m\<lparr>msg_Raw := binding_datagram\<rparr>)
   = Inr \<lparr>msg_Type = BindingRequest, msg_TransactionID = [1, 2, 3, 4, 5, 6, 7, 8, 9, 10, 11, 12],
          msg_Attributes = [], msg_Raw = binding_datagram\<rparr>"
proof -
  have "stun_Decode documented_stun (zero_message\<lparr>msg_Raw := binding_datagram\<rparr>)
   = Inr \<lparr>msg_Type = BindingRequest, msg_TransactionID = [1, 2, 3, 4, 5, 6, 7, 8, 9, 10, 11, 12],
          msg_Attributes = [], msg_Raw = binding_datagram\<rparr>"
    by code_simp
  then show ?thesis
    using documented_stun.Decode_raw [of "m\<lparr>msg_Raw := binding_datagram\<rparr>" "zero_message\<lparr>msg_Raw := binding_datagram\<rparr>"]
    by simp
qed

lemma decode_allocate:
  "stun_Decode documented_stun (m\<lparr>msg_Raw := allocate_datagram\<rparr>)
   = Inr \<lparr>msg_Type = AllocateRequest, msg_TransactionID = [1, 2, 3, 4, 5, 6, 7, 8, 9, 10, 11, 12],
          msg_Attributes = [(25, [17, 0, 0, 0])], msg_Raw = allocate_datagram\<rparr>"
proof -
  have "stun_Decode documented_stun (zero_message\<lparr>msg_Raw := allocate_datagram\<rparr>)
   = Inr \<lparr>msg_Type = AllocateRequest, msg_TransactionID = [1, 2, 3, 4, 5, 6, 7, 8, 9, 10, 11, 12],
          msg_Attributes = [(25, [17, 0, 0, 0])], msg_Raw = allocate_datagram\<rparr>"
    by code_simp
  then show ?thesis
    using documented_stun.Decode_raw [of "m\<lparr>msg_Raw := allocate_datagram\<rparr>" "zero_message\<lparr>msg_Raw := allocate_datagram\<rparr>"]
    by simp
qed


section \<open>A datagram answered\<close>

lemma prepare_buf:
  "length buf \<le> 2048 \<Longrightarrow> n \<le> length buf \<Longrightarrow> take n (fst (go_copy (replicate 2048 0) buf)) = take n buf"
  by (simp add: go_copy_def Let_def min_def)

lemma documented_AddTo: "\<exists>m'. add_all documented_stun st m = (None, m')"
  by (induction st arbitrary: m) (simp_all add: documented_stun_def)

lemma documented_build:
  obtains c' where "build documented_stun c cls method st = (None, c')"
proof (cases "mt_Class (msg_Type (ctx_request c)) = ClassIndication")
  case False
  then show thesis
    using that documented_AddTo [of "response_setters c st" "response_header documented_stun c cls method"]
    by (auto simp: build_eq)
qed (use that in simp)

lemma handlers_simps [simp]:
  "handlers BindingRequest = Some processBindingRequest"
  "handlers AllocateRequest = Some processAllocateRequest"
  "handlers CreatePermissionRequest = Some processCreatePermissionRequest"
  "handlers RefreshRequest = Some processRefreshRequest"
  "handlers SendIndication = Some processSendIndication"
  "handlers channelBindRequest = Some processChannelBinding"
  by (simp_all add: handlers_def message_type_defs)

text \<open>The context of a datagram sent by the sample client to the sample server.\<close>

definition sample_context :: "bytes \<Rightarrow> server_context" where
  "sample_context d = newContext\<lparr>ctx_conn := UDPConn 2, ctx_buf := d, ctx_addr := Some (UDPAddr sample_client),
     ctx_server := sample_server, ctx_cfg := sample_config\<rparr>"

lemma sample_context_simps [simp]:
  "ctx_addr (sample_context d) = Some (UDPAddr sample_client)" "ctx_conn (sample_context d) = UDPConn 2"
  "ctx_cfg (sample_context d) = sample_config" "ctx_server (sample_context d) = sample_server"
  "ctx_buf (sample_context d) = d" "msg_Raw (ctx_response (sample_context d)) = []"
  "ctx_nonce (sample_context d) = []"
  by (simp_all add: sample_context_def newContext_def zero_message_def)

lemma sample_config_simps [simp]:
  "cfg_peerFilter sample_config = Some sample_filter" "cfg_clientFilter sample_config = Some AllowAll"
  "cfg_metrics sample_config = Some NoopMetrics" "cfg_software sample_config = []"
  "cfg_defaultLifetime sample_config = Minute" "cfg_maxLifetime sample_config = Hour"
  "cfg_authForSTUN sample_config = False"
  by (simp_all add: sample_config_def)

lemma sample_srv_simps [simp]:
  "sv_auth sample_srv = None" "sv_cfg sample_srv = sample_config" "sv_addr sample_srv = sample_server"
  "sv_conn sample_srv = UDPConn 2"
  by (simp_all add: sample_srv_def)

lemma packet_request:
  "ctx_request (packet_context c a now) = (ctx_request c)\<lparr>msg_Raw := ctx_buf c\<rparr>"
  by (simp add: packet_context_def setTuple_def)

text \<open>A server with the sample configuration and no authentication.\<close>

definition sample_like :: "('r, 'n) server \<Rightarrow> bool" where
  "sample_like s \<longleftrightarrow> sv_auth s = None \<and> sv_cfg s = sample_config \<and> sv_addr s = sample_server"

lemma sample_like_srv: "sample_like sample_srv" "sample_like (sample_srv\<lparr>sv_allocs := al\<rparr>)"
  by (simp_all add: sample_like_def)

lemma prepare_sample:
  "sample_like s \<Longrightarrow> length d \<le> 2048 \<Longrightarrow>
   prepareContext s newContext (UDPConn 2) d (length d) (UDPAddr sample_client) = sample_context d"
  by (simp add: prepareContext_def prepare_buf sample_context_def sample_like_def)

definition request_context :: "bytes \<Rightarrow> gotime \<Rightarrow> message \<Rightarrow> server_context" where
  "request_context d now m = decoded (packet_context (sample_context d) sample_client now) m"

lemma request_context_simps [simp]:
  "ctx_request (request_context d now m) = m" "ctx_conn (request_context d now m) = UDPConn 2"
  "ctx_tuple (request_context d now m) = sample_tuple" "ctx_time (request_context d now m) = now"
  "ctx_cfg (request_context d now m) = sample_config" "ctx_client (request_context d now m) = sample_client"
  by (simp_all add: request_context_def decoded_def sample_tuple_def)

lemma sample_dispatch:
  assumes "sample_like s" and "stun_IsMessage documented_stun d"
    and "\<And>m0. stun_Decode documented_stun (m0\<lparr>msg_Raw := d\<rparr>) = Inr m"
    and "\<not> stun_Contains documented_stun m AttrFingerprint"
  shows "server_process sample_env s (packet_context (sample_context d) sample_client now) rnd
         = dispatch sample_env s (request_context d now m)"
  using assms
  by (simp add: server_process_def incSTUNMessages_def processMessage_def packet_request Let_def
      needAuth_def sample_like_def request_context_def decoded_def)

lemma sample_serve:
  assumes "sample_like s" and "stun_IsMessage documented_stun d"
    and "\<And>m0. stun_Decode documented_stun (m0\<lparr>msg_Raw := d\<rparr>) = Inr m"
    and "\<not> stun_Contains documented_stun m AttrFingerprint"
    and "mt_Class (msg_Type m) \<noteq> ClassIndication"
    and "dispatch sample_env s (request_context d now m)
         = reply s' (build documented_stun (request_context d now m) cls method st)"
  shows "\<exists>c'. serveConn sample_env s (sample_context d) now [] = Some (None, c', s',
           [\<lparr>pkt_Conn = UDPConn 2, pkt_Data = msg_Raw (ctx_response c'), pkt_To = sample_client\<rparr>])"
proof -
  let ?c = "request_context d now m"
  obtain c' where b: "build documented_stun ?c cls method st = (None, c')"
    using documented_build by blast
  have r: "msg_Raw (ctx_response c') \<noteq> []" "ctx_conn c' = UDPConn 2"
    using build_response [OF documented_stun.stun_laws_axioms _ b] build_frame [OF b] assms(5) by auto
  have "serveConn sample_env s (sample_context d) now []
     = Some (None, c', s', [\<lparr>pkt_Conn = UDPConn 2, pkt_Data = msg_Raw (ctx_response c'), pkt_To = sample_client\<rparr>])"
    using r b by (simp add: serveConn_udp allowAll_Action_def sample_dispatch [OF assms(1-4)] assms(6)
        reply_def Let_def)
  then show ?thesis by blast
qed

lemma sample_reply:
  assumes "sample_like s" and "length d \<le> 2048" and "stun_IsMessage documented_stun d"
    and "\<And>m0. stun_Decode documented_stun (m0\<lparr>msg_Raw := d\<rparr>) = Inr m"
    and "\<not> stun_Contains documented_stun m AttrFingerprint"
    and "mt_Class (msg_Type m) \<noteq> ClassIndication"
    and "dispatch sample_env s (request_context d now m)
         = reply s' (build documented_stun (request_context d now m) cls method st)"
  shows "\<exists>raw. server_step sample_env s (EvDatagram (UDPConn 2) (UDPAddr sample_client) now)
           [\<lparr>pkt_Conn = UDPConn 2, pkt_Data = raw, pkt_To = sample_client\<rparr>] s'"
proof -
  from sample_serve [OF assms(1,3-7)] obtain c' where "serveConn sample_env s (sample_context d) now [] = Some (None, c', s',
           [\<lparr>pkt_Conn = UDPConn 2, pkt_Data = msg_Raw (ctx_response c'), pkt_To = sample_client\<rparr>])" by blast
  then have "serveDatagram sample_env s newContext (UDPConn 2) d (length d) (UDPAddr sample_client) now []
     = Some (None, reset documented_stun c', s',
             [\<lparr>pkt_Conn = UDPConn 2, pkt_Data = msg_Raw (ctx_response c'), pkt_To = sample_client\<rparr>])"
    using prepare_sample [OF assms(1,2)] by (simp add: serveDatagram_def)
  then show ?thesis using server_step.datagram by blast
qed

definition binding_message :: message where
  "binding_message = \<lparr>msg_Type = BindingRequest, msg_TransactionID = [1, 2, 3, 4, 5, 6, 7, 8, 9, 10, 11, 12],
     msg_Attributes = [], msg_Raw = binding_datagram\<rparr>"

definition allocate_message :: message where
  "allocate_message = \<lparr>msg_Type = AllocateRequest, msg_TransactionID = [1, 2, 3, 4, 5, 6, 7, 8, 9, 10, 11, 12],
     msg_Attributes = [(25, [17, 0, 0, 0])], msg_Raw = allocate_datagram\<rparr>"

lemma sample_message_types:
  "msg_Type binding_message = BindingRequest" "msg_Type allocate_message = AllocateRequest"
  "mt_Class BindingRequest = ClassRequest" "mt_Class AllocateRequest = ClassRequest"
  "mt_Method AllocateRequest = MethodAllocate" "tuple_Client sample_tuple = sample_client"
  by (simp_all add: binding_message_def allocate_message_def message_type_defs sample_tuple_def)

lemma sample_lengths: "length binding_datagram \<le> 2048" "length allocate_datagram \<le> 2048"
  by (simp_all add: binding_datagram_def allocate_datagram_def stun_header_def)

lemma sample_is_message:
  "stun_IsMessage documented_stun binding_datagram" "stun_IsMessage documented_stun allocate_datagram"
  by (simp_all add: documented_stun_def binding_datagram_def allocate_datagram_def stun_header_def)

lemma sample_no_fingerprint:
  "\<not> stun_Contains documented_stun binding_message AttrFingerprint"
  "\<not> stun_Contains documented_stun allocate_message AttrFingerprint"
  by (simp_all add: documented_stun_def binding_message_def allocate_message_def attr_code_def)

lemma sample_binding_step:
  "\<exists>raw. server_step sample_env sample_srv (EvDatagram (UDPConn 2) (UDPAddr sample_client) 100)
     [\<lparr>pkt_Conn = UDPConn 2, pkt_Data = raw, pkt_To = sample_client\<rparr>] sample_srv"
  by (rule sample_reply [OF sample_like_srv(1) sample_lengths(1) sample_is_message(1) decode_binding [folded binding_message_def] sample_no_fingerprint(1)])
     (simp_all add: sample_message_types dispatch_def processBindingRequest_def buildOk_def)

lemma sample_binding_serve:
  "\<exists>c'. serveConn sample_env sample_srv (sample_context binding_datagram) 100 [] = Some (None, c', sample_srv,
     [\<lparr>pkt_Conn = UDPConn 2, pkt_Data = msg_Raw (ctx_response c'), pkt_To = sample_client\<rparr>])"
  by (rule sample_serve [OF sample_like_srv(1) sample_is_message(1) decode_binding [folded binding_message_def] sample_no_fingerprint(1)])
     (simp_all add: sample_message_types dispatch_def processBindingRequest_def buildOk_def)

text \<open>The allocation the Allocate datagram makes at time 100.\<close>

definition sample_made :: allocation where
  "sample_made = committed sample_tuple (100 + Minute) self_handler sample_relayed (UDPConn 3)"

lemma sample_New:
  "\<exists>al. New documented_turn sample_raddr (sv_allocs sample_srv) sample_tuple (100 + Minute) self_handler
     = (Inr sample_relayed, al) \<and> al_allocs al = [sample_made]"
proof -
  have p: "tuple_Proto sample_tuple = ProtoUDP" by (simp add: sample_tuple_def)
  have v: "view documented_turn (sv_allocs sample_srv) sample_tuple = None"
    by (simp add: sample_srv_def NewAllocator_def view_def)
  have "\<exists>r'. ra_New sample_raddr (al_raddr (sv_allocs sample_srv)) ProtoUDP = (Inr (sample_relayed, UDPConn 3), r')"
    by (simp add: sample_srv_def NewAllocator_def net_raddr_def sample_net_eval sample_relayed_def)
  then obtain r' where "ra_New sample_raddr (al_raddr (sv_allocs sample_srv)) ProtoUDP = (Inr (sample_relayed, UDPConn 3), r')"
    by blast
  from documented.New_ok [OF p v this, of "100 + Minute" self_handler] show ?thesis
    by (simp add: sample_made_def sample_srv_def NewAllocator_def)
qed

lemma sample_allocate_step:
  "\<exists>raw al. server_step sample_env sample_srv (EvDatagram (UDPConn 2) (UDPAddr sample_client) 100)
     [\<lparr>pkt_Conn = UDPConn 2, pkt_Data = raw, pkt_To = sample_client\<rparr>] (sample_srv\<lparr>sv_allocs := al\<rparr>) \<and>
     al_allocs al = [sample_made]"
proof -
  from sample_New obtain al where al: "New documented_turn sample_raddr (sv_allocs sample_srv) sample_tuple
      (100 + Minute) self_handler = (Inr sample_relayed, al)" "al_allocs al = [sample_made]" by blast
  have tr: "turn_TransportGetFrom documented_stun allocate_message = Inr ProtoUDP" by code_simp
  have "dispatch sample_env sample_srv (request_context allocate_datagram 100 allocate_message)
     = reply (sample_srv\<lparr>sv_allocs := al\<rparr>) (build documented_stun (request_context allocate_datagram 100 allocate_message)
         ClassSuccessResponse MethodAllocate
         [SetXORMappedAddress sample_client, SetRelayedAddress sample_relayed, SetLifetime Minute])"
    using al(1) tr
    by (simp add: dispatch_def processAllocateRequest_def buildOk_def Let_def sample_message_types)
  from sample_reply [OF sample_like_srv(1) sample_lengths(2) sample_is_message(2) decode_allocate [folded allocate_message_def] sample_no_fingerprint(2) _ this]
  show ?thesis using al(2) by (auto simp: sample_message_types)
qed

end
