(* ===== verification/Server_Properties.thy ===== *)
theory Server_Properties
  imports Server_Samples
begin

text \<open>
  The properties of the server: invariants of all its runs, isolation of clients, the peer
  filter, and what a datagram is answered with.
\<close>

section \<open>Runs\<close>

lemma NewServer_initial:
  assumes "NewServer opt ports reuse = Inr s"
  shows "\<exists>r. sv_allocs s = NewAllocator r" and "sv_cfg s = newConfig (default_options opt)"
    and "sv_auth s = opt_Auth opt"
  using assms by (auto simp: NewServer_def Let_def default_options_def split: sum.splits net_addr.splits)

lemma default_options_rules:
  "opt_PeerRule (default_options opt) = Some (case opt_PeerRule opt of Some r \<Rightarrow> r | None \<Rightarrow> AllowAll)"
  "opt_ClientRule (default_options opt) = Some (case opt_ClientRule opt of Some r \<Rightarrow> r | None \<Rightarrow> AllowAll)"
  by (auto simp: default_options_def Let_def split: option.splits)

lemma run_invariant:
  assumes "turn_laws (env_turn E)" and "server_run E s0 tr s"
    and "table_wf (env_turn E) (sv_allocs s0)" and "lifetimes_set (sv_cfg s0)"
    and "all_perms (expires_by (now + Hour)) (sv_allocs s0)"
    and "\<forall>ev \<in> fst ` set tr. event_by now ev"
  shows "table_wf (env_turn E) (sv_allocs s) \<and> lifetimes_set (sv_cfg s) \<and>
         all_perms (expires_by (now + Hour)) (sv_allocs s)"
  using assms(2) assms(6)
proof (induction rule: server_run.induct)
  case start
  then show ?case using assms by simp
next
  case (more tr s' ev pkts s'')
  then have t: "event_by now ev" and IH: "table_wf (env_turn E) (sv_allocs s')" "lifetimes_set (sv_cfg s')"
    "all_perms (expires_by (now + Hour)) (sv_allocs s')" by auto
  show ?case
    using step_wf [OF assms(1) more.hyps(2) IH(1)] step_config(2) [OF more.hyps(2) IH(2)]
      step_bounded [OF more.hyps(2) IH(2) t IH(3)] by blast
qed

lemma run_allowed:
  assumes "turn_laws (env_turn E)" and "server_run E s0 tr s"
    and "table_wf (env_turn E) (sv_allocs s0)" and "cfg_peerFilter (sv_cfg s0) = Some r"
    and "all_perms (ip_allowed r) (sv_allocs s0)" and "EvReload \<notin> fst ` set tr"
  shows "table_wf (env_turn E) (sv_allocs s) \<and> cfg_peerFilter (sv_cfg s) = Some r \<and>
         all_perms (ip_allowed r) (sv_allocs s)"
  using assms(2,6)
proof (induction rule: server_run.induct)
  case start
  then show ?case using assms by simp
next
  case (more tr s' ev pkts s'')
  then have ev: "ev \<noteq> EvReload" and IH: "table_wf (env_turn E) (sv_allocs s')"
    "cfg_peerFilter (sv_cfg s') = Some r" "all_perms (ip_allowed r) (sv_allocs s')" by auto
  show ?case
    using step_wf [OF assms(1) more.hyps(2) IH(1)] step_config(1) [OF more.hyps(2) ev] IH(2)
      step_allowed [OF more.hyps(2) ev IH(2,3)] by simp
qed

text \<open>
  Claim C3. In every state the server reaches from \<open>New\<close> by datagrams, collector ticks,
  peer data and reloads, the allocation table has at most one allocation per 5-tuple, at most
  one permission per peer IP in an allocation and distinct ports and channels in a permission,
  and every permission and every channel binding expires at most one hour after the latest
  datagram, whatever lifetimes the clients asked for.
\<close>

theorem server_reachable_invariant:
  assumes "turn_laws (env_turn E)" and "NewServer opt ports reuse = Inr s0" and "server_run E s0 tr s"
    and "\<forall>ev \<in> fst ` set tr. event_by now ev"
  shows "table_wf (env_turn E) (sv_allocs s) \<and> all_perms (expires_by (now + Hour)) (sv_allocs s)"
proof -
  obtain r where r: "sv_allocs s0 = NewAllocator r" using NewServer_initial(1) [OF assms(2)] by blast
  show ?thesis
    using run_invariant [OF assms(1,3) _ _ _ assms(4)] NewServer_initial(2) [OF assms(2)]
      table_wf_New_empty [of "env_turn E" r] all_perms_NewAllocator [of _ r] r by simp
qed

theorem server_reachable_invariant_witness:
  "table_wf documented_turn (sv_allocs (collect sample_env sample_srv 70))"
proof -
  have "server_run sample_env sample_srv ([] @ [(EvCollect 70, [])]) (collect sample_env sample_srv 70)"
    by (rule server_run.more [OF sample_run server_step.tick])
  from server_reachable_invariant [of sample_env, OF _ sample_server_ok this, of 70]
  show ?thesis by (simp add: documented.turn_laws_axioms)
qed

lemma sent_where_allowed:
  assumes "turn_laws (env_turn E)" and "packet_effect E c s s' pkts" and "p \<in> set pkts"
    and wf: "table_wf (env_turn E) (sv_allocs s)" and al: "all_perms (ip_allowed r) (sv_allocs s)"
  shows "rule_Action r (pkt_To p) = Allow"
proof -
  have perm: "rule_Action r \<lparr>addr_IP = perm_IP q, addr_Port = k\<rparr> = Allow"
    if "view (env_turn E) (sv_allocs s) t = Some a" "q \<in> set (alloc_Permissions a)" for t a q k
    using that al rule_ignores_port [of r "\<lparr>addr_IP = perm_IP q, addr_Port = k\<rparr>" 0]
    by (auto simp: all_perms_def ip_allowed_def view_def dest!: find_SomeD)
  have chan: "rule_Action r x = Allow"
    if "view (env_turn E) (sv_allocs s) t = Some a" "x \<in> set (chan_addrs a n)" for t a x n
    using that perm by (auto simp: chan_addrs_def)
  from assms(2) show ?thesis
  proof cases
    case (send peer d res)
    then obtain a q where v: "view (env_turn E) (sv_allocs s) (ctx_tuple c) = Some a"
      and q: "q \<in> set (alloc_Permissions a)" "ip_Equal (addr_IP peer) (perm_IP q)" and p: "pkt_To p = peer"
      using assms(3) turn_laws.Send_eq [OF assms(1) wf, of "env_write E" "ctx_tuple c" peer d]
      by (auto simp: Let_def split: option.splits if_splits)
    show ?thesis
      using perm [OF v q(1), of "addr_Port peer"] rule_Action_cong(1) [of peer "\<lparr>addr_IP = perm_IP q, addr_Port = addr_Port peer\<rparr>" r] q(2) p
      by simp
  next
    case (send_bound n d res)
    then obtain a where "view (env_turn E) (sv_allocs s) (ctx_tuple c) = Some a"
      and "chan_addrs a n \<noteq> []" "pkt_To p = last (chan_addrs a n)"
      using assms(3) turn_laws.SendBound_eq [OF assms(1) wf, of "env_write E" "ctx_tuple c" n d]
      by (auto simp: Let_def split: option.splits if_splits)
    then show ?thesis using chan by (metis last_in_set)
  qed (use assms(3) in auto)
qed

text \<open>
  Claim C2. The peer filter holds end to end: in any run of a new server without a reload,
  every packet that handling a datagram causes is either a response, sent on the listening
  connection to the sender, or goes to a peer that the configured peer rule allows. No
  sequence of requests makes the server send to a denied address.
\<close>

theorem denied_peer_never_reached:
  assumes "turn_laws (env_turn E)" and "NewServer opt ports reuse = Inr s0" and "opt_PeerRule opt = Some r"
    and "server_run E s0 tr s" and "EvReload \<notin> fst ` set tr"
    and "server_step E s (EvDatagram conn src now) pkts s'" and "p \<in> set pkts"
  shows "(src = UDPAddr (pkt_To p) \<and> pkt_Conn p = conn) \<or> rule_Action r (pkt_To p) = Allow"
proof -
  obtain q where q: "sv_allocs s0 = NewAllocator q" using NewServer_initial(1) [OF assms(2)] by blast
  have "cfg_peerFilter (sv_cfg s0) = Some r"
    using NewServer_initial(2) [OF assms(2)] default_options_rules(1) [of opt] assms(3) by simp
  then have inv: "table_wf (env_turn E) (sv_allocs s)" "all_perms (ip_allowed r) (sv_allocs s)"
    using run_allowed [OF assms(1,4) _ _ _ assms(5)] table_wf_New_empty [of "env_turn E" q]
      all_perms_NewAllocator [of _ q] q by simp_all
  from datagram_effect [OF assms(6)] show ?thesis
  proof (elim disjE exE conjE)
    fix x c s1 relayed resp
    assume "src = UDPAddr x" "bookkeeping s s1" "packet_effect E c s1 s' relayed" "pkts = relayed @ resp"
      "\<forall>p \<in> set resp. pkt_Conn p = conn \<and> pkt_To p = x"
    then show ?thesis
      using sent_where_allowed [OF assms(1), of c s1 s' relayed p r] inv assms(7) bookkeeping_simps(1) [of s s1]
      by auto
  qed (use assms(7) in auto)
qed


theorem denied_peer_never_reached_witness:
  "\<exists>raw. server_step sample_env sample_srv (EvDatagram (UDPConn 2) (UDPAddr sample_client) 100)
     [\<lparr>pkt_Conn = UDPConn 2, pkt_Data = raw, pkt_To = sample_client\<rparr>] sample_srv \<and>
   (UDPAddr sample_client = UDPAddr (pkt_To \<lparr>pkt_Conn = UDPConn 2, pkt_Data = raw, pkt_To = sample_client\<rparr>) \<or>
    rule_Action sample_filter sample_client = Allow)"
proof -
  obtain raw where st: "server_step sample_env sample_srv (EvDatagram (UDPConn 2) (UDPAddr sample_client) 100)
     [\<lparr>pkt_Conn = UDPConn 2, pkt_Data = raw, pkt_To = sample_client\<rparr>] sample_srv"
    using sample_binding_step by blast
  have "opt_PeerRule sample_options = Some sample_filter" by (simp add: sample_options_def)
  from denied_peer_never_reached [of sample_env, OF _ sample_server_ok this sample_run _ st]
  show ?thesis using st by (auto simp: documented.turn_laws_axioms)
qed

section \<open>Isolation\<close>

lemma effect_isolation:
  assumes T: "turn_laws (env_turn E)" and "packet_effect E c s s' pkts"
    and wf: "table_wf (env_turn E) (sv_allocs s)" and other: "\<not> FiveTuple_Equal (env_turn E) (ctx_tuple c) t"
  shows "view (env_turn E) (sv_allocs s') t = view (env_turn E) (sv_allocs s) t"
  using assms(2)
proof cases
  case (allocate u res al)
  then show ?thesis
    using other
    by (cases rule: turn_laws.New_cases [OF T, where t = "ctx_tuple c" and R = "env_raddr E"
          and s = "sv_allocs s" and u = u and c = self_handler])
       (auto simp: turn_laws.view_append [OF T] spec_insert_def committed_def fresh_allocation_def
          turn_laws.view_raddr [OF T] turn_laws.view_readers [OF T] view_def find_append split: option.splits)
next
  case (remove err al)
  then show ?thesis
    using other turn_laws.view_Remove [OF T, of "env_raddr E" "sv_allocs s" "ctx_tuple c"]
    by (simp add: spec_remove_def)
next
  case (refresh u err al)
  then show ?thesis
    using other turn_laws.view_Refresh [OF T, of "sv_allocs s" "ctx_tuple c" u] by (simp add: spec_update_def)
next
  case (permit peer u err al)
  then show ?thesis
    using other turn_laws.view_CreatePermission [OF T, of "sv_allocs s" "ctx_tuple c" peer u]
    by (simp add: spec_update_def)
next
  case (bind_channel peer u n err al)
  then show ?thesis
  proof (cases "ChannelNumber_Valid (env_turn E) n")
    case True
    then show ?thesis
      using bind_channel other turn_laws.view_ChannelBind_spec [OF T wf True, of "ctx_tuple c" peer u]
      by (simp add: spec_bind_def spec_update_def)
  qed (use bind_channel in \<open>auto simp: ChannelBind_def\<close>)
qed auto

text \<open>
  Claim C4. Isolation of clients: a datagram from one address changes the allocation of no
  other 5-tuple. Whatever a client sends, the allocations, permissions and channels of every
  other client of the server are the same before and after.
\<close>

theorem client_isolation:
  assumes "turn_laws (env_turn E)" and "table_wf (env_turn E) (sv_allocs s)"
    and "server_step E s (EvDatagram conn (UDPAddr a) now) pkts s'"
    and "\<not> FiveTuple_Equal (env_turn E)
           \<lparr>tuple_Client = a, tuple_Server = sv_addr s, tuple_Proto = ProtoUDP\<rparr> t"
  shows "view (env_turn E) (sv_allocs s') t = view (env_turn E) (sv_allocs s) t"
  using datagram_effect [OF assms(3)]
proof (elim disjE exE conjE)
  fix x c s0 relayed resp
  assume "UDPAddr a = UDPAddr x" "bookkeeping s s0" "packet_effect E c s0 s' relayed"
    "ctx_tuple c = \<lparr>tuple_Client = x, tuple_Server = sv_addr s, tuple_Proto = ProtoUDP\<rparr>"
  then show ?thesis
    using effect_isolation [OF assms(1), of c s0 s' relayed t] assms(2,4) bookkeeping_simps(1) [of s s0] by simp
qed simp

theorem client_isolation_witness:
  "\<exists>raw al. server_step sample_env sample_srv (EvDatagram (UDPConn 2) (UDPAddr sample_client) 100)
     [\<lparr>pkt_Conn = UDPConn 2, pkt_Data = raw, pkt_To = sample_client\<rparr>] (sample_srv\<lparr>sv_allocs := al\<rparr>) \<and>
   al_allocs al = [sample_made] \<and>
   view documented_turn al (sample_tuple\<lparr>tuple_Client := sample_peer\<rparr>)
     = view documented_turn (sv_allocs sample_srv) (sample_tuple\<lparr>tuple_Client := sample_peer\<rparr>)"
proof -
  obtain raw al where st: "server_step sample_env sample_srv (EvDatagram (UDPConn 2) (UDPAddr sample_client) 100)
     [\<lparr>pkt_Conn = UDPConn 2, pkt_Data = raw, pkt_To = sample_client\<rparr>] (sample_srv\<lparr>sv_allocs := al\<rparr>)"
    and al: "al_allocs al = [sample_made]"
    using sample_allocate_step by blast
  have ne: "\<not> FiveTuple_Equal documented_turn
     \<lparr>tuple_Client = sample_client, tuple_Server = sample_server, tuple_Proto = ProtoUDP\<rparr>
     (sample_tuple\<lparr>tuple_Client := sample_peer\<rparr>)"
    by (simp add: documented_turn_def addr_equal_doc_def sample_defs)
  have wf: "table_wf documented_turn (sv_allocs sample_srv)"
    by (simp add: sample_srv_def table_wf_New_empty)
  show ?thesis
    using st al client_isolation [of sample_env, simplified, OF documented.turn_laws_axioms wf st] ne by auto
qed

end
