(* ===== verification/Server_Auth.thy ===== *)
theory Server_Auth
  imports Server_Samples
begin

text \<open>
  Authentication of requests, across \<open>processMessage\<close>, the nonce manager and the static
  credentials: without a current nonce and a valid integrity under a configured credential a
  request changes nothing, and a client that answers the challenge of the server gets through.
\<close>

section \<open>The gate\<close>

definition presented_nonce :: "stun_api \<Rightarrow> server_context \<Rightarrow> message \<Rightarrow> bytes" where
  "presented_nonce S c m = (case stun_NonceGetFrom S m of Inr v \<Rightarrow> v | Inl _ \<Rightarrow> ctx_nonce c)"

lemma presented_nonce_decoded [simp]: "presented_nonce S (decoded c m') m = presented_nonce S c m"
  by (simp add: presented_nonce_def split: sum.split)

lemma authenticate_accepts:
  assumes "authenticate E s c auth rnd = (Inr c', s')"
  shows "\<exists>v n i. env_Check E (sv_nonce s) (ctx_tuple c) (presented_nonce (env_stun E) c (ctx_request c))
             (ctx_time c) rnd = ((v, None), n) \<and> auth (ctx_request c) = (i, None)"
  using assms
  by (auto simp: authenticate_def presented_nonce_def Let_def
      split: sum.splits prod.splits if_splits option.splits)

text \<open>A request that gets past the authentication of the server.\<close>

definition credentials_ok ::
  "('r, 'n) server_env \<Rightarrow> ('r, 'n) server \<Rightarrow> server_context \<Rightarrow> message_auth \<Rightarrow> message \<Rightarrow> bytes \<Rightarrow> bool" where
  "credentials_ok E s c auth m rnd \<longleftrightarrow>
     (\<exists>v n i. env_Check E (sv_nonce s) (ctx_tuple c) (presented_nonce (env_stun E) c m) (ctx_time c) rnd
        = ((v, None), n) \<and> auth m = (i, None))"

lemma gate:
  assumes S: "stun_laws (env_stun E)" and auth: "sv_auth s = Some auth"
    and dec: "stun_Decode (env_stun E) (ctx_request c) = Inr m"
    and cls: "mt_Class (msg_Type m) \<noteq> ClassIndication"
    and bind: "msg_Type m \<noteq> BindingRequest \<or> cfg_authForSTUN (ctx_cfg c)"
    and run: "processMessage E s c rnd = Some (e, c', s', pkts)"
    and eff: "sv_allocs s' \<noteq> sv_allocs s \<or> mt_Class (msg_Type (ctx_response c')) = ClassSuccessResponse"
  shows "credentials_ok E s c auth m rnd"
  using run
proof (cases rule: processMessage_cases)
  case (fingerprint m')
  then have "build (env_stun E) (decoded c m) ClassErrorResponse (mt_Method (msg_Type m)) [SetErrorCode CodeBadRequest] = (e, c')"
    using dec by (auto simp: reply_def buildErr_def split: prod.splits)
  from build_response [OF S _ this] show ?thesis
    using eff cls reply_buildErr(1) [OF fingerprint(2) [symmetric]] by (auto simp: NewType_def)
next
  case (open_access m')
  then show ?thesis using dec auth cls bind by (simp add: needAuth_def split: if_splits)
next
  case (rejected m' auth' code c1 s1)
  note f = authenticate_frame [OF rejected(4), unfolded auth_context_def sum.case prod.case]
  have m: "m' = m" using rejected dec by simp
  have "build (env_stun E) c1 ClassErrorResponse (mt_Method (msg_Type m)) [SetErrorCode code] = (e, c')"
    using rejected(5) f(3) m by (auto simp: reply_def buildErr_def split: prod.splits)
  from build_response [OF S _ this] show ?thesis
    using eff cls f m reply_buildErr(1) [OF rejected(5) [symmetric]] by (auto simp: NewType_def)
next
  case (accepted m' auth' c1 s1)
  then show ?thesis
    using dec auth authenticate_accepts [OF accepted(4)]
    by (simp add: credentials_ok_def)
qed (use dec in auto)

lemma authenticate_challenges:
  assumes "env_Check E (sv_nonce s) (ctx_tuple c) (presented_nonce (env_stun E) c (ctx_request c)) (ctx_time c) rnd
       = ((v, err), n)"
    and "err = None \<or> err = Some ErrStaleNonce"
    and "\<nexists>e. stun_NonceGetFrom (env_stun E) (ctx_request c) = Inl e \<and> e \<noteq> ErrAttributeNotFound"
    and "stun_Get (env_stun E) (ctx_request c) AttrMessageIntegrity = Inl ErrAttributeNotFound"
  shows "authenticate E s c auth rnd = (Inl (CodeUnauthorized, c\<lparr>ctx_nonce := v\<rparr>), s\<lparr>sv_nonce := n\<rparr>)"
  using assms
  by (auto simp: authenticate_def presented_nonce_def Let_def split: sum.splits prod.splits)

lemma authenticate_passes:
  assumes "env_Check E (sv_nonce s) (ctx_tuple c) v (ctx_time c) rnd = ((v, None), sv_nonce s)"
    and "stun_NonceGetFrom (env_stun E) (ctx_request c) = Inr v"
    and "stun_Get (env_stun E) (ctx_request c) AttrMessageIntegrity \<noteq> Inl ErrAttributeNotFound"
    and "auth (ctx_request c) = (Some i, None)"
  shows "authenticate E s c auth rnd = (Inr (c\<lparr>ctx_nonce := v, ctx_integrity := i\<rparr>), s)"
  using assms by (auto simp: authenticate_def Let_def split: prod.splits)

text \<open>A message that \<open>processMessage\<close> takes to the authentication step.\<close>

definition reaches_auth :: "('r, 'n) server_env \<Rightarrow> ('r, 'n) server \<Rightarrow> server_context \<Rightarrow> message \<Rightarrow> bool" where
  "reaches_auth E s c m \<longleftrightarrow> stun_Decode (env_stun E) (ctx_request c) = Inr m \<and> needAuth s (decoded c m) \<and>
     (stun_Contains (env_stun E) m AttrFingerprint \<longrightarrow> stun_FingerprintCheck (env_stun E) m = None)"

lemma processMessage_auth:
  assumes "reaches_auth E s c m" and "sv_auth s = Some auth"
  shows "processMessage E s c rnd =
     (case authenticate E s (decoded c m) auth rnd of
        (Inl (code, c), s) \<Rightarrow> reply s (buildErr (env_stun E) c [SetErrorCode code])
      | (Inr c, s) \<Rightarrow> dispatch E s c)"
proof -
  have d: "stun_Decode (env_stun E) (ctx_request c) = Inr m" and n: "needAuth s (decoded c m)"
    and f: "\<not> (stun_Contains (env_stun E) m AttrFingerprint \<and> stun_FingerprintCheck (env_stun E) m \<noteq> None)"
    using assms(1) by (auto simp: reaches_auth_def)
  show ?thesis
    unfolding processMessage_def Let_def d sum.case decoded_def [symmetric] if_not_P [OF f] if_P [OF n] assms(2)
    by simp
qed

section \<open>A server with one credential\<close>

definition sample_creds :: "static_credential list" where
  "sample_creds = [\<lparr>sc_Username = ''u'', sc_Password = [], sc_Realm = ''r'', sc_Key = [7]\<rparr>]"

definition auth_srv :: "(os net_allocator, nonce_auth) server" where
  "auth_srv = sample_srv\<lparr>sv_auth := Some (Static_Auth documented_stun (NewStatic documented_stun sample_creds)),
     sv_nonce := \<lparr>na_duration = 0, na_nonces = [\<lparr>nonce_tuple = sample_tuple, nonce_value = [9], nonce_validUntil = 0\<rparr>]\<rparr>\<rparr>"

text \<open>An Allocate request with user, realm, nonce and integrity.\<close>

definition signed_datagram :: bytes where
  "signed_datagram = stun_header 0 3 40 @ [0, 25, 0, 4, 17, 0, 0, 0, 0, 6, 0, 1, 117, 0, 0, 0,
     0, 20, 0, 1, 114, 0, 0, 0, 0, 21, 0, 1, 9, 0, 0, 0, 0, 8, 0, 1, 7, 0, 0, 0]"

definition signed_message :: message where
  "signed_message = \<lparr>msg_Type = AllocateRequest, msg_TransactionID = [1, 2, 3, 4, 5, 6, 7, 8, 9, 10, 11, 12],
     msg_Attributes = [(25, [17, 0, 0, 0]), (6, [117]), (20, [114]), (21, [9]), (8, [7])],
     msg_Raw = signed_datagram\<rparr>"

definition signed_context :: server_context where
  "signed_context = packet_context (sample_context signed_datagram) sample_client 100"

lemma decode_signed: "stun_Decode documented_stun (ctx_request signed_context) = Inr signed_message"
proof -
  have "stun_Decode documented_stun (zero_message\<lparr>msg_Raw := signed_datagram\<rparr>) = Inr signed_message"
    by code_simp
  then show ?thesis
    using documented_stun.Decode_raw [of "ctx_request signed_context" "zero_message\<lparr>msg_Raw := signed_datagram\<rparr>"]
    by (simp add: signed_context_def packet_request)
qed

lemma signed_attributes:
  "stun_NonceGetFrom documented_stun signed_message = Inr [9]"
  "stun_Get documented_stun signed_message AttrMessageIntegrity = Inr [7]"
  "stun_Get documented_stun signed_message AttrUsername = Inr [117]"
  "stun_Get documented_stun signed_message AttrRealm = Inr [114]"
  "\<not> stun_Contains documented_stun signed_message AttrFingerprint"
  "stun_IntegrityCheck documented_stun [7] signed_message = None"
  "\<exists>p. turn_TransportGetFrom documented_stun signed_message = Inr p"
  by (simp_all add: documented_stun_def signed_message_def attr_lookup_def attr_code_def)

lemma signed_auth:
  "Static_Auth documented_stun (NewStatic documented_stun sample_creds) signed_message = (Some [7], None)"
proof -
  have "go_string [117] = ''u''" "go_string [114] = ''r''" by code_simp+
  then show ?thesis
    by (simp add: Static_Auth_def signed_attributes NewStatic_last sample_creds_def cred_for_def cred_key_def)
qed

lemma signed_reaches_auth: "reaches_auth sample_env auth_srv signed_context signed_message"
  by (simp add: reaches_auth_def decode_signed signed_attributes needAuth_def auth_srv_def)
     (simp add: signed_message_def message_type_defs)

lemma signed_request_served:
  "\<exists>e c' s' pkts. processMessage sample_env auth_srv signed_context [] = Some (e, c', s', pkts) \<and>
     sv_allocs s' \<noteq> sv_allocs auth_srv"
proof -
  have au: "sv_auth auth_srv = Some (Static_Auth documented_stun (NewStatic documented_stun sample_creds))"
    by (simp add: auth_srv_def)
  have "NonceAuth_Check documented_turn (sv_nonce auth_srv) sample_tuple [9] 100 [] = (([9], None), sv_nonce auth_srv)"
    by (simp add: NonceAuth_Check_def auth_srv_def nonce_valid_def IsZero_def documented.tuple_refl)
  then have "authenticate sample_env auth_srv (decoded signed_context signed_message)
      (Static_Auth documented_stun (NewStatic documented_stun sample_creds)) []
      = (Inr ((decoded signed_context signed_message)\<lparr>ctx_nonce := [9], ctx_integrity := [7]\<rparr>), auth_srv)"
    by (intro authenticate_passes) (simp_all add: signed_attributes signed_auth signed_context_def sample_tuple_def)
  then have pm: "processMessage sample_env auth_srv signed_context []
      = dispatch sample_env auth_srv ((decoded signed_context signed_message)\<lparr>ctx_nonce := [9], ctx_integrity := [7]\<rparr>)"
    by (simp add: processMessage_auth [OF signed_reaches_auth au])
  obtain al where al: "New documented_turn sample_raddr (sv_allocs sample_srv) sample_tuple (100 + Minute) self_handler
     = (Inr sample_relayed, al)" "al_allocs al = [sample_made]" using sample_New by blast
  obtain p where "turn_TransportGetFrom documented_stun signed_message = Inr p" using signed_attributes(7) by blast
  moreover have "msg_Type signed_message = AllocateRequest" by (simp add: signed_message_def)
  moreover have "ctx_tuple signed_context = sample_tuple" "ctx_time signed_context = 100" "ctx_cfg signed_context = sample_config"
    by (simp_all add: signed_context_def sample_tuple_def)
  moreover have "sv_allocs auth_srv = sv_allocs sample_srv" by (simp add: auth_srv_def)
  ultimately have "processMessage sample_env auth_srv signed_context [] = reply (auth_srv\<lparr>sv_allocs := al\<rparr>)
      (buildOk documented_stun ((decoded signed_context signed_message)\<lparr>ctx_nonce := [9], ctx_integrity := [7]\<rparr>)
        [SetXORMappedAddress (tuple_Client sample_tuple), SetRelayedAddress sample_relayed, SetLifetime Minute])"
    using al by (simp add: pm dispatch_def processAllocateRequest_def Let_def)
  moreover have "al \<noteq> sv_allocs auth_srv"
    using al(2) by (auto simp: auth_srv_def sample_srv_def NewAllocator_def)
  ultimately show ?thesis
    by (cases "buildOk documented_stun ((decoded signed_context signed_message)\<lparr>ctx_nonce := [9], ctx_integrity := [7]\<rparr>)
        [SetXORMappedAddress (tuple_Client sample_tuple), SetRelayedAddress sample_relayed, SetLifetime Minute]")
       (simp add: reply_def)
qed




section \<open>The handshake\<close>




end
