(* ===== verification/Server_Replies.thy ===== *)
theory Server_Replies
  imports Server_Samples
begin

text \<open>
  What the server answers: at most one response per request, to the sender, with the method and
  transaction id of the request; nothing to indications; the outcome of each handler; what it
  does with data from peers; that a context taken from the pool behaves like a new one; and
  when serving a datagram panics.
\<close>

section \<open>Requests\<close>

text \<open>A handler's result for a request: an error, or a response that \<open>build\<close> has made.\<close>

definition answers :: "stun_api \<Rightarrow> server_context \<Rightarrow> ('r, 'n) handler_result \<Rightarrow> bool" where
  "answers S c r \<longleftrightarrow> (case r of
     Some (None, c', s', pkts) \<Rightarrow> pkts = [] \<and>
       (\<exists>cls st. cls \<in> {ClassSuccessResponse, ClassErrorResponse} \<and>
          build S c cls (mt_Method (msg_Type (ctx_request c))) st = (None, c'))
   | Some (Some e, c', s', pkts) \<Rightarrow> pkts = []
   | None \<Rightarrow> True)"

lemma answers_ok: "answers S c (reply s (buildOk S c st))"
  and answers_err: "answers S c (reply s (buildErr S c st))"
  by (auto simp: answers_def reply_def buildOk_def buildErr_def split: prod.splits option.splits)

lemma answers_return: "answers S c (Some (Some e, c', s', []))"
  and answers_panic: "answers S c None"
  by (simp_all add: answers_def)

lemmas answers_intros = answers_ok answers_err answers_return answers_panic

lemma answers_dispatch:
  assumes "mt_Class (msg_Type (ctx_request c)) \<noteq> ClassIndication"
  shows "answers (env_stun E) c (dispatch E s c)"
proof (cases "handlers (msg_Type (ctx_request c)) :: (('a, 'b) server_env \<Rightarrow> _) option")
  case None
  then show ?thesis by (simp add: dispatch_def answers_intros)
next
  case (Some h)
  have Allocate: "answers (env_stun E) c (processAllocateRequest E s c)"
    by (auto simp: processAllocateRequest_def Let_def split: sum.splits prod.splits intro!: answers_intros)
  have Refresh: "answers (env_stun E) c (processRefreshRequest E s c)"
    by (auto simp: processRefreshRequest_def Let_def split: sum.splits prod.splits option.splits
        intro!: answers_intros)
  have grant: "answers (env_stun E) c (grantPermission E s c peer l)" for peer l
    by (auto simp: grantPermission_def split: prod.splits option.splits bool.splits intro!: answers_intros)
  have Permission: "answers (env_stun E) c (processCreatePermissionRequest E s c)"
    by (auto simp: processCreatePermissionRequest_eq split: sum.splits intro!: grant answers_intros)
  have Channel: "answers (env_stun E) c (processChannelBinding E s c)"
    by (auto simp: processChannelBinding_def Let_def split: sum.splits prod.splits option.splits bool.splits
        intro!: answers_intros)
  from Some show ?thesis
    by (rule handlers_cases)
       (use Some assms Allocate Refresh Permission Channel in
         \<open>auto simp: dispatch_def processBindingRequest_def answers_ok message_type_defs\<close>)
qed

lemma build_auth_type:
  assumes "stun_laws S" and "same_packet c0 c" and "mt_Class (msg_Type (ctx_request c)) \<noteq> ClassIndication"
    and "answers S c (Some (None, c', s', pkts))"
  shows "pkts = [] \<and> (\<exists>cls \<in> {ClassSuccessResponse, ClassErrorResponse}.
     msg_Type (ctx_response c') = NewType (mt_Method (msg_Type (ctx_request c))) cls) \<and>
     msg_TransactionID (ctx_response c') = msg_TransactionID (ctx_request c) \<and>
     msg_Raw (ctx_response c') \<noteq> []"
proof -
  from assms(4) obtain cls st where cls: "cls \<in> {ClassSuccessResponse, ClassErrorResponse}"
    and b: "build S c cls (mt_Method (msg_Type (ctx_request c))) st = (None, c')" and p: "pkts = []"
    by (auto simp: answers_def)
  show ?thesis using build_response [OF assms(1,3) b] cls p by auto
qed

text \<open>A decoded request leads to a result of this shape, whatever way it takes.\<close>

lemma processMessage_answers:
  assumes "stun_laws (env_stun E)" and "stun_Decode (env_stun E) (ctx_request c) = Inr m"
    and "mt_Class (msg_Type m) \<noteq> ClassIndication" and run: "processMessage E s c rnd = Some (e, c', s', pkts)"
  shows "pkts = [] \<and> (e = None \<longrightarrow> (\<exists>cls \<in> {ClassSuccessResponse, ClassErrorResponse}.
     msg_Type (ctx_response c') = NewType (mt_Method (msg_Type m)) cls) \<and>
     msg_TransactionID (ctx_response c') = msg_TransactionID m \<and> msg_Raw (ctx_response c') \<noteq> [])"
proof -
  have fin: ?thesis if "answers (env_stun E) c1 (Some (e, c', s', pkts))" "ctx_request c1 = m" for c1
    using that build_auth_type [OF assms(1), of c1 c1 c' s' pkts] assms(3)
    by (cases e) (auto simp: answers_def)
  from run show ?thesis
  proof (cases rule: processMessage_cases)
    case (fingerprint m')
    then show ?thesis
      using fin [of "decoded c m"] assms(2) answers_err [of "env_stun E" "decoded c m" s] by simp
  next
    case (open_access m')
    then show ?thesis
      using fin [of "decoded c m"] assms(2,3) answers_dispatch [of "decoded c m" E s] by simp
  next
    case (rejected m' auth code c1 s1)
    note f = authenticate_frame [OF rejected(4), unfolded auth_context_def sum.case prod.case]
    show ?thesis
      using fin [of c1] rejected assms(2) f(3) answers_err [of "env_stun E" c1 s1] by simp
  next
    case (accepted m' auth c1 s1)
    note f = authenticate_frame [OF accepted(4), unfolded auth_context_def sum.case]
    show ?thesis
      using fin [of c1] accepted assms(2,3) f(3) answers_dispatch [of c1 E s1] by simp
  qed (use assms(2) in auto)
qed

text \<open>
  Claim C6. A request is answered with at most one packet, and that packet is its response: it
  goes to the sender over the connection the request came in on, and it is a success or error
  response with the method and the transaction id of the request. Nothing is sent to peers.
\<close>

theorem reply_matches_request:
  assumes "stun_laws (env_stun E)" and "ctx_addr c = Some (UDPAddr a)"
    and "stun_IsMessage (env_stun E) (ctx_buf c)"
    and "stun_Decode (env_stun E) ((ctx_request c)\<lparr>msg_Raw := ctx_buf c\<rparr>) = Inr m"
    and "mt_Class (msg_Type m) \<noteq> ClassIndication"
    and "serveConn E s c now rnd = Some (err, c', s', pkts)" and "pkts \<noteq> []"
  shows "\<exists>cls \<in> {ClassSuccessResponse, ClassErrorResponse}.
     pkts = [\<lparr>pkt_Conn = ctx_conn c, pkt_Data = msg_Raw (ctx_response c'), pkt_To = a\<rparr>] \<and>
     msg_Type (ctx_response c') = NewType (mt_Method (msg_Type m)) cls \<and>
     msg_TransactionID (ctx_response c') = msg_TransactionID m \<and> msg_Raw (ctx_response c') \<noteq> []"
proof -
  have dec: "stun_Decode (env_stun E) (ctx_request (packet_context c a now)) = Inr m"
    using assms(4) by (simp add: packet_request)
  have pm: "\<exists>s1. processMessage E s1 (packet_context c a now) rnd = Some (e, c', s', p)"
    if "server_process E s (packet_context c a now) rnd = Some (e, c', s', p)" for e p
    using that assms(3) by (auto simp: server_process_def split: option.splits)
  note ans = processMessage_answers [OF assms(1) dec assms(5)]
  from assms(6) show ?thesis
  proof (cases rule: serveConn_cases)
    case (failed b r e)
    then show ?thesis using pm [of "Some e" pkts] ans assms(2,7) by auto
  next
    case (silent b r)
    then show ?thesis using pm [of None pkts] ans assms(2,7) by auto
  next
    case (replied b r relayed)
    then have b: "b = a" using assms(2) by simp
    then obtain s1 where "processMessage E s1 (packet_context c a now) rnd = Some (None, c', s', relayed)"
      using pm [of None relayed] replied by auto
    from ans [OF this] show ?thesis using replied(6) b by auto
  qed (use assms(7) in auto)
qed


theorem reply_matches_request_witness:
  "\<exists>c' cls. serveConn sample_env sample_srv (sample_context binding_datagram) 100 [] = Some (None, c', sample_srv,
     [\<lparr>pkt_Conn = UDPConn 2, pkt_Data = msg_Raw (ctx_response c'), pkt_To = sample_client\<rparr>]) \<and>
   msg_Type (ctx_response c') = NewType MethodBinding cls \<and>
   msg_TransactionID (ctx_response c') = [1, 2, 3, 4, 5, 6, 7, 8, 9, 10, 11, 12]"
proof -
  obtain c' where sc: "serveConn sample_env sample_srv (sample_context binding_datagram) 100 [] = Some (None, c', sample_srv,
     [\<lparr>pkt_Conn = UDPConn 2, pkt_Data = msg_Raw (ctx_response c'), pkt_To = sample_client\<rparr>])"
    using sample_binding_serve by blast
  have dec: "stun_Decode documented_stun ((ctx_request (sample_context binding_datagram))\<lparr>msg_Raw := binding_datagram\<rparr>)
      = Inr binding_message"
    using decode_binding by (simp add: binding_message_def)
  have m: "mt_Class (msg_Type binding_message) \<noteq> ClassIndication" "mt_Method (msg_Type binding_message) = MethodBinding"
    "msg_TransactionID binding_message = [1, 2, 3, 4, 5, 6, 7, 8, 9, 10, 11, 12]"
    by (simp_all add: binding_message_def message_type_defs)
  show ?thesis
    using sc reply_matches_request [of sample_env "sample_context binding_datagram" sample_client binding_message,
        OF _ _ _ _ m(1) sc] dec documented_stun.stun_laws_axioms sample_is_message(1) m
    by auto
qed

section \<open>Indications\<close>

lemma incSTUNMessages_allocs: "incSTUNMessages m s = Some s1 \<Longrightarrow> sv_allocs s1 = sv_allocs s"
  by (auto simp: incSTUNMessages_def split: option.splits metrics.splits)

lemma dispatch_indication:
  assumes "mt_Class (msg_Type (ctx_request c)) = ClassIndication"
    and "dispatch E s c = Some (e, c', s', pkts)"
  shows "s' = s \<and> c' = c \<and> (pkts = [] \<or> (msg_Type (ctx_request c) = SendIndication \<and>
     (\<exists>d peer. turn_ParseDataAndPeer (env_stun E) (ctx_request c) = Inr (d, peer) \<and>
        pkts = snd (Send (env_turn E) (env_write E) (sv_allocs s) (ctx_tuple c) peer d))))"
proof (cases "handlers (msg_Type (ctx_request c)) :: (('a, 'b) server_env \<Rightarrow> _) option")
  case None
  then show ?thesis using assms by (auto simp: dispatch_def buildErr_def reply_def)
next
  case (Some h)
  from Some show ?thesis
    by (rule handlers_cases)
       (use Some assms in \<open>auto simp: dispatch_def message_type_defs processSendIndication_def sendByPermission_def
          split: sum.splits prod.splits\<close>)
qed

lemma processMessage_indication:
  assumes "stun_Decode (env_stun E) (ctx_request c) = Inr m" and "mt_Class (msg_Type m) = ClassIndication"
    and "processMessage E s c rnd = Some (e, c', s', pkts)"
  shows "s' = s \<and> ctx_response c' = ctx_response c \<and> (pkts = [] \<or> (msg_Type m = SendIndication \<and>
     (\<exists>d peer. turn_ParseDataAndPeer (env_stun E) m = Inr (d, peer) \<and>
        pkts = snd (Send (env_turn E) (env_write E) (sv_allocs s) (ctx_tuple c) peer d))))"
  using assms(3)
proof (cases rule: processMessage_cases)
  case (fingerprint m')
  then show ?thesis using assms(1,2) by (simp add: buildErr_def reply_def)
next
  case (open_access m')
  then show ?thesis using assms(1,2) dispatch_indication [of "decoded c m" E s e c' s' pkts] by auto
next
  case (rejected m' auth code c1 s1)
  then show ?thesis using assms(1,2) by (simp add: needAuth_def split: if_splits)
next
  case (accepted m' auth c1 s1)
  then show ?thesis using assms(1,2) by (simp add: needAuth_def split: if_splits)
qed (use assms(1) in auto)

text \<open>
  Claim C7. An indication is never answered and changes no allocation: the only packets it can
  cause are those \<open>Allocator.Send\<close> writes for a Send indication, with the data and the
  peer of the indication.
\<close>

theorem indication_never_answered:
  assumes "ctx_addr c = Some (UDPAddr a)" and "msg_Raw (ctx_response c) = []"
    and "stun_IsMessage (env_stun E) (ctx_buf c)"
    and "stun_Decode (env_stun E) ((ctx_request c)\<lparr>msg_Raw := ctx_buf c\<rparr>) = Inr m"
    and "mt_Class (msg_Type m) = ClassIndication"
    and "serveConn E s c now rnd = Some (err, c', s', pkts)"
  shows "sv_allocs s' = sv_allocs s \<and> (pkts = [] \<or> (msg_Type m = SendIndication \<and>
     (\<exists>d peer. turn_ParseDataAndPeer (env_stun E) m = Inr (d, peer) \<and>
        pkts = snd (Send (env_turn E) (env_write E) (sv_allocs s)
          \<lparr>tuple_Client = a, tuple_Server = ctx_server c, tuple_Proto = ProtoUDP\<rparr> peer d))))"
proof -
  have dec: "stun_Decode (env_stun E) (ctx_request (packet_context c a now)) = Inr m"
    using assms(4) by (simp add: packet_request)
  have pm: "\<exists>s1. sv_allocs s1 = sv_allocs s \<and> processMessage E s1 (packet_context c a now) rnd = Some (e, c', s', p)"
    if "server_process E s (packet_context c a now) rnd = Some (e, c', s', p)" for e p
    using that assms(3) by (auto simp: server_process_def split: option.splits dest: incSTUNMessages_allocs)
  note ind = processMessage_indication [OF dec assms(5)]
  from assms(6) show ?thesis
  proof (cases rule: serveConn_cases)
    case (failed b r e)
    then show ?thesis using pm [of "Some e" pkts] ind assms(1) by fastforce
  next
    case (silent b r)
    then show ?thesis using pm [of None pkts] ind assms(1) by fastforce
  next
    case (replied b r relayed)
    then have b: "b = a" using assms(1) by simp
    then obtain s1 where "processMessage E s1 (packet_context c a now) rnd = Some (None, c', s', relayed)"
      using pm [of None relayed] replied by auto
    from ind [OF this] show ?thesis using replied(5) assms(2) by simp
  qed auto
qed


definition indication_datagram :: bytes where
  "indication_datagram = stun_header 0 0x16 20 @ [0, 19, 0, 2, 5, 6, 0, 0, 0, 18, 0, 6, 0, 201, 127, 0, 0, 2, 0, 0]"

definition indication_message :: message where
  "indication_message = \<lparr>msg_Type = SendIndication, msg_TransactionID = [1, 2, 3, 4, 5, 6, 7, 8, 9, 10, 11, 12],
     msg_Attributes = [(19, [5, 6]), (18, [0, 201, 127, 0, 0, 2])], msg_Raw = indication_datagram\<rparr>"

lemma decode_indication:
  "stun_Decode documented_stun (m\<lparr>msg_Raw := indication_datagram\<rparr>) = Inr indication_message"
proof -
  have "stun_Decode documented_stun (zero_message\<lparr>msg_Raw := indication_datagram\<rparr>) = Inr indication_message"
    by code_simp
  then show ?thesis
    using documented_stun.Decode_raw [of "m\<lparr>msg_Raw := indication_datagram\<rparr>" "zero_message\<lparr>msg_Raw := indication_datagram\<rparr>"]
    by simp
qed

theorem indication_never_answered_witness:
  "\<exists>c'. serveConn sample_env (sample_srv\<lparr>sv_allocs := sample_table\<rparr>) (sample_context indication_datagram) 100 []
     = Some (None, c', sample_srv\<lparr>sv_allocs := sample_table\<rparr>,
         [\<lparr>pkt_Conn = UDPConn 3, pkt_Data = [5, 6], pkt_To = sample_peer\<rparr>]) \<and>
   (\<exists>d peer. turn_ParseDataAndPeer documented_stun indication_message = Inr (d, peer) \<and>
      [\<lparr>pkt_Conn = UDPConn 3, pkt_Data = [5, 6], pkt_To = sample_peer\<rparr>]
      = snd (Send documented_turn (env_write sample_env) sample_table sample_tuple peer d))"
proof -
  let ?s = "sample_srv\<lparr>sv_allocs := sample_table\<rparr>"
  have im: "stun_IsMessage documented_stun indication_datagram"
    by (simp add: documented_stun_def indication_datagram_def stun_header_def)
  have m: "\<not> stun_Contains documented_stun indication_message AttrFingerprint"
    "msg_Type indication_message = SendIndication"
    "turn_ParseDataAndPeer documented_stun indication_message = Inr ([5, 6], sample_peer)"
    by (simp_all add: documented_stun_def indication_message_def attr_code_def attr_lookup_def addr_of_bytes_def
        bytes_nat_def sample_peer_def)
  have snd: "Send documented_turn W sample_table sample_tuple sample_peer [5, 6]
     = (W \<lparr>pkt_Conn = UDPConn 3, pkt_Data = [5, 6], pkt_To = sample_peer\<rparr>,
        [\<lparr>pkt_Conn = UDPConn 3, pkt_Data = [5, 6], pkt_To = sample_peer\<rparr>])" for W
    by (simp add: documented.Send_eq [OF sample_table_wf] sample_view sample_allocation_def sample_peer_def Let_def)
  have "dispatch sample_env ?s (request_context indication_datagram 100 indication_message)
     = Some (None, request_context indication_datagram 100 indication_message, ?s,
         [\<lparr>pkt_Conn = UDPConn 3, pkt_Data = [5, 6], pkt_To = sample_peer\<rparr>])"
    using m snd by (simp add: dispatch_def processSendIndication_def sendByPermission_def split: prod.splits)
  then have sc: "serveConn sample_env ?s (sample_context indication_datagram) 100 []
     = Some (None, request_context indication_datagram 100 indication_message, ?s,
         [\<lparr>pkt_Conn = UDPConn 3, pkt_Data = [5, 6], pkt_To = sample_peer\<rparr>])"
    using sample_dispatch [OF sample_like_srv(2) im decode_indication m(1), of sample_table 100 "[]"]
    by (simp add: serveConn_udp allowAll_Action_def request_context_def decoded_def)
  have cls: "mt_Class (msg_Type indication_message) = ClassIndication"
    by (simp add: m message_type_defs)
  from indication_never_answered [of "sample_context indication_datagram" sample_client sample_env, OF _ _ _ _ cls sc]
  show ?thesis
    using sc decode_indication im by (auto simp: sample_tuple_def)
qed

end
