(* ===== verification/Server_Reload.thy ===== *)
theory Server_Reload
  imports Turn_Server
begin

text \<open>
  The way of a reload: the management endpoint (\<open>internal/manage/manage.go\<close>), the notifier with its channel of one place
  (\<open>internal/reload/notify.go\<close>), and the updater that hands new options to its servers (\<open>internal/server/reload.go\<close>). The servers are a heap, because several
  may subscribe to one updater.
\<close>

section \<open>Notifier and manager\<close>

text \<open>The number of notifications in the channel. \<open>Notify\<close> on a full channel waits (\<open>None\<close>).\<close>

definition Notify :: "nat \<Rightarrow> nat option" where
  "Notify n = (if n < 1 then Some (n + 1) else None)"

definition next_reload :: "nat \<Rightarrow> nat option" where
  "next_reload n = (if n > 0 then Some (n - 1) else None)"

definition ServeHTTP :: "string \<Rightarrow> nat \<Rightarrow> (nat \<times> string \<times> nat) option" where
  "ServeHTTP path n =
     (if path = ''/reload'' then map_option (\<lambda>n'. (200, ''server will be reloaded soon'', n')) (Notify n)
      else Some (404, ''management endpoint not found'', n))"

section \<open>Updater\<close>

record 'n updater =
  up_v :: "'n options"
  up_listeners :: "nat list"

definition NewUpdater :: "'n options \<Rightarrow> 'n updater" where
  "NewUpdater opt = \<lparr>up_v = opt, up_listeners = []\<rparr>"

definition Subscribe :: "nat \<Rightarrow> 'n updater \<Rightarrow> 'n updater" where
  "Subscribe s u = u\<lparr>up_listeners := up_listeners u @ [s]\<rparr>"

type_synonym ('r, 'n) servers = "nat \<Rightarrow> ('r, 'n) server"

definition Set :: "'n options \<Rightarrow> 'n updater \<Rightarrow> ('r, 'n) servers \<Rightarrow> 'n updater \<times> ('r, 'n) servers" where
  "Set opt u h = (u\<lparr>up_v := opt\<rparr>, fold (\<lambda>s h. h(s := setOptions (h s) opt)) (up_listeners u) h)"

lemma set_loop: "fold (\<lambda>s h. h(s := setOptions (h s) opt)) ss h s = (if s \<in> set ss then setOptions (h s) opt else h s)"
  by (induction ss arbitrary: h) (auto simp: setOptions_def)

text \<open>After \<open>Set\<close> exactly the subscribed servers have the new configuration; their allocations and nonces are the same.\<close>

theorem Set_reaches_listeners:
  "up_v (fst (Set opt u h)) = opt \<and> snd (Set opt u h) s = (if s \<in> set (up_listeners u) then (h s)\<lparr>sv_cfg := newConfig opt\<rparr> else h s)"
  unfolding Set_def by (simp add: set_loop) (simp add: setOptions_def)

text \<open>
  A second request to reload that comes before the first was taken from the channel waits in the handler: the answer has status
  200 already, but its body is not written.
\<close>

theorem second_reload_waits:
  assumes "ServeHTTP ''/reload'' n = Some (st, body, n')"
  shows "ServeHTTP ''/reload'' n' = None \<and> (\<exists>n''. next_reload n' = Some n'' \<and> ServeHTTP ''/reload'' n'' \<noteq> None)"
  using assms by (auto simp: ServeHTTP_def Notify_def next_reload_def split: if_splits)

end
