(* ===== verification/Worker_Pool.thy ===== *)
theory Worker_Pool
  imports Go_Prelude "HOL-Library.Multiset"
begin

text \<open>
  The worker pool of \<open>internal/server/worker_pool.go\<close> as interleaved steps. A step is a critical section of the mutex, a send on a channel, a receive, or a
  run of \<open>WorkerFunc\<close>; what a goroutine does between two of them is local to it. A worker and its channel are one number; the channel of a worker that has
  ended is used again for a new one (\<open>sync.Pool\<close>), or a new one is made.

  \<open>'c\<close> is the type of contexts. Times are integers. A message is a context, or \<open>nil\<close> (\<open>None\<close>), which ends the worker.
\<close>

section \<open>State\<close>

datatype 'c phase = Waiting | Serving 'c | Releasing | Leaving | Gone

text \<open>
  \<open>wp_sends\<close> are the sends that goroutines are about to make. \<open>wp_accepted\<close> are the contexts for which \<open>Serve\<close> has returned or will return true,
  \<open>wp_served\<close> those for which \<open>WorkerFunc\<close> has returned.
\<close>

record 'c worker_pool =
  wp_max :: nat
  wp_idle :: int
  wp_cap :: nat
  wp_count :: nat
  wp_mustStop :: bool
  wp_started :: bool
  wp_ready :: "nat list"
  wp_lastUse :: "nat \<Rightarrow> int"
  wp_phase :: "'c phase list"
  wp_chan :: "nat \<Rightarrow> 'c option list"
  wp_sends :: "(nat \<times> 'c option) list"
  wp_accepted :: "'c list"
  wp_rejected :: "'c list"
  wp_served :: "'c list"

definition new_pool :: "nat \<Rightarrow> int \<Rightarrow> nat \<Rightarrow> 'c worker_pool" where
  "new_pool maxWorkersCount idle cap = \<lparr>wp_max = maxWorkersCount, wp_idle = idle, wp_cap = cap, wp_count = 0, wp_mustStop = False, wp_started = False,
     wp_ready = [], wp_lastUse = (\<lambda>_. 0), wp_phase = [], wp_chan = (\<lambda>_. []), wp_sends = [], wp_accepted = [], wp_rejected = [], wp_served = []\<rparr>"

definition put_phase :: "nat \<Rightarrow> 'c phase \<Rightarrow> 'c worker_pool \<Rightarrow> 'c worker_pool" where
  "put_phase w ph p = p\<lparr>wp_phase := (wp_phase p)[w := ph]\<rparr>"

section \<open>Operations\<close>

definition getMaxIdleWorkerDuration :: "'c worker_pool \<Rightarrow> int" where
  "getMaxIdleWorkerDuration p = (if wp_idle p \<le> 0 then 10 * Second else wp_idle p)"

text \<open>\<open>getCh\<close>: the worker that has become ready last, or a new one, or none. \<open>reuse\<close> is what the pool of channels gives.\<close>

definition getCh :: "nat option \<Rightarrow> 'c worker_pool \<Rightarrow> nat option \<times> 'c worker_pool" where
  "getCh reuse p =
     (if wp_ready p \<noteq> [] then (Some (last (wp_ready p)), p\<lparr>wp_ready := butlast (wp_ready p)\<rparr>)
      else if wp_count p < wp_max p then
        (case reuse of
           Some w \<Rightarrow> if w < length (wp_phase p) \<and> wp_phase p ! w = Gone
                     then (Some w, put_phase w Waiting (p\<lparr>wp_count := wp_count p + 1\<rparr>))
                     else (Some (length (wp_phase p)), p\<lparr>wp_count := wp_count p + 1, wp_phase := wp_phase p @ [Waiting]\<rparr>)
         | None \<Rightarrow> (Some (length (wp_phase p)), p\<lparr>wp_count := wp_count p + 1, wp_phase := wp_phase p @ [Waiting]\<rparr>))
      else (None, p))"

definition Serve :: "nat option \<Rightarrow> 'c \<Rightarrow> 'c worker_pool \<Rightarrow> 'c worker_pool" where
  "Serve reuse c p =
     (case getCh reuse p of
        (None, p') \<Rightarrow> p'\<lparr>wp_rejected := wp_rejected p' @ [c]\<rparr>
      | (Some w, p') \<Rightarrow> p'\<lparr>wp_sends := wp_sends p' @ [(w, Some c)], wp_accepted := wp_accepted p' @ [c]\<rparr>)"

text \<open>A send is made when the channel has room; without a buffer the worker must be waiting.\<close>

definition send :: "nat \<Rightarrow> 'c worker_pool \<Rightarrow> 'c worker_pool option" where
  "send i p =
     (if i < length (wp_sends p) then
        (let (w, msg) = wp_sends p ! i in
         if length (wp_chan p w) < wp_cap p \<or> wp_cap p = 0 \<and> wp_chan p w = [] \<and> w < length (wp_phase p) \<and> wp_phase p ! w = Waiting
         then Some (p\<lparr>wp_sends := take i (wp_sends p) @ drop (Suc i) (wp_sends p), wp_chan := (wp_chan p)(w := wp_chan p w @ [msg])\<rparr>)
         else None)
      else None)"

text \<open>\<open>workerFunc\<close>: receiving, the end of \<open>WorkerFunc\<close> with the time for \<open>release\<close>, \<open>release\<close> itself, and the end.\<close>

definition receive :: "nat \<Rightarrow> 'c worker_pool \<Rightarrow> 'c worker_pool option" where
  "receive w p =
     (if w < length (wp_phase p) \<and> wp_phase p ! w = Waiting then
        (case wp_chan p w of
           [] \<Rightarrow> None
         | msg # q \<Rightarrow> Some (put_phase w (case msg of Some c \<Rightarrow> Serving c | None \<Rightarrow> Leaving) (p\<lparr>wp_chan := (wp_chan p)(w := q)\<rparr>)))
      else None)"

definition served :: "nat \<Rightarrow> int \<Rightarrow> 'c worker_pool \<Rightarrow> 'c worker_pool option" where
  "served w now p =
     (if w < length (wp_phase p) then
        (case wp_phase p ! w of
           Serving c \<Rightarrow> Some (put_phase w Releasing (p\<lparr>wp_served := wp_served p @ [c], wp_lastUse := (wp_lastUse p)(w := now)\<rparr>))
         | _ \<Rightarrow> None)
      else None)"

definition release :: "nat \<Rightarrow> 'c worker_pool \<Rightarrow> 'c worker_pool option" where
  "release w p =
     (if w < length (wp_phase p) \<and> wp_phase p ! w = Releasing then
        Some (if wp_mustStop p then put_phase w Leaving p
              else put_phase w Waiting (p\<lparr>wp_ready := wp_ready p @ [w]\<rparr>))
      else None)"

definition leave :: "nat \<Rightarrow> 'c worker_pool \<Rightarrow> 'c worker_pool option" where
  "leave w p =
     (if w < length (wp_phase p) \<and> wp_phase p ! w = Leaving then Some (put_phase w Gone (p\<lparr>wp_count := wp_count p - 1\<rparr>)) else None)"

text \<open>\<open>clean\<close>: the workers at the head of the list that have been idle for too long are told to stop.\<close>

definition clean :: "int \<Rightarrow> 'c worker_pool \<Rightarrow> 'c worker_pool" where
  "clean now p =
     (let old = takeWhile (\<lambda>w. now - wp_lastUse p w > getMaxIdleWorkerDuration p) (wp_ready p)
      in p\<lparr>wp_ready := drop (length old) (wp_ready p), wp_sends := wp_sends p @ map (\<lambda>w. (w, None)) old\<rparr>)"

text \<open>\<open>Start\<close> and \<open>Stop\<close> panic when they are called twice.\<close>

definition Start :: "'c worker_pool \<Rightarrow> 'c worker_pool option" where
  "Start p = (if wp_started p then None else Some (p\<lparr>wp_started := True\<rparr>))"

definition Stop :: "'c worker_pool \<Rightarrow> 'c worker_pool option" where
  "Stop p =
     (if wp_started p
      then Some (p\<lparr>wp_started := False, wp_ready := [], wp_mustStop := True, wp_sends := wp_sends p @ map (\<lambda>w. (w, None)) (wp_ready p)\<rparr>)
      else None)"

section \<open>Steps\<close>

datatype 'c pool_act = AServe "nat option" 'c | ASend nat | AReceive nat | AServed nat int | ARelease nat | ALeave nat | AClean int | AStart | AStop

fun pool_step :: "'c pool_act \<Rightarrow> 'c worker_pool \<Rightarrow> 'c worker_pool option" where
  "pool_step (AServe reuse c) p = Some (Serve reuse c p)"
| "pool_step (ASend i) p = send i p"
| "pool_step (AReceive w) p = receive w p"
| "pool_step (AServed w now) p = served w now p"
| "pool_step (ARelease w) p = release w p"
| "pool_step (ALeave w) p = leave w p"
| "pool_step (AClean now) p = Some (clean now p)"
| "pool_step AStart p = Start p"
| "pool_step AStop p = Stop p"

fun pool_run :: "'c pool_act list \<Rightarrow> 'c worker_pool \<Rightarrow> 'c worker_pool option" where
  "pool_run [] p = Some p"
| "pool_run (a # as) p = (case pool_step a p of Some p' \<Rightarrow> pool_run as p' | None \<Rightarrow> None)"

section \<open>The invariant\<close>

text \<open>The messages for a worker, on their way or in its channel; the contexts in a list of messages.\<close>

definition messages :: "nat \<Rightarrow> 'c worker_pool \<Rightarrow> 'c option list" where
  "messages w p = wp_chan p w @ map snd (filter (\<lambda>(v, _). v = w) (wp_sends p))"

text \<open>
  A worker waits for exactly one message, or is in the list of ready workers; a busy worker has no messages and is not in the list.
\<close>

definition worker_ok :: "nat \<Rightarrow> 'c worker_pool \<Rightarrow> bool" where
  "worker_ok w p \<longleftrightarrow> (if w < length (wp_phase p) \<and> wp_phase p ! w = Waiting
     then (if w \<in> set (wp_ready p) then messages w p = [] else length (messages w p) = 1)
     else messages w p = [] \<and> w \<notin> set (wp_ready p))"

definition live :: "'c worker_pool \<Rightarrow> nat" where
  "live p = length (filter (\<lambda>ph. ph \<noteq> Gone) (wp_phase p))"

definition phase_context :: "'c phase \<Rightarrow> 'c multiset" where
  "phase_context ph = (case ph of Serving c \<Rightarrow> {#c#} | _ \<Rightarrow> {#})"

definition message_context :: "'c option \<Rightarrow> 'c multiset" where
  "message_context msg = (case msg of Some c \<Rightarrow> {#c#} | None \<Rightarrow> {#})"

abbreviation phase_contexts :: "'c phase list \<Rightarrow> 'c multiset" where
  "phase_contexts phs \<equiv> sum_list (map phase_context phs)"

abbreviation message_contexts :: "'c option list \<Rightarrow> 'c multiset" where
  "message_contexts ms \<equiv> sum_list (map message_context ms)"

abbreviation chan_contexts :: "'c worker_pool \<Rightarrow> 'c multiset" where
  "chan_contexts p \<equiv> \<Sum>w<length (wp_phase p). message_contexts (wp_chan p w)"

text \<open>The contexts that were accepted and not yet served.\<close>

definition in_flight :: "'c worker_pool \<Rightarrow> 'c multiset" where
  "in_flight p = message_contexts (map snd (wp_sends p)) + chan_contexts p + phase_contexts (wp_phase p)"

definition pool_ok :: "'c worker_pool \<Rightarrow> bool" where
  "pool_ok p \<longleftrightarrow> (\<forall>w. worker_ok w p) \<and> distinct (wp_ready p) \<and> wp_count p = live p \<and> wp_count p \<le> wp_max p \<and>
     mset (wp_accepted p) = mset (wp_served p) + in_flight p"

lemma context_simps [simp]:
  "phase_context Waiting = {#}" "phase_context (Serving c) = {#c#}" "phase_context Releasing = {#}" "phase_context Leaving = {#}"
  "phase_context Gone = {#}" "message_context None = {#}" "message_context (Some c) = {#c#}"
  by (simp_all add: phase_context_def message_context_def)

lemma put_phase_simps [simp]:
  "length (wp_phase (put_phase w ph p)) = length (wp_phase p)" "wp_ready (put_phase w ph p) = wp_ready p" "wp_chan (put_phase w ph p) = wp_chan p"
  "wp_sends (put_phase w ph p) = wp_sends p" "wp_count (put_phase w ph p) = wp_count p" "wp_max (put_phase w ph p) = wp_max p"
  "wp_accepted (put_phase w ph p) = wp_accepted p" "wp_served (put_phase w ph p) = wp_served p" "wp_phase (put_phase w ph p) = (wp_phase p)[w := ph]"
  by (simp_all add: put_phase_def)

lemma update_split: "w < length xs \<Longrightarrow> \<exists>a b. xs = a @ xs ! w # b \<and> xs[w := x] = a @ x # b"
  using id_take_nth_drop [of w xs] upd_conv_take_nth_drop [of w xs x] by (intro exI [of _ "take w xs"] exI [of _ "drop (Suc w) xs"] conjI)

lemma phase_contexts_update:
  assumes "w < length phs"
  shows "phase_contexts (phs[w := ph]) + phase_context (phs ! w) = phase_contexts phs + phase_context ph"
proof -
  obtain a b where ab: "phs = a @ phs ! w # b" "phs[w := ph] = a @ ph # b" using update_split [OF assms] by blast
  have "phase_contexts phs = phase_contexts a + phase_context (phs ! w) + phase_contexts b" by (subst ab(1)) (simp add: ac_simps)
  then show ?thesis unfolding ab(2) by (simp add: ac_simps)
qed

lemma live_update:
  assumes "w < length phs"
  shows "length (filter (\<lambda>ph. ph \<noteq> Gone) (phs[w := ph])) + (if phs ! w = Gone then 0 else 1) =
     length (filter (\<lambda>ph. ph \<noteq> Gone) phs) + (if ph = Gone then 0 else 1)"
proof -
  obtain a b where ab: "phs = a @ phs ! w # b" "phs[w := ph] = a @ ph # b" using update_split [OF assms] by blast
  have "length (filter (\<lambda>ph. ph \<noteq> Gone) phs) =
      length (filter (\<lambda>ph. ph \<noteq> Gone) a) + (if phs ! w = Gone then 0 else 1) + length (filter (\<lambda>ph. ph \<noteq> Gone) b)"
    by (subst ab(1)) simp
  then show ?thesis unfolding ab(2) by simp
qed

lemma chan_update:
  assumes "w < (n :: nat)"
  shows "(\<Sum>v<n. message_contexts ((ch(w := ms)) v)) + message_contexts (ch w) = (\<Sum>v<n. message_contexts (ch v)) + message_contexts ms"
proof -
  have 1: "(\<Sum>v<n. message_contexts ((ch(w := ms)) v)) = message_contexts ms + (\<Sum>v \<in> {..<n} - {w}. message_contexts (ch v))"
    using assms by (simp add: sum.remove [of "{..<n}" w])
  have 2: "(\<Sum>v<n. message_contexts (ch v)) = message_contexts (ch w) + (\<Sum>v \<in> {..<n} - {w}. message_contexts (ch v))"
    using assms by (simp add: sum.remove [of "{..<n}" w])
  show ?thesis unfolding 1 2 by (simp add: ac_simps)
qed

text \<open>A worker with a message is waiting.\<close>

lemma message_waiting:
  "pool_ok p \<Longrightarrow> messages w p \<noteq> [] \<Longrightarrow> w < length (wp_phase p) \<and> wp_phase p ! w = Waiting \<and> w \<notin> set (wp_ready p) \<and> length (messages w p) = 1"
  by (auto simp: pool_ok_def worker_ok_def split: if_splits dest: spec [of _ w])

lemma ready_waiting: "pool_ok p \<Longrightarrow> w \<in> set (wp_ready p) \<Longrightarrow> w < length (wp_phase p) \<and> wp_phase p ! w = Waiting \<and> messages w p = []"
  by (auto simp: pool_ok_def worker_ok_def split: if_splits dest: spec [of _ w])

lemma worker_okD: "pool_ok p \<Longrightarrow> worker_ok w p"
  by (simp add: pool_ok_def)

text \<open>Workers taken from the list are sent a message each.\<close>

lemma messages_sends: "messages w (p\<lparr>wp_sends := wp_sends p @ ms, wp_ready := r\<rparr>) = messages w p @ map snd (filter (\<lambda>(v, _). v = w) ms)"
  by (simp add: messages_def)

lemma filter_one: "distinct ws \<Longrightarrow> map snd (filter (\<lambda>(v, _). v = w) (map (\<lambda>w. (w, m)) ws)) = (if w \<in> set ws then [m] else [])"
  by (induction ws) auto

lemma take_ready_ok:
  assumes "pool_ok p" and "wp_ready p = xs @ ys @ zs"
  shows "worker_ok w (p\<lparr>wp_sends := wp_sends p @ map (\<lambda>w. (w, m)) ys, wp_ready := xs @ zs\<rparr>)"
proof -
  have "distinct (xs @ ys @ zs)" using assms by (simp add: pool_ok_def)
  then show ?thesis
    using worker_okD [OF assms(1), of w] ready_waiting [OF assms(1), of w] filter_one [of ys w m] assms(2)
    unfolding worker_ok_def messages_sends by (auto split: if_splits)
qed

lemma none_contexts: "message_contexts (map snd (map (\<lambda>w. (w, None)) ys)) = {#}"
  by (induction ys) simp_all

lemma stop_workers_ok:
  assumes "pool_ok p" and "wp_ready p = xs @ ys @ zs"
  shows "pool_ok (p\<lparr>wp_sends := wp_sends p @ map (\<lambda>w. (w, None)) ys, wp_ready := xs @ zs\<rparr>)" (is "pool_ok ?p")
proof -
  have "\<forall>w. worker_ok w ?p" using take_ready_ok [OF assms] by blast
  moreover have "distinct (wp_ready ?p)" using assms by (auto simp: pool_ok_def)
  moreover have "in_flight ?p = in_flight p" unfolding in_flight_def using none_contexts [of ys] by (simp add: ac_simps)
  ultimately show ?thesis using assms(1) by (simp add: pool_ok_def live_def)
qed

text \<open>A step of one worker: the others keep what they have.\<close>

lemma other_worker:
  assumes "worker_ok v p" and "messages v p' = messages v p" and "v \<in> set (wp_ready p') \<longleftrightarrow> v \<in> set (wp_ready p)"
    and "v < length (wp_phase p') \<and> wp_phase p' ! v = Waiting \<longleftrightarrow> v < length (wp_phase p) \<and> wp_phase p ! v = Waiting"
  shows "worker_ok v p'"
  using assms by (simp add: worker_ok_def)

lemma busy_worker:
  assumes "pool_ok p" and "wp_phase p ! w \<noteq> Waiting \<or> length (wp_phase p) \<le> w"
  shows "messages w p = []" and "wp_chan p w = []" and "w \<notin> set (wp_ready p)"
  using worker_okD [OF assms(1), of w] assms(2) by (auto simp: worker_ok_def messages_def split: if_splits)

text \<open>A new phase for a worker that is not waiting, before and after.\<close>

lemma phase_step_ok:
  assumes "pool_ok p" and "w < length (wp_phase p)" and "wp_phase p ! w \<noteq> Waiting" and "ph \<noteq> Waiting"
    and "wp_phase p ! w \<noteq> Gone" and "ph \<noteq> Gone" and "phase_context ph + mset cs = phase_context (wp_phase p ! w)"
  shows "pool_ok (put_phase w ph (p\<lparr>wp_served := wp_served p @ cs, wp_lastUse := u\<rparr>))" (is "pool_ok ?p")
proof -
  have "worker_ok v ?p" for v
    by (rule other_worker [OF worker_okD [OF assms(1)]]) (use assms in \<open>auto simp: messages_def nth_list_update\<close>)
  moreover have "live ?p = live p" using live_update [OF assms(2), of ph] assms(5,6) by (simp add: live_def)
  moreover have "in_flight ?p + mset cs = in_flight p"
  proof -
    have "phase_contexts ((wp_phase p)[w := ph]) + mset cs + phase_context ph = phase_contexts (wp_phase p) + phase_context ph"
      using phase_contexts_update [OF assms(2), of ph] unfolding assms(7) [symmetric] by (simp add: ac_simps)
    then have "phase_contexts ((wp_phase p)[w := ph]) + mset cs = phase_contexts (wp_phase p)" by simp
    then show ?thesis unfolding in_flight_def by (simp add: ac_simps)
  qed
  ultimately show ?thesis using assms(1) by (simp add: pool_ok_def ac_simps)
qed

section \<open>Every step keeps the invariant\<close>

lemma in_flight_frame [simp]:
  "in_flight (p\<lparr>wp_ready := r\<rparr>) = in_flight p" "in_flight (p\<lparr>wp_count := n\<rparr>) = in_flight p" "in_flight (p\<lparr>wp_accepted := a\<rparr>) = in_flight p"
  by (simp_all add: in_flight_def)

text \<open>A context for a worker from the list.\<close>

lemma serve_ready_ok:
  assumes "pool_ok p" and "wp_ready p \<noteq> []"
  shows "pool_ok (p\<lparr>wp_ready := butlast (wp_ready p), wp_sends := wp_sends p @ [(last (wp_ready p), Some c)], wp_accepted := wp_accepted p @ [c]\<rparr>)"
    (is "pool_ok ?p")
proof -
  have r: "wp_ready p = butlast (wp_ready p) @ [last (wp_ready p)] @ []" using assms(2) by simp
  have "worker_ok v ?p" for v
    by (rule other_worker [OF take_ready_ok [OF assms(1) r, of v "Some c"]]) (simp_all add: messages_def)
  moreover have "distinct (wp_ready ?p)" using assms by (simp add: pool_ok_def distinct_butlast)
  moreover have "in_flight ?p = add_mset c (in_flight p)" by (simp add: in_flight_def)
  ultimately show ?thesis using assms(1) by (simp add: pool_ok_def live_def)
qed

text \<open>A context for a new worker; \<open>phs\<close> are the phases with it.\<close>

lemma serve_new_ok:
  assumes "pool_ok p" and "wp_count p < wp_max p" and "wp_phase p ! w \<noteq> Waiting \<or> length (wp_phase p) \<le> w"
    and "w < length phs" and "phs ! w = Waiting" and "\<And>v. v \<noteq> w \<Longrightarrow> v < length phs \<and> phs ! v = Waiting \<longleftrightarrow> v < length (wp_phase p) \<and> wp_phase p ! v = Waiting"
    and "length (filter (\<lambda>ph. ph \<noteq> Gone) phs) = Suc (live p)" and "phase_contexts phs = phase_contexts (wp_phase p)"
    and "(\<Sum>v<length phs. message_contexts (wp_chan p v)) = chan_contexts p"
  shows "pool_ok (p\<lparr>wp_count := wp_count p + 1, wp_phase := phs, wp_sends := wp_sends p @ [(w, Some c)], wp_accepted := wp_accepted p @ [c]\<rparr>)"
    (is "pool_ok ?p")
proof -
  note b = busy_worker [OF assms(1,3)]
  have "worker_ok v ?p" if "v \<noteq> w" for v
    by (rule other_worker [OF worker_okD [OF assms(1)]]) (use assms(6) that in \<open>auto simp: messages_def\<close>)
  moreover have "worker_ok w ?p" using b assms(4,5) by (simp add: worker_ok_def messages_def)
  ultimately have "worker_ok v ?p" for v by (cases "v = w") simp_all
  moreover have "in_flight ?p = add_mset c (in_flight p)" using assms(8,9) by (simp add: in_flight_def)
  ultimately show ?thesis using assms(1,2,7) by (simp add: pool_ok_def live_def)
qed

lemma Serve_ok:
  assumes "pool_ok p"
  shows "pool_ok (Serve reuse c p)"
proof -
  let ?n = "length (wp_phase p)"
  have fresh: "pool_ok (p\<lparr>wp_count := wp_count p + 1, wp_phase := wp_phase p @ [Waiting], wp_sends := wp_sends p @ [(?n, Some c)],
      wp_accepted := wp_accepted p @ [c]\<rparr>)" if "wp_count p < wp_max p"
    using that busy_worker(2) [OF assms, of ?n] by (intro serve_new_ok [OF assms]) (auto simp: nth_append live_def)
  have again: "pool_ok (p\<lparr>wp_count := wp_count p + 1, wp_phase := (wp_phase p)[w := Waiting], wp_sends := wp_sends p @ [(w, Some c)],
      wp_accepted := wp_accepted p @ [c]\<rparr>)" if "wp_count p < wp_max p" "w < ?n" "wp_phase p ! w = Gone" for w
    using that live_update [OF that(2), of Waiting] phase_contexts_update [OF that(2), of Waiting]
    by (intro serve_new_ok [OF assms]) (auto simp: live_def)
  have frame: "pool_ok (p\<lparr>wp_rejected := r\<rparr>)" for r
  proof -
    have "worker_ok v (p\<lparr>wp_rejected := r\<rparr>)" for v by (rule other_worker [OF worker_okD [OF assms]]) (simp_all add: messages_def)
    then show ?thesis using assms by (simp add: pool_ok_def in_flight_def live_def)
  qed
  show ?thesis
    using serve_ready_ok [OF assms, of c] fresh again frame by (auto simp: Serve_def getCh_def put_phase_def split: option.splits)
qed

lemma send_ok:
  assumes "pool_ok p" and "send i p = Some p'"
  shows "pool_ok p'"
proof -
  obtain w msg where i: "i < length (wp_sends p)" "wp_sends p ! i = (w, msg)"
    and p': "p' = p\<lparr>wp_sends := take i (wp_sends p) @ drop (Suc i) (wp_sends p), wp_chan := (wp_chan p)(w := wp_chan p w @ [msg])\<rparr>"
    using assms(2) by (auto simp: send_def Let_def split: if_splits prod.splits)
  let ?a = "take i (wp_sends p)" and ?b = "drop (Suc i) (wp_sends p)"
  have s: "wp_sends p = ?a @ (w, msg) # ?b" using id_take_nth_drop [OF i(1)] i(2) by simp
  have ms: "messages w p = wp_chan p w @ map snd (filter (\<lambda>(v, _). v = w) ?a) @ msg # map snd (filter (\<lambda>(v, _). v = w) ?b)"
    unfolding messages_def by (subst s) simp
  then have w: "w < length (wp_phase p)" "length (messages w p) = 1" using message_waiting [OF assms(1), of w] by auto
  then have one: "wp_chan p w = []" "filter (\<lambda>(v, _). v = w) ?a = []" "filter (\<lambda>(v, _). v = w) ?b = []" using ms by auto
  have "messages v p' = messages v p" for v
  proof (cases "v = w")
    case True
    then show ?thesis using one ms by (simp add: messages_def p')
  next
    case False
    then show ?thesis unfolding messages_def p' by (subst (2) s) simp
  qed
  then have "worker_ok v p'" for v by (rule other_worker [OF worker_okD [OF assms(1)]]) (simp_all add: p')
  moreover have "in_flight p' = in_flight p"
  proof -
    have "message_contexts (map snd (wp_sends p)) = message_contexts (map snd (?a @ ?b)) + message_context msg" by (subst s) (simp add: ac_simps)
    moreover have "chan_contexts p' = chan_contexts p + message_context msg" using chan_update [OF w(1), of "wp_chan p" "[msg]"] one by (simp add: p')
    ultimately show ?thesis unfolding in_flight_def by (simp add: p' ac_simps)
  qed
  ultimately show ?thesis using assms(1) by (simp add: pool_ok_def p' live_def)
qed

lemma receive_ok:
  assumes "pool_ok p" and "receive w p = Some p'"
  shows "pool_ok p'"
proof -
  obtain msg q where w: "w < length (wp_phase p)" "wp_phase p ! w = Waiting" "wp_chan p w = msg # q"
    and p': "p' = put_phase w (case msg of Some c \<Rightarrow> Serving c | None \<Rightarrow> Leaving) (p\<lparr>wp_chan := (wp_chan p)(w := q)\<rparr>)"
    using assms(2) by (auto simp: receive_def split: if_splits list.splits)
  let ?ph = "case msg of Some c \<Rightarrow> Serving c | None \<Rightarrow> Leaving"
  have ph: "?ph \<noteq> Waiting" "?ph \<noteq> Gone" "phase_context ?ph = message_context msg" by (auto split: option.splits)
  have m: "w \<notin> set (wp_ready p)" "q = []" "filter (\<lambda>(v, _). v = w) (wp_sends p) = []"
    using message_waiting [OF assms(1), of w] w(3) by (auto simp: messages_def)
  have "worker_ok v p'" if "v \<noteq> w" for v
    by (rule other_worker [OF worker_okD [OF assms(1)]]) (use that in \<open>auto simp: messages_def p'\<close>)
  moreover have "worker_ok w p'" using m w ph by (simp add: worker_ok_def messages_def p')
  ultimately have "worker_ok v p'" for v by (cases "v = w") simp_all
  moreover have "live p' = live p" using live_update [OF w(1), of ?ph] w(2) ph by (simp add: live_def p')
  moreover have "in_flight p' = in_flight p"
  proof -
    have "chan_contexts p' + message_context msg = chan_contexts p" using chan_update [OF w(1), of "wp_chan p" q] w(3) m(2) by (simp add: p')
    moreover have "phase_contexts (wp_phase p') = phase_contexts (wp_phase p) + message_context msg"
      using phase_contexts_update [OF w(1), of ?ph] w(2) ph(3) by (simp add: p')
    ultimately show ?thesis unfolding in_flight_def by (simp add: p' ac_simps)
  qed
  ultimately show ?thesis using assms(1) by (simp add: pool_ok_def p')
qed

lemma served_ok:
  assumes "pool_ok p" and "served w now p = Some p'"
  shows "pool_ok p'"
  using assms(2) phase_step_ok [OF assms(1), of w Releasing "[c]" for c]
  by (auto simp: served_def put_phase_def split: if_splits phase.splits)

lemma release_ok:
  assumes "pool_ok p" and "release w p = Some p'"
  shows "pool_ok p'"
proof -
  have w: "w < length (wp_phase p)" "wp_phase p ! w = Releasing" using assms(2) by (auto simp: release_def split: if_splits)
  note b = busy_worker [OF assms(1), of w]
  show ?thesis
  proof (cases "wp_mustStop p")
    case True
    then have "p' = put_phase w Leaving (p\<lparr>wp_served := wp_served p @ [], wp_lastUse := wp_lastUse p\<rparr>)" using assms(2) w by (simp add: release_def)
    then show ?thesis using phase_step_ok [OF assms(1) w(1), of Leaving "[]" "wp_lastUse p"] w(2) by simp
  next
    case False
    then have p': "p' = put_phase w Waiting (p\<lparr>wp_ready := wp_ready p @ [w]\<rparr>)" using assms(2) w by (simp add: release_def)
    have "worker_ok v p'" if "v \<noteq> w" for v
      by (rule other_worker [OF worker_okD [OF assms(1)]]) (use that in \<open>auto simp: messages_def p'\<close>)
    moreover have "worker_ok w p'" using b w by (simp add: worker_ok_def messages_def p')
    ultimately have "worker_ok v p'" for v by (cases "v = w") simp_all
    moreover have "live p' = live p" using live_update [OF w(1), of Waiting] w(2) by (simp add: live_def p')
    moreover have "in_flight p' = in_flight p" using phase_contexts_update [OF w(1), of Waiting] w(2) by (simp add: in_flight_def p')
    ultimately show ?thesis using assms(1) b(3) w by (simp add: pool_ok_def p')
  qed
qed

lemma leave_ok:
  assumes "pool_ok p" and "leave w p = Some p'"
  shows "pool_ok p'"
proof -
  have w: "w < length (wp_phase p)" "wp_phase p ! w = Leaving" and p': "p' = put_phase w Gone (p\<lparr>wp_count := wp_count p - 1\<rparr>)"
    using assms(2) by (auto simp: leave_def split: if_splits)
  have "worker_ok v p'" for v
    by (rule other_worker [OF worker_okD [OF assms(1)]]) (use w in \<open>auto simp: messages_def p' nth_list_update\<close>)
  moreover have "Suc (live p') = live p" using live_update [OF w(1), of Gone] w(2) by (simp add: live_def p')
  moreover have "in_flight p' = in_flight p" using phase_contexts_update [OF w(1), of Gone] w(2) by (simp add: in_flight_def p')
  moreover from calculation have "live p' = live p - 1" by simp
  ultimately show ?thesis using assms(1) by (simp add: pool_ok_def p')
qed

lemma frame_ok: "pool_ok p \<Longrightarrow> pool_ok (p\<lparr>wp_started := b, wp_mustStop := b'\<rparr>)"
proof -
  assume ok: "pool_ok p"
  have "worker_ok v (p\<lparr>wp_started := b, wp_mustStop := b'\<rparr>)" for v by (rule other_worker [OF worker_okD [OF ok]]) (simp_all add: messages_def)
  then show ?thesis using ok by (simp add: pool_ok_def in_flight_def live_def)
qed

lemma clean_ok: "pool_ok p \<Longrightarrow> pool_ok (clean now p)"
proof -
  assume ok: "pool_ok p"
  let ?old = "takeWhile (\<lambda>w. now - wp_lastUse p w > getMaxIdleWorkerDuration p) (wp_ready p)"
  have "wp_ready p = [] @ ?old @ drop (length ?old) (wp_ready p)" by (metis append_Nil dropWhile_eq_drop takeWhile_dropWhile_id)
  from stop_workers_ok [OF ok this] have "pool_ok (p\<lparr>wp_sends := wp_sends p @ map (\<lambda>w. (w, None)) ?old, wp_ready := drop (length ?old) (wp_ready p)\<rparr>)"
    by (simp only: append_Nil)
  moreover have "clean now p = p\<lparr>wp_sends := wp_sends p @ map (\<lambda>w. (w, None)) ?old, wp_ready := drop (length ?old) (wp_ready p)\<rparr>"
    by (simp add: clean_def Let_def)
  ultimately show ?thesis by simp
qed

lemma Start_ok: "pool_ok p \<Longrightarrow> Start p = Some p' \<Longrightarrow> pool_ok p'"
  using frame_ok [where b = True and b' = "wp_mustStop p" and p = p] by (auto simp: Start_def split: if_splits)

lemma Stop_ok:
  assumes "pool_ok p" and "Stop p = Some p'"
  shows "pool_ok p'"
proof -
  let ?p = "p\<lparr>wp_sends := wp_sends p @ map (\<lambda>w. (w, None)) (wp_ready p), wp_ready := []\<rparr>"
  have "pool_ok ?p" using stop_workers_ok [OF assms(1), of "[]" "wp_ready p" "[]"] by simp
  moreover have "p' = ?p\<lparr>wp_started := False, wp_mustStop := True\<rparr>" using assms(2) by (auto simp: Stop_def split: if_splits)
  ultimately show ?thesis using frame_ok by blast
qed

lemma pool_step_ok: "pool_ok p \<Longrightarrow> pool_step a p = Some p' \<Longrightarrow> pool_ok p'"
  by (cases a) (auto simp: Serve_ok clean_ok intro: send_ok receive_ok served_ok release_ok leave_ok Start_ok Stop_ok)

lemma pool_run_ok: "pool_ok p \<Longrightarrow> pool_run as p = Some p' \<Longrightarrow> pool_ok p'"
  by (induction as arbitrary: p) (auto dest: pool_step_ok split: option.splits)

lemma new_pool_ok: "pool_ok (new_pool n idle cap)"
  by (simp add: pool_ok_def new_pool_def worker_ok_def messages_def in_flight_def live_def)

section \<open>Progress\<close>

definition distance :: "'c worker_pool \<Rightarrow> nat" where
  "distance p = 3 * size (message_contexts (map snd (wp_sends p))) + 2 * size (chan_contexts p) + size (phase_contexts (wp_phase p))"

lemma some_part: "sum_list ms \<noteq> ({#} :: 'c multiset) \<Longrightarrow> \<exists>i < length ms. ms ! i \<noteq> {#}"
proof (rule ccontr)
  assume m: "sum_list ms \<noteq> {#}" and "\<not> (\<exists>i < length ms. ms ! i \<noteq> {#})"
  then have "\<forall>x \<in> set ms. x = {#}" by (auto simp: in_set_conv_nth)
  then have "sum_list ms = {#}" by (induction ms) auto
  with m show False by simp
qed

lemma phase_progress:
  assumes "phase_contexts (wp_phase p) \<noteq> {#}"
  shows "\<exists>a p'. pool_step a p = Some p' \<and> distance p' < distance p \<and> wp_accepted p' = wp_accepted p"
proof -
  obtain w where w: "w < length (wp_phase p)" "phase_context (wp_phase p ! w) \<noteq> {#}" using some_part [OF assms] by auto
  then obtain c where c: "wp_phase p ! w = Serving c" by (cases "wp_phase p ! w") auto
  let ?p = "put_phase w Releasing (p\<lparr>wp_served := wp_served p @ [c], wp_lastUse := (wp_lastUse p)(w := 0)\<rparr>)"
  have "phase_contexts (wp_phase p) = add_mset c (phase_contexts (wp_phase ?p))" using phase_contexts_update [OF w(1), of Releasing] c by simp
  then have "distance ?p < distance p" by (simp add: distance_def)
  then show ?thesis using w(1) c by (intro exI [of _ "AServed w 0"] exI [of _ ?p]) (simp add: served_def)
qed

lemma chan_progress:
  assumes "pool_ok p" and "chan_contexts p \<noteq> {#}"
  shows "\<exists>a p'. pool_step a p = Some p' \<and> distance p' < distance p \<and> wp_accepted p' = wp_accepted p"
proof -
  obtain w where w: "w < length (wp_phase p)" "message_contexts (wp_chan p w) \<noteq> {#}" using assms(2) by (meson lessThan_iff sum.neutral)
  then have "messages w p \<noteq> []" by (auto simp: messages_def)
  then have m: "wp_phase p ! w = Waiting" "length (messages w p) = 1" using message_waiting [OF assms(1), of w] by auto
  then obtain c where c: "wp_chan p w = [Some c]" using w(2) by (cases "wp_chan p w"; cases "hd (wp_chan p w)") (auto simp: messages_def)
  let ?p = "put_phase w (Serving c) (p\<lparr>wp_chan := (wp_chan p)(w := [])\<rparr>)"
  have "chan_contexts p = add_mset c (chan_contexts ?p)" using chan_update [OF w(1), of "wp_chan p" "[]"] c by simp
  moreover have "phase_contexts (wp_phase ?p) = add_mset c (phase_contexts (wp_phase p))" using phase_contexts_update [OF w(1), of "Serving c"] m(1) by simp
  ultimately have "distance ?p < distance p" by (simp add: distance_def)
  then show ?thesis using w(1) m(1) c by (intro exI [of _ "AReceive w"] exI [of _ ?p]) (simp add: receive_def)
qed

lemma send_progress:
  assumes "pool_ok p" and "message_contexts (map snd (wp_sends p)) \<noteq> {#}"
  shows "\<exists>a p'. pool_step a p = Some p' \<and> distance p' < distance p \<and> wp_accepted p' = wp_accepted p"
proof -
  obtain i where i: "i < length (wp_sends p)" "message_context (snd (wp_sends p ! i)) \<noteq> {#}" using some_part [OF assms(2)] by auto
  obtain w c where wc: "wp_sends p ! i = (w, Some c)" using i(2) by (cases "wp_sends p ! i"; cases "snd (wp_sends p ! i)") auto
  let ?a = "take i (wp_sends p)" and ?b = "drop (Suc i) (wp_sends p)"
  let ?p = "p\<lparr>wp_sends := ?a @ ?b, wp_chan := (wp_chan p)(w := wp_chan p w @ [Some c])\<rparr>"
  have s: "wp_sends p = ?a @ (w, Some c) # ?b" using id_take_nth_drop [OF i(1)] wc by simp
  have "messages w p = wp_chan p w @ map snd (filter (\<lambda>(v, _). v = w) ?a) @ Some c # map snd (filter (\<lambda>(v, _). v = w) ?b)"
    unfolding messages_def by (subst s) simp
  then have w: "w < length (wp_phase p)" "wp_phase p ! w = Waiting" "wp_chan p w = []" using message_waiting [OF assms(1), of w] by auto
  have "message_contexts (map snd (wp_sends p)) = add_mset c (message_contexts (map snd (?a @ ?b)))" by (subst s) simp
  moreover have "chan_contexts ?p = add_mset c (chan_contexts p)" using chan_update [OF w(1), of "wp_chan p" "[Some c]"] w(3) by simp
  ultimately have "distance ?p < distance p" by (simp add: distance_def)
  moreover have "send i p = Some ?p" using i(1) wc w by (auto simp: send_def)
  ultimately show ?thesis by (intro exI [of _ "ASend i"] exI [of _ ?p]) simp
qed

lemma progress:
  assumes "pool_ok p" and "in_flight p \<noteq> {#}"
  shows "\<exists>a p'. pool_step a p = Some p' \<and> distance p' < distance p \<and> wp_accepted p' = wp_accepted p"
  using assms phase_progress chan_progress send_progress unfolding in_flight_def by (metis add_0)

lemma all_served:
  assumes "pool_ok p"
  shows "\<exists>as p'. pool_run as p = Some p' \<and> wp_accepted p' = wp_accepted p \<and> mset (wp_served p') = mset (wp_accepted p')"
  using assms
proof (induction "distance p" arbitrary: p rule: less_induct)
  case less
  show ?case
  proof (cases "in_flight p = {#}")
    case True
    then show ?thesis using less.prems by (intro exI [of _ "[]"]) (simp add: pool_ok_def)
  next
    case False
    then obtain a p1 where a: "pool_step a p = Some p1" "distance p1 < distance p" "wp_accepted p1 = wp_accepted p" using progress less.prems by blast
    then obtain as p' where "pool_run as p1 = Some p'" "wp_accepted p' = wp_accepted p1" "mset (wp_served p') = mset (wp_accepted p')"
      using less.hyps pool_step_ok less.prems by blast
    then show ?thesis using a by (intro exI [of _ "a # as"]) simp
  qed
qed

section \<open>Properties\<close>

text \<open>
  Claim C40. In every interleaving of \<open>Serve\<close>, the workers, \<open>clean\<close>, \<open>Start\<close> and \<open>Stop\<close> there are never more workers than allowed, and the counter is their number;
  every context that \<open>Serve\<close> has accepted was served or is on its way, once, and none was served that was not accepted; and the steps of
  the pool can always bring those on their way to a worker and to their end, so that nothing is lost and no send blocks for ever,
  also after \<open>Stop\<close>.\<close>

theorem accepted_contexts_are_served:
  assumes "pool_run as (new_pool maxWorkersCount idle cap) = Some p"
  shows "wp_count p \<le> wp_max p \<and> wp_count p = live p \<and> mset (wp_accepted p) = mset (wp_served p) + in_flight p \<and>
    (\<exists>as' p'. pool_run as' p = Some p' \<and> wp_accepted p' = wp_accepted p \<and> mset (wp_served p') = mset (wp_accepted p'))"
proof -
  have "pool_ok p" using pool_run_ok [OF new_pool_ok assms] .
  then show ?thesis using all_served by (auto simp: pool_ok_def)
qed

text \<open>Two contexts for a pool of one worker: the second is refused while the worker is busy; after its release the third is accepted.\<close>

definition sample_run :: "nat pool_act list" where
  "sample_run = [AStart, AServe None 1, AServe None 2, ASend 0, AReceive 0, AServed 0 5, ARelease 0, AServe None 3, AStop]"

theorem accepted_contexts_are_served_witness:
  "\<exists>p. pool_run sample_run (new_pool 1 0 1) = Some p \<and> wp_accepted p = [1, 3] \<and> wp_served p = [1] \<and> wp_rejected p = [2] \<and>
     (\<exists>as' p'. pool_run as' p = Some p' \<and> mset (wp_served p') = {#1, 3#})"
proof -
  have "case pool_run sample_run (new_pool 1 0 1) of Some p \<Rightarrow> wp_accepted p = [1, 3] \<and> wp_served p = [1] \<and> wp_rejected p = [2] | None \<Rightarrow> False"
    by code_simp
  then obtain p where p: "pool_run sample_run (new_pool 1 0 1) = Some p" "wp_accepted p = [1, 3]" "wp_served p = [1]" "wp_rejected p = [2]"
    by (auto split: option.splits)
  obtain as' p' where "pool_run as' p = Some p'" "wp_accepted p' = wp_accepted p" "mset (wp_served p') = mset (wp_accepted p')"
    using accepted_contexts_are_served [OF p(1)] by blast
  then have "pool_run as' p = Some p' \<and> mset (wp_served p') = {#1, 3#}" using p(2) by simp
  then show ?thesis using p by blast
qed

text \<open>A pool that was stopped and started again ends every worker after one context: the flag that stops them is never reset.\<close>

theorem restarted_pool_keeps_no_worker:
  "case pool_run [AStart, AStop, AStart, AServe None 1, ASend 0, AReceive 0, AServed 0 5, ARelease 0] (new_pool 1 0 1 :: nat worker_pool) of
     Some p \<Rightarrow> wp_started p \<and> wp_ready p = [] \<and> wp_phase p = [Leaving] | None \<Rightarrow> False"
  by code_simp

end
