(* ===== verification/Port_Pool.thy ===== *)
theory Port_Pool
  imports Net_Ports
begin

text \<open>
  The pool of system ports of \<open>internal/allocator/port_sys_pool.go\<close>, over the sockets of \<open>Net_Ports\<close>. An operation that waits for the mutex for ever
  is \<open>Blocked\<close>, one that panics is \<open>Panics\<close>. The random numbers are an argument.
\<close>

section \<open>State\<close>

record pooled_port =
  pp_port :: int
  pp_addr :: addr
  pp_conn :: packet_conn
  pp_allocated :: bool

record port_pool =
  pl_os :: os
  pl_network :: string
  pl_ip :: ip
  pl_minPort :: int
  pl_maxPort :: int
  pl_ports :: "pooled_port list"
  pl_free :: "nat list"
  pl_mux :: bool

datatype 'a go_run = Blocked | Panics | Returns_run 'a

text \<open>The connection that is handed out: the socket, and the number of the port for its \<open>Close\<close>.\<close>

record wrapped_conn =
  wc_conn :: packet_conn
  wc_port :: int

section \<open>Operations\<close>

text \<open>\<open>init\<close> opens the ports one after the other. When one cannot be opened it returns with the mutex locked.\<close>

fun init_loop :: "nat \<Rightarrow> int \<Rightarrow> port_pool \<Rightarrow> go_error option \<times> port_pool" where
  "init_loop 0 port a = (None, a)"
| "init_loop (Suc n) port a =
     (let ad = \<lparr>addr_IP = pl_ip a, addr_Port = port\<rparr> in
      case os_ListenUDP (pl_os a) (pl_network a) ad of
        (Inl err, s) \<Rightarrow> (Some err, a\<lparr>pl_os := s, pl_mux := True\<rparr>)
      | (Inr conn, s) \<Rightarrow>
          init_loop n (port + 1) (a\<lparr>pl_os := s,
            pl_ports := pl_ports a @ [\<lparr>pp_port = port, pp_addr = ad, pp_conn = conn, pp_allocated = False\<rparr>]\<rparr>))"

definition pool_init :: "port_pool \<Rightarrow> (go_error option \<times> port_pool) go_run" where
  "pool_init a =
     (if pl_minPort a > pl_maxPort a then Returns_run (Some (OtherError ''minPort is larger that maxPort''), a)
      else if pl_mux a then Blocked
      else (case init_loop (nat (pl_maxPort a - pl_minPort a + 1)) (pl_minPort a) a of
              (Some err, a') \<Rightarrow> Returns_run (Some err, a')
            | (None, a') \<Rightarrow> Returns_run (if pl_ports a' = [] then Some (OtherError ''failed to initialize pool'') else None, a')))"

text \<open>\<open>randomFree\<close> takes the port at a random index below the number of free ports; \<open>rand.Int\<close> panics when there is none.\<close>

definition randomFree :: "nat \<Rightarrow> port_pool \<Rightarrow> pooled_port go_run" where
  "randomFree r a = (if pl_free a = [] then Panics else Returns_run (pl_ports a ! (r mod length (pl_free a))))"

definition free_ports :: "pooled_port list \<Rightarrow> nat list" where
  "free_ports ps = filter (\<lambda>i. \<not> pp_allocated (ps ! i)) [0..<length ps]"

definition pool_allocate :: "nat \<Rightarrow> port_pool \<Rightarrow> ((go_error + addr \<times> wrapped_conn) \<times> port_pool) go_run" where
  "pool_allocate r a0 =
     (if pl_mux a0 then Blocked
      else let a = a0\<lparr>pl_free := free_ports (pl_ports a0)\<rparr> in
        case randomFree r a of
          Returns_run p \<Rightarrow>
            Returns_run (if pp_conn p = NilConn then Inl (OtherError ''out of capacity'')
              else Inr (\<lparr>addr_IP = pl_ip a, addr_Port = pp_port p\<rparr>, \<lparr>wc_conn = pp_conn p, wc_port = 0\<rparr>), a)
        | Panics \<Rightarrow> Panics
        | Blocked \<Rightarrow> Blocked)"

text \<open>The first port with the number is closed and opened again.\<close>

fun dealloc_loop :: "string \<Rightarrow> int \<Rightarrow> pooled_port list \<Rightarrow> os \<Rightarrow> pooled_port list \<times> os" where
  "dealloc_loop network port [] s = ([], s)"
| "dealloc_loop network port (p # ps) s =
     (if pp_port p \<noteq> port then (let (ps', s') = dealloc_loop network port ps s in (p # ps', s'))
      else
        (let s1 = snd (os_Close s (pp_conn p))
         in case os_ListenUDP s1 network (pp_addr p) of
              (Inl err, s2) \<Rightarrow> (p # ps, s2)
            | (Inr conn, s2) \<Rightarrow> (p\<lparr>pp_allocated := False, pp_conn := conn\<rparr> # ps, s2)))"

definition pool_dealloc :: "int \<Rightarrow> port_pool \<Rightarrow> port_pool go_run" where
  "pool_dealloc port a =
     (if pl_mux a then Blocked
      else let (ps, s) = dealloc_loop (pl_network a) port (pl_ports a) (pl_os a) in Returns_run (a\<lparr>pl_ports := ps, pl_os := s\<rparr>))"

definition wrappedConn_Close :: "wrapped_conn \<Rightarrow> port_pool \<Rightarrow> port_pool go_run" where
  "wrappedConn_Close w = pool_dealloc (wc_port w)"

definition pool_Close :: "port_pool \<Rightarrow> port_pool go_run" where
  "pool_Close a =
     (if pl_mux a then Blocked
      else Returns_run (a\<lparr>pl_os := fold (\<lambda>p s. snd (os_Close s (pp_conn p))) (pl_ports a) (pl_os a), pl_ports := []\<rparr>))"

section \<open>What the pool does\<close>

lemma os_ListenUDP_result: "os_ListenUDP s network a = (Inr c, s') \<Longrightarrow> c \<noteq> NilConn"
  by (auto simp: os_ListenUDP_def Let_def split: option.splits if_splits)

text \<open>After a successful \<open>init\<close> of an empty pool there is one port for each number of the range, free and with a socket.\<close>

lemma init_loop_ports:
  "init_loop n port a = (None, a') \<Longrightarrow> map pp_port (pl_ports a') = map pp_port (pl_ports a) @ map (\<lambda>i. port + int i) [0..<n] \<and>
     (list_all (\<lambda>p. \<not> pp_allocated p \<and> pp_conn p \<noteq> NilConn) (pl_ports a) \<longrightarrow> list_all (\<lambda>p. \<not> pp_allocated p \<and> pp_conn p \<noteq> NilConn) (pl_ports a')) \<and>
     pl_mux a' = pl_mux a"
proof (induction n port a rule: init_loop.induct)
  case (2 n port a)
  let ?ad = "\<lparr>addr_IP = pl_ip a, addr_Port = port\<rparr>"
  obtain conn s where os: "os_ListenUDP (pl_os a) (pl_network a) ?ad = (Inr conn, s)"
    using 2(2) by (auto simp: Let_def split: prod.splits sum.splits)
  have up: "[0..<Suc n] = 0 # map Suc [0..<n]" by (simp add: map_Suc_upt upt_conv_Cons del: upt_Suc)
  show ?case
    using 2(1) [OF refl os [symmetric] refl] 2(2) os os_ListenUDP_result [OF os]
    by (simp add: Let_def up o_def algebra_simps del: upt_Suc)
qed simp

theorem pool_init_ports:
  assumes "pool_init a = Returns_run (None, a')" and "pl_ports a = []" and "\<not> pl_mux a"
  shows "map pp_port (pl_ports a') = map (\<lambda>i. pl_minPort a + int i) [0..<nat (pl_maxPort a - pl_minPort a + 1)] \<and> \<not> pl_mux a' \<and>
    free_ports (pl_ports a') = [0..<length (pl_ports a')]"
proof -
  have "init_loop (nat (pl_maxPort a - pl_minPort a + 1)) (pl_minPort a) a = (None, a')"
    using assms by (auto simp: pool_init_def split: if_splits prod.splits option.splits)
  from init_loop_ports [OF this] assms(2,3) have p: "map pp_port (pl_ports a') = map (\<lambda>i. pl_minPort a + int i) [0..<nat (pl_maxPort a - pl_minPort a + 1)]"
      "\<not> pl_mux a'" and free: "list_all (\<lambda>p. \<not> pp_allocated p \<and> pp_conn p \<noteq> NilConn) (pl_ports a')" by simp_all
  have "filter (\<lambda>i. \<not> pp_allocated (pl_ports a' ! i)) [0..<length (pl_ports a')] = [0..<length (pl_ports a')]"
    using free by (intro filter_True) (auto simp: list_all_length)
  then show ?thesis using p by (simp add: free_ports_def)
qed

text \<open>An allocation does not mark its port: with the same random number the next one hands out the same port and the same socket.\<close>

theorem pool_hands_out_twice:
  assumes "pool_allocate r a = Returns_run (Inr x, a')"
  shows "pool_allocate r a' = Returns_run (Inr x, a')"
  using assms by (auto simp: pool_allocate_def randomFree_def Let_def split: if_splits)

text \<open>Closing what was handed out gives nothing back: the number of the port was never stored.\<close>

lemma dealloc_none: "\<forall>p \<in> set ps. pp_port p \<noteq> port \<Longrightarrow> dealloc_loop network port ps s = (ps, s)"
  by (induction ps) auto

theorem close_frees_nothing:
  assumes "pool_allocate r a = Returns_run (Inr (ad, w), a')" and "\<forall>p \<in> set (pl_ports a). pp_port p \<noteq> 0"
  shows "wrappedConn_Close w a' = Returns_run a'"
proof -
  have "wc_port w = 0" "\<not> pl_mux a'" "pl_ports a' = pl_ports a"
    using assms(1) by (auto simp: pool_allocate_def randomFree_def Let_def split: if_splits)
  then show ?thesis using dealloc_none [of "pl_ports a" 0] assms(2) by (simp add: wrappedConn_Close_def pool_dealloc_def)
qed

text \<open>A port that cannot be opened leaves the pool locked: every later operation waits for ever.\<close>

theorem failed_init_blocks:
  assumes "pool_init a = Returns_run (Some err, a')" and "pl_minPort a \<le> pl_maxPort a" and "err \<noteq> OtherError ''failed to initialize pool''"
  shows "pool_allocate r a' = Blocked \<and> pool_dealloc n a' = Blocked \<and> pool_Close a' = Blocked"
proof -
  have "init_loop n port b = (Some e, b') \<Longrightarrow> pl_mux b'" for n port b e b'
    by (induction n port b rule: init_loop.induct) (auto simp: Let_def split: prod.splits sum.splits)
  then have "pl_mux a'" using assms by (auto simp: pool_init_def split: if_splits prod.splits option.splits)
  then show ?thesis by (simp add: pool_allocate_def pool_dealloc_def pool_Close_def)
qed

text \<open>When every port is marked the choice of a free one panics, instead of the error for want of capacity.\<close>

theorem full_pool_panics: "list_all pp_allocated (pl_ports a) \<Longrightarrow> \<not> pl_mux a \<Longrightarrow> pool_allocate r a = Panics"
  by (auto simp: pool_allocate_def randomFree_def free_ports_def Let_def list_all_length filter_empty_conv)

end
