(* ===== verification/Js_Prelude.thy ===== *)
theory Js_Prelude
  imports Main "HOL-Library.Word" "HOL-Library.Sublist" "HOL-Library.Multiset"
begin

text \<open>
  The parts of JavaScript that the scripts of the documentation pages use.

  \<^item> A string is a list of 16-bit code units; \<open>J\<close> writes one from an ASCII literal. The string
    methods are functions with the argument conventions of the standard: \<open>substr\<close> counts a
    negative start from the end, \<open>substring\<close> clamps and swaps, \<open>slice\<close> does neither swap
    nor clamp negatives away, \<open>indexOf\<close> answers -1. Case conversion depends on the Unicode
    tables and is a parameter wherever it is used.
  \<^item> A plain object is a list of its own properties in the order of their creation;
    \<open>obj_lookup\<close> also finds what every object inherits from \<open>Object.prototype\<close>, which is
    what the expressions \<open>o[k]\<close> and \<open>k in o\<close> of the scripts see.
  \<^item> \<open>Array.prototype.sort\<close> is the stable insertion sort by a comparator.
\<close>

named_theorems js_string_simps
  \<open>evaluation of the string methods\<close>

type_synonym js_char = "16 word"
type_synonym js_string = "js_char list"

definition J :: "string \<Rightarrow> js_string" where
  "J s = map of_char s"

lemma J_simps [simp]: "J [] = []" "J (c # s) = of_char c # J s"
  by (simp_all add: J_def)

lemma J_append [simp]: "J (s @ t) = J s @ J t"
  by (simp add: J_def)

section \<open>Strings\<close>

fun js_find :: "js_string \<Rightarrow> js_string \<Rightarrow> nat option" where
  "js_find sub [] = (if sub = [] then Some 0 else None)"
| "js_find sub (c # s) = (if prefix sub (c # s) then Some 0 else map_option Suc (js_find sub s))"

definition indexOf :: "js_string \<Rightarrow> js_string \<Rightarrow> int" where
  "indexOf s sub = (case js_find sub s of None \<Rightarrow> -1 | Some k \<Rightarrow> int k)"

definition indexOf_from :: "js_string \<Rightarrow> js_string \<Rightarrow> nat \<Rightarrow> int" where
  "indexOf_from s sub from =
     (case js_find sub (drop from s) of None \<Rightarrow> -1 | Some k \<Rightarrow> int (min from (length s) + k))"

text \<open>The position of the last occurrence of a character, or -1.\<close>

definition lastIndexOf_char :: "js_string \<Rightarrow> js_char \<Rightarrow> int" where
  "lastIndexOf_char s c = int (length s) - 1 - int (length (takeWhile (\<lambda>x. x \<noteq> c) (rev s)))"

definition from_end :: "js_string \<Rightarrow> int \<Rightarrow> nat" where
  "from_end s i = (if i < 0 then nat (int (length s) + i) else nat i)"

definition substr :: "js_string \<Rightarrow> int \<Rightarrow> int \<Rightarrow> js_string" where
  "substr s start len = take (nat len) (drop (from_end s start) s)"

definition substr1 :: "js_string \<Rightarrow> int \<Rightarrow> js_string" where
  "substr1 s start = drop (from_end s start) s"

definition clamp :: "js_string \<Rightarrow> int \<Rightarrow> nat" where
  "clamp s i = min (nat i) (length s)"

definition substring :: "js_string \<Rightarrow> int \<Rightarrow> int \<Rightarrow> js_string" where
  "substring s a b = (let x = clamp s a; y = clamp s b
                      in take (max x y - min x y) (drop (min x y) s))"

definition substring1 :: "js_string \<Rightarrow> int \<Rightarrow> js_string" where
  "substring1 s a = drop (clamp s a) s"

definition js_slice :: "'a list \<Rightarrow> int \<Rightarrow> int \<Rightarrow> 'a list" where
  "js_slice xs a b =
     (let n = int (length xs);
          lo = (if a < 0 then max (n + a) 0 else min a n);
          hi = (if b < 0 then max (n + b) 0 else min b n)
      in take (nat (hi - lo)) (drop (nat lo) xs))"

definition js_slice1 :: "'a list \<Rightarrow> int \<Rightarrow> 'a list" where
  "js_slice1 xs a = js_slice xs a (int (length xs))"

definition charAt :: "js_string \<Rightarrow> nat \<Rightarrow> js_string" where
  "charAt s i = take 1 (drop i s)"

text \<open>\<open>split\<close> on a one-character separator.\<close>

fun split_char :: "js_char \<Rightarrow> js_string \<Rightarrow> js_string list" where
  "split_char c [] = [[]]"
| "split_char c (x # s) =
     (if x = c then [] # split_char c s
      else (case split_char c s of w # ws \<Rightarrow> (x # w) # ws | [] \<Rightarrow> [[x]]))"

fun js_join :: "js_string \<Rightarrow> js_string list \<Rightarrow> js_string" where
  "js_join sep [] = []"
| "js_join sep [w] = w"
| "js_join sep (w # v # ws) = w @ sep @ js_join sep (v # ws)"

definition is_space :: "js_char \<Rightarrow> bool" where
  "is_space c \<longleftrightarrow> c \<in> {9, 10, 11, 12, 13, 32, 160, 0x1680, 0x2028, 0x2029, 0x202F, 0x205F, 0x3000, 0xFEFF} \<or>
     (0x2000 \<le> c \<and> c \<le> 0x200A)"

text \<open>\<open>split(/\s+/)\<close>: the runs of white space separate; \<open>inside\<close> tells that the last character was one.\<close>

fun split_ws_loop :: "bool \<Rightarrow> js_string \<Rightarrow> js_string list" where
  "split_ws_loop inside [] = [[]]"
| "split_ws_loop inside (x # s) =
     (if is_space x then (if inside then split_ws_loop True s else [] # split_ws_loop True s)
      else (case split_ws_loop False s of w # ws \<Rightarrow> (x # w) # ws | [] \<Rightarrow> [[x]]))"

definition split_ws :: "js_string \<Rightarrow> js_string list" where
  "split_ws s = split_ws_loop False s"

definition trim :: "js_string \<Rightarrow> js_string" where
  "trim s = rev (dropWhile is_space (rev (dropWhile is_space s)))"

definition is_digit_char :: "js_char \<Rightarrow> bool" where
  "is_digit_char c \<longleftrightarrow> 48 \<le> c \<and> c \<le> 57"

text \<open>\<open>replace(/c/g, r)\<close> for a character.\<close>

definition replace_char :: "js_char \<Rightarrow> js_string \<Rightarrow> js_string \<Rightarrow> js_string" where
  "replace_char c r s = concat (map (\<lambda>x. if x = c then r else [x]) s)"

definition endsWith :: "js_string \<Rightarrow> js_string \<Rightarrow> bool" where
  "endsWith s t \<longleftrightarrow> suffix t s"

text \<open>Decimal digits of a number, as string concatenation writes them.\<close>

fun show_nat :: "nat \<Rightarrow> js_string" where
  "show_nat n = (if n < 10 then [of_nat (48 + n)] else show_nat (n div 10) @ [of_nat (48 + n mod 10)])"

declare show_nat.simps [simp del]

definition show_int :: "int \<Rightarrow> js_string" where
  "show_int i = (if i < 0 then 45 # show_nat (nat (- i)) else show_nat (nat i))"

text \<open>Comparison of strings by code units, as the operator \<open><\<close> does.\<close>

fun js_less :: "js_string \<Rightarrow> js_string \<Rightarrow> bool" where
  "js_less s [] = False"
| "js_less [] (y # t) = True"
| "js_less (x # s) (y # t) = (x < y \<or> (x = y \<and> js_less s t))"

lemmas [js_string_simps] = indexOf_def indexOf_from_def substr_def substr1_def from_end_def
  substring_def substring1_def clamp_def charAt_def endsWith_def js_slice_def js_slice1_def

lemma js_find_Some: "js_find sub s = Some k \<Longrightarrow> k \<le> length s \<and> prefix sub (drop k s)"
  by (induction s arbitrary: k) (auto split: if_splits)

lemma js_find_None: "js_find sub s = None \<longleftrightarrow> \<not> sublist sub s"
  by (induction s) (auto simp: sublist_Cons_right)

lemma indexOf_found: "indexOf s sub \<noteq> -1 \<longleftrightarrow> sublist sub s"
  using js_find_None [of sub s] by (auto simp: indexOf_def split: option.splits)

lemma split_char_nonempty [simp]: "split_char c s \<noteq> []"
  by (induction s) (auto split: list.splits)

lemma split_char_parts: "w \<in> set (split_char c s) \<Longrightarrow> c \<notin> set w"
proof (induction s arbitrary: w)
  case (Cons x s)
  then show ?case by (cases "split_char c s") (auto split: if_splits)
qed simp

text \<open>Joining the parts of a split with the separator gives the string back.\<close>

lemma join_split_char: "js_join [c] (split_char c s) = s"
proof (induction s)
  case (Cons x s)
  obtain w ws where ws: "split_char c s = w # ws" by (cases "split_char c s") auto
  then show ?case using Cons by (cases ws) auto
qed simp

section \<open>Objects\<close>

type_synonym 'v js_obj = "(js_string \<times> 'v) list"

fun obj_put :: "'v js_obj \<Rightarrow> js_string \<Rightarrow> 'v \<Rightarrow> 'v js_obj" where
  "obj_put [] k v = [(k, v)]"
| "obj_put ((k', v') # ps) k v = (if k' = k then (k, v) # ps else (k', v') # obj_put ps k v)"

text \<open>The names every plain object inherits.\<close>

definition proto_keys :: "js_string list" where
  "proto_keys = map J [''constructor'', ''hasOwnProperty'', ''isPrototypeOf'', ''propertyIsEnumerable'',
     ''toLocaleString'', ''toString'', ''valueOf'', ''__proto__'', ''__defineGetter__'',
     ''__defineSetter__'', ''__lookupGetter__'', ''__lookupSetter__'']"

datatype 'v slot = Absent | Inherited | Own 'v

definition obj_lookup :: "'v js_obj \<Rightarrow> js_string \<Rightarrow> 'v slot" where
  "obj_lookup ps k = (case map_of ps k of Some v \<Rightarrow> Own v
     | None \<Rightarrow> if k \<in> set proto_keys then Inherited else Absent)"

lemma map_of_obj_put: "map_of (obj_put ps k v) k' = (if k' = k then Some v else map_of ps k')"
  by (induction ps) auto

lemma obj_put_keys: "fst ` set (obj_put ps k v) = insert k (fst ` set ps)"
proof (induction ps)
  case (Cons p ps)
  then show ?case by (cases p) (simp add: insert_commute)
qed simp

lemma obj_put_distinct: "distinct (map fst ps) \<Longrightarrow> distinct (map fst (obj_put ps k v))"
proof (induction ps)
  case (Cons p ps)
  then show ?case using obj_put_keys [of ps k v] by (cases p) (auto simp flip: set_map)
qed simp

section \<open>Sorting\<close>

text \<open>A comparator answers a number: positive when its first argument goes after the second.\<close>

fun sort_insert :: "('a \<Rightarrow> 'a \<Rightarrow> int) \<Rightarrow> 'a \<Rightarrow> 'a list \<Rightarrow> 'a list" where
  "sort_insert cmp x [] = [x]"
| "sort_insert cmp x (y # ys) = (if cmp x y > 0 then y # sort_insert cmp x ys else x # y # ys)"

definition js_sort :: "('a \<Rightarrow> 'a \<Rightarrow> int) \<Rightarrow> 'a list \<Rightarrow> 'a list" where
  "js_sort cmp xs = foldr (sort_insert cmp) xs []"

lemma set_sort_insert [simp]: "set (sort_insert cmp x xs) = insert x (set xs)"
  by (induction xs) auto

lemma length_sort_insert [simp]: "length (sort_insert cmp x xs) = Suc (length xs)"
  by (induction xs) auto

lemma set_js_sort [simp]: "set (js_sort cmp xs) = set xs"
  by (induction xs) (auto simp: js_sort_def)

lemma mset_sort_insert [simp]: "mset (sort_insert cmp x xs) = add_mset x (mset xs)"
  by (induction xs) auto

lemma mset_js_sort [simp]: "mset (js_sort cmp xs) = mset xs"
  by (induction xs) (auto simp: js_sort_def)

lemma length_js_sort [simp]: "length (js_sort cmp xs) = length xs"
  by (induction xs) (auto simp: js_sort_def)

text \<open>A comparator that comes from a number or an order: the sorted list ascends.\<close>

definition consistent :: "('a \<Rightarrow> 'a \<Rightarrow> int) \<Rightarrow> bool" where
  "consistent cmp \<longleftrightarrow> (\<forall>x y. cmp x y > 0 \<longrightarrow> cmp y x \<le> 0) \<and>
     (\<forall>x y z. cmp x y \<le> 0 \<longrightarrow> cmp y z \<le> 0 \<longrightarrow> cmp x z \<le> 0)"

lemma sorted_sort_insert:
  assumes "consistent cmp" and "sorted_wrt (\<lambda>x y. cmp x y \<le> 0) xs"
  shows "sorted_wrt (\<lambda>x y. cmp x y \<le> 0) (sort_insert cmp x xs)"
  using assms(2)
proof (induction xs)
  case (Cons y ys)
  then show ?case
    using assms(1) unfolding consistent_def by (auto simp: not_less)
qed simp

lemma sorted_js_sort:
  "consistent cmp \<Longrightarrow> sorted_wrt (\<lambda>x y. cmp x y \<le> 0) (js_sort cmp xs)"
  by (induction xs) (auto simp: js_sort_def intro: sorted_sort_insert)

end
