(* ===== verification/Js_Stemmer.thy ===== *)
theory Js_Stemmer
  imports Js_Prelude
begin

text \<open>
  The script \<open>documentation_options.js\<close> of the documentation pages: the options record, the Porter
  stemmer \<open>Stemmer.stemWord\<close>, the table \<open>splitChars\<close> and the function \<open>splitQuery\<close>.

  The regular expressions of the stemmer are terms of the type \<open>rx\<close>, built from the same pieces as
  the source builds its pattern strings from; \<open>rests\<close> gives every remainder of the subject after a
  match at its front, so \<open>test_prefix\<close> and \<open>test_full\<close> are \<open>RegExp.test\<close> for patterns that
  start with a caret, without and with a closing dollar. The patterns of the form
  \<open>^(.+?)(a|b|...)$\<close> are \<open>cut_suffix\<close>: the shortest admissible front whose rest is one of the
  alternatives, which is what the lazy quantifier captures.
\<close>

section \<open>Options\<close>

record doc_options =
  URL_ROOT :: js_string
  VERSION :: js_string
  LANGUAGE :: js_string
  COLLAPSE_INDEX :: bool
  FILE_SUFFIX :: js_string
  HAS_SOURCE :: bool
  SOURCELINK_SUFFIX :: js_string
  NAVIGATION_WITH_KEYS :: bool
  SEARCH_LANGUAGE_STOP_WORDS :: "js_string list"

text \<open>The root address is read from an attribute of the page.\<close>

definition DOCUMENTATION_OPTIONS :: "js_string \<Rightarrow> doc_options" where
  "DOCUMENTATION_OPTIONS url_root = \<lparr>
     URL_ROOT = url_root,
     VERSION = J ''v0.17.5'',
     LANGUAGE = J ''None'',
     COLLAPSE_INDEX = False,
     FILE_SUFFIX = J ''.html'',
     HAS_SOURCE = True,
     SOURCELINK_SUFFIX = J ''.txt'',
     NAVIGATION_WITH_KEYS = False,
     SEARCH_LANGUAGE_STOP_WORDS = map J [
     ''a'', ''and'', ''are'', ''as'', ''at'', ''be'', ''but'', ''by'', ''for'', ''if'', ''in'',
     ''into'', ''is'', ''it'', ''near'', ''no'', ''not'', ''of'', ''on'', ''or'', ''such'',
     ''that'', ''the'', ''their'', ''then'', ''there'', ''these'', ''they'', ''this'', ''to'',
     ''was'', ''will'', ''with'']\<rparr>"

section \<open>Regular expressions\<close>

datatype rx = RCls "js_char \<Rightarrow> bool" | RStar "js_char \<Rightarrow> bool" | ROpt rx | RSeq rx rx

fun star_rests :: "(js_char \<Rightarrow> bool) \<Rightarrow> js_string \<Rightarrow> js_string list" where
  "star_rests p [] = [[]]"
| "star_rests p (x # s) = (if p x then star_rests p s @ [x # s] else [x # s])"

fun rests :: "rx \<Rightarrow> js_string \<Rightarrow> js_string list" where
  "rests (RCls p) s = (case s of [] \<Rightarrow> [] | x # t \<Rightarrow> if p x then [t] else [])"
| "rests (RStar p) s = star_rests p s"
| "rests (ROpt r) s = rests r s @ [s]"
| "rests (RSeq r q) s = concat (map (rests q) (rests r s))"

definition test_prefix :: "rx \<Rightarrow> js_string \<Rightarrow> bool" where
  "test_prefix r s \<longleftrightarrow> rests r s \<noteq> []"

definition test_full :: "rx \<Rightarrow> js_string \<Rightarrow> bool" where
  "test_full r s \<longleftrightarrow> [] \<in> set (rests r s)"

definition one_of :: "string \<Rightarrow> js_char \<Rightarrow> bool" where
  "one_of cs c \<longleftrightarrow> c \<in> set (J cs)"

definition none_of :: "string \<Rightarrow> js_char \<Rightarrow> bool" where
  "none_of cs c \<longleftrightarrow> c \<notin> set (J cs)"

text \<open>The dot of a pattern: every character but a line terminator.\<close>

definition is_dot :: "js_char \<Rightarrow> bool" where
  "is_dot c \<longleftrightarrow> c \<notin> {10, 13, 0x2028, 0x2029}"

fun cut_loop :: "js_string list \<Rightarrow> js_string \<Rightarrow> js_string \<Rightarrow> (js_string \<times> js_string) option" where
  "cut_loop alts front [] = None"
| "cut_loop alts front (x # s) =
     (if \<not> is_dot x then None
      else if s \<in> set alts then Some (front @ [x], s)
      else cut_loop alts (front @ [x]) s)"

definition cut_suffix :: "string list \<Rightarrow> js_string \<Rightarrow> (js_string \<times> js_string) option" where
  "cut_suffix alts w = cut_loop (map J alts) [] w"

text \<open>\<open>replace(/.$/, "")\<close>.\<close>

definition chop_last :: "js_string \<Rightarrow> js_string" where
  "chop_last w = (if w \<noteq> [] \<and> is_dot (last w) then butlast w else w)"

section \<open>The stemmer\<close>

definition step2list :: "(string \<times> string) list" where
  "step2list = [
     (''ational'', ''ate''),
     (''tional'', ''tion''),
     (''enci'', ''ence''),
     (''anci'', ''ance''),
     (''izer'', ''ize''),
     (''bli'', ''ble''),
     (''alli'', ''al''),
     (''entli'', ''ent''),
     (''eli'', ''e''),
     (''ousli'', ''ous''),
     (''ization'', ''ize''),
     (''ation'', ''ate''),
     (''ator'', ''ate''),
     (''alism'', ''al''),
     (''iveness'', ''ive''),
     (''fulness'', ''ful''),
     (''ousness'', ''ous''),
     (''aliti'', ''al''),
     (''iviti'', ''ive''),
     (''biliti'', ''ble''),
     (''logi'', ''log'')]"

definition step3list :: "(string \<times> string) list" where
  "step3list = [
     (''icate'', ''ic''),
     (''ative'', ''''),
     (''alize'', ''al''),
     (''iciti'', ''ic''),
     (''ical'', ''ic''),
     (''ful'', ''''),
     (''ness'', '''')]"

definition rx_C :: rx where
  "rx_C = RSeq (RCls (none_of ''aeiou'')) (RStar (none_of ''aeiouy''))"

definition rx_V :: rx where
  "rx_V = RSeq (RCls (one_of ''aeiouy'')) (RStar (one_of ''aeiou''))"

definition mgr0 :: rx where
  "mgr0 = RSeq (ROpt rx_C) (RSeq rx_V rx_C)"

definition meq1 :: rx where
  "meq1 = RSeq (ROpt rx_C) (RSeq rx_V (RSeq rx_C (ROpt rx_V)))"

definition mgr1 :: rx where
  "mgr1 = RSeq (ROpt rx_C) (RSeq rx_V (RSeq rx_C (RSeq rx_V rx_C)))"

definition s_v :: rx where
  "s_v = RSeq (ROpt rx_C) (RCls (one_of ''aeiouy''))"

definition rx_cvc :: rx where
  "rx_cvc = RSeq rx_C (RSeq (RCls (one_of ''aeiouy'')) (RCls (none_of ''aeiouwxy'')))"

definition ends_in :: "string list \<Rightarrow> js_string \<Rightarrow> bool" where
  "ends_in alts w \<longleftrightarrow> (\<exists>a \<in> set alts. suffix (J a) w)"

text \<open>The pattern \<open>^(.+?)([^s])s$\<close> of step 1a: all but the last two characters are in the front.\<close>

definition plural_s :: "js_string \<Rightarrow> bool" where
  "plural_s w \<longleftrightarrow> 3 \<le> length w \<and> last w = of_char (CHR ''s'') \<and>
     last (butlast w) \<noteq> of_char (CHR ''s'') \<and> list_all is_dot (butlast (butlast w))"

definition step1a :: "js_string \<Rightarrow> js_string" where
  "step1a w =
     (case cut_suffix [''sses'', ''ies''] w of
        Some (front, suff) \<Rightarrow> front @ take (length suff - 2) suff
      | None \<Rightarrow> if plural_s w then butlast w else w)"

text \<open>The back reference of step 1b: the last two characters are equal and none of a, e, i, o, u, y, l, s, z.\<close>

definition double_end :: "js_string \<Rightarrow> bool" where
  "double_end w \<longleftrightarrow> 2 \<le> length w \<and> last (butlast w) = last w \<and> none_of ''aeiouylsz'' (last w)"

definition step1b :: "js_string \<Rightarrow> js_string" where
  "step1b w =
     (case cut_suffix [''eed''] w of
        Some (stem, _) \<Rightarrow> if test_prefix mgr0 stem then chop_last w else w
      | None \<Rightarrow>
        (case cut_suffix [''ed'', ''ing''] w of
           None \<Rightarrow> w
         | Some (stem, _) \<Rightarrow>
             if test_prefix s_v stem then
               (if ends_in [''at'', ''bl'', ''iz''] stem then stem @ J ''e''
                else if double_end stem then chop_last stem
                else if test_full rx_cvc stem then stem @ J ''e''
                else stem)
             else w))"

definition step1c :: "js_string \<Rightarrow> js_string" where
  "step1c w =
     (case cut_suffix [''y''] w of
        None \<Rightarrow> w
      | Some (stem, _) \<Rightarrow> if test_prefix s_v stem then stem @ J ''i'' else w)"

text \<open>Steps 2 and 3 look the suffix up in their tables.\<close>

definition step_table :: "(string \<times> string) list \<Rightarrow> js_string \<Rightarrow> js_string" where
  "step_table table w =
     (case cut_suffix (map fst table) w of
        None \<Rightarrow> w
      | Some (stem, suff) \<Rightarrow>
          if test_prefix mgr0 stem
          then stem @ the (map_of (map (\<lambda>(a, b). (J a, J b)) table) suff)
          else w)"

definition step4list :: "string list" where
  "step4list = [''al'', ''ance'', ''ence'', ''er'', ''ic'', ''able'', ''ible'', ''ant'', ''ement'', ''ment'',
     ''ent'', ''ou'', ''ism'', ''ate'', ''iti'', ''ous'', ''ive'', ''ize'']"

definition step4 :: "js_string \<Rightarrow> js_string" where
  "step4 w =
     (case cut_suffix step4list w of
        Some (stem, _) \<Rightarrow> if test_prefix mgr1 stem then stem else w
      | None \<Rightarrow>
        (case cut_suffix [''sion'', ''tion''] w of
           None \<Rightarrow> w
         | Some (front, suff) \<Rightarrow>
             let stem = front @ take 1 suff in if test_prefix mgr1 stem then stem else w))"

definition step5 :: "js_string \<Rightarrow> js_string" where
  "step5 w =
     (let w1 = (case cut_suffix [''e''] w of
                  None \<Rightarrow> w
                | Some (stem, _) \<Rightarrow>
                    if test_prefix mgr1 stem \<or> (test_full meq1 stem \<and> \<not> test_full rx_cvc stem)
                    then stem else w)
      in if ends_in [''ll''] w1 \<and> test_prefix mgr1 w1 then chop_last w1 else w1)"

definition stemWord :: "js_string \<Rightarrow> js_string" where
  "stemWord w =
     (if length w < 3 then w
      else let firstch = substr w 0 1;
               w1 = (if firstch = J ''y'' then J ''Y'' @ substr1 w 1 else w);
               w2 = step5 (step4 (step_table step3list (step_table step2list (step1c (step1b (step1a w1))))))
           in if firstch = J ''y'' then J ''y'' @ substr1 w2 1 else w2)"

section \<open>Splitting a query\<close>

definition split_singles :: "nat list" where
  "split_singles = [
     96, 180, 187, 191, 215, 247, 749, 885, 903, 907, 909, 930, 1014, 1648, 1748, 1809, 2416,
     2473, 2481, 2526, 2601, 2609, 2612, 2615, 2653, 2702, 2706, 2729, 2737, 2740, 2857, 2865,
     2868, 2910, 2928, 2948, 2961, 2971, 2973, 3085, 3089, 3113, 3124, 3213, 3217, 3241, 3252,
     3295, 3341, 3345, 3369, 3506, 3516, 3633, 3715, 3721, 3736, 3744, 3748, 3750, 3756, 3761,
     3781, 3912, 4239, 4347, 4681, 4695, 4697, 4745, 4785, 4799, 4801, 4823, 4881, 5760, 5901,
     5997, 6313, 7405, 8024, 8026, 8028, 8030, 8117, 8125, 8133, 8181, 8468, 8485, 8487, 8489,
     8494, 8527, 11311, 11359, 11687, 11695, 11703, 11711, 11719, 11727, 11735, 12448, 12539,
     43010, 43014, 43019, 43587, 43696, 43713, 64286, 64297, 64311, 64317, 64319, 64322, 64325,
     65141]"

definition split_ranges :: "(nat \<times> nat) list" where
  "split_ranges = [
     (0, 47), (58, 64), (91, 94), (123, 169), (171, 177), (182, 184), (706, 709), (722, 735),
     (741, 747), (751, 879), (888, 889), (894, 901), (1154, 1161), (1318, 1328), (1367, 1368),
     (1370, 1376), (1416, 1487), (1515, 1519), (1523, 1568), (1611, 1631), (1642, 1645),
     (1750, 1764), (1767, 1773), (1789, 1790), (1792, 1807), (1840, 1868), (1958, 1968),
     (1970, 1983), (2027, 2035), (2038, 2041), (2043, 2047), (2070, 2073), (2075, 2083),
     (2085, 2087), (2089, 2307), (2362, 2364), (2366, 2383), (2385, 2391), (2402, 2405),
     (2419, 2424), (2432, 2436), (2445, 2446), (2449, 2450), (2483, 2485), (2490, 2492),
     (2494, 2509), (2511, 2523), (2530, 2533), (2546, 2547), (2554, 2564), (2571, 2574),
     (2577, 2578), (2618, 2648), (2655, 2661), (2672, 2673), (2677, 2692), (2746, 2748),
     (2750, 2767), (2769, 2783), (2786, 2789), (2800, 2820), (2829, 2830), (2833, 2834),
     (2874, 2876), (2878, 2907), (2914, 2917), (2930, 2946), (2955, 2957), (2966, 2968),
     (2976, 2978), (2981, 2983), (2987, 2989), (3002, 3023), (3025, 3045), (3059, 3076),
     (3130, 3132), (3134, 3159), (3162, 3167), (3170, 3173), (3184, 3191), (3199, 3204),
     (3258, 3260), (3262, 3293), (3298, 3301), (3312, 3332), (3386, 3388), (3390, 3423),
     (3426, 3429), (3446, 3449), (3456, 3460), (3479, 3481), (3518, 3519), (3527, 3584),
     (3636, 3647), (3655, 3663), (3674, 3712), (3717, 3718), (3723, 3724), (3726, 3731),
     (3752, 3753), (3764, 3772), (3774, 3775), (3783, 3791), (3802, 3803), (3806, 3839),
     (3841, 3871), (3892, 3903), (3949, 3975), (3980, 4095), (4139, 4158), (4170, 4175),
     (4182, 4185), (4190, 4192), (4194, 4196), (4199, 4205), (4209, 4212), (4226, 4237),
     (4250, 4255), (4294, 4303), (4349, 4351), (4686, 4687), (4702, 4703), (4750, 4751),
     (4790, 4791), (4806, 4807), (4886, 4887), (4955, 4968), (4989, 4991), (5008, 5023),
     (5109, 5120), (5741, 5742), (5787, 5791), (5867, 5869), (5873, 5887), (5906, 5919),
     (5938, 5951), (5970, 5983), (6001, 6015), (6068, 6102), (6104, 6107), (6109, 6111),
     (6122, 6127), (6138, 6159), (6170, 6175), (6264, 6271), (6315, 6319), (6390, 6399),
     (6429, 6469), (6510, 6511), (6517, 6527), (6572, 6592), (6600, 6607), (6619, 6655),
     (6679, 6687), (6741, 6783), (6794, 6799), (6810, 6822), (6824, 6916), (6964, 6980),
     (6988, 6991), (7002, 7042), (7073, 7085), (7098, 7167), (7204, 7231), (7242, 7244),
     (7294, 7400), (7410, 7423), (7616, 7679), (7958, 7959), (7966, 7967), (8006, 8007),
     (8014, 8015), (8062, 8063), (8127, 8129), (8141, 8143), (8148, 8149), (8156, 8159),
     (8173, 8177), (8189, 8303), (8306, 8307), (8314, 8318), (8330, 8335), (8341, 8449),
     (8451, 8454), (8456, 8457), (8470, 8472), (8478, 8483), (8506, 8507), (8512, 8516),
     (8522, 8525), (8586, 9311), (9372, 9449), (9472, 10101), (10132, 11263), (11493, 11498),
     (11503, 11516), (11518, 11519), (11558, 11567), (11622, 11630), (11632, 11647),
     (11671, 11679), (11743, 11822), (11824, 12292), (12296, 12320), (12330, 12336),
     (12342, 12343), (12349, 12352), (12439, 12444), (12544, 12548), (12590, 12592),
     (12687, 12689), (12694, 12703), (12728, 12783), (12800, 12831), (12842, 12880),
     (12896, 12927), (12938, 12976), (12992, 13311), (19894, 19967), (40908, 40959),
     (42125, 42191), (42238, 42239), (42509, 42511), (42540, 42559), (42592, 42593),
     (42607, 42622), (42648, 42655), (42736, 42774), (42784, 42785), (42889, 42890),
     (42893, 43002), (43043, 43055), (43062, 43071), (43124, 43137), (43188, 43215),
     (43226, 43249), (43256, 43258), (43260, 43263), (43302, 43311), (43335, 43359),
     (43389, 43395), (43443, 43470), (43482, 43519), (43561, 43583), (43596, 43599),
     (43610, 43615), (43639, 43641), (43643, 43647), (43698, 43700), (43703, 43704),
     (43710, 43711), (43715, 43738), (43742, 43967), (44003, 44015), (44026, 44031),
     (55204, 55215), (55239, 55242), (55292, 55295), (57344, 63743), (64046, 64047),
     (64110, 64111), (64218, 64255), (64263, 64274), (64280, 64284), (64434, 64466),
     (64830, 64847), (64912, 64913), (64968, 65007), (65020, 65135), (65277, 65295),
     (65306, 65312), (65339, 65344), (65371, 65381), (65471, 65473), (65480, 65481),
     (65488, 65489), (65496, 65497)]"

text \<open>The object \<open>splitChars\<close> as the test its entries answer: the two loops of the source
  set a truthy entry for every single code and for every code of a range.\<close>

definition splitChars :: "js_char \<Rightarrow> bool" where
  "splitChars c \<longleftrightarrow> unat c \<in> set split_singles \<or> (\<exists>(start, stop) \<in> set split_ranges. start \<le> unat c \<and> unat c \<le> stop)"

function splitQuery_loop :: "js_string \<Rightarrow> js_string list \<Rightarrow> int \<Rightarrow> nat \<Rightarrow> js_string list \<times> int" where
  "splitQuery_loop query result start i =
     (if i < length query then
        (if splitChars (query ! i) then
           (if start \<noteq> -1
            then splitQuery_loop query (result @ [js_slice query start (int i)]) (-1) (Suc i)
            else splitQuery_loop query result start (Suc i))
         else if start = -1 then splitQuery_loop query result (int i) (Suc i)
         else splitQuery_loop query result start (Suc i))
      else (result, start))"
  by pat_completeness auto
termination
  by (relation "measure (\<lambda>(query, _, _, i). length query - i)") auto

declare splitQuery_loop.simps [simp del]

definition splitQuery :: "js_string \<Rightarrow> js_string list" where
  "splitQuery query =
     (let (result, start) = splitQuery_loop query [] (-1) 0
      in if start \<noteq> -1 then result @ [js_slice1 query start] else result)"

section \<open>Lemmas on the stemmer\<close>

lemma cut_loop_Some:
  "cut_loop alts front s = Some (a, b) \<Longrightarrow> a @ b = front @ s \<and> b \<in> set alts \<and> length front < length a"
proof (induction s arbitrary: front)
  case (Cons x s)
  then show ?case using Cons.IH [of "front @ [x]"] by (auto split: if_splits)
qed simp

lemma cut_suffix_Some:
  assumes "cut_suffix alts w = Some (a, b)"
  shows "w = a @ b" and "a \<noteq> []" and "b \<in> set (map J alts)"
  using cut_loop_Some [of "map J alts" "[]" w a b] assms by (auto simp: cut_suffix_def)

lemma cut_suffix_dest: "cut_suffix alts w = Some (a, b) \<Longrightarrow> w = a @ b \<and> a \<noteq> [] \<and> b \<in> set (map J alts)"
  using cut_suffix_Some by blast

text \<open>What every step of the stemmer keeps: the first character, and the length does not grow.\<close>

definition shortens :: "js_string \<Rightarrow> js_string \<Rightarrow> bool" where
  "shortens w w' \<longleftrightarrow> w' \<noteq> [] \<and> hd w' = hd w \<and> length w' \<le> length w"

lemma shortens_refl: "w \<noteq> [] \<Longrightarrow> shortens w w"
  by (simp add: shortens_def)

lemma shortens_trans: "shortens u v \<Longrightarrow> shortens v w \<Longrightarrow> shortens u w"
  by (auto simp: shortens_def)

lemma shortens_cut: "a \<noteq> [] \<Longrightarrow> length c \<le> length b \<Longrightarrow> shortens (a @ b) (a @ c)"
  by (simp add: shortens_def)

lemma shortens_cut0: "a \<noteq> [] \<Longrightarrow> shortens (a @ b) a"
  by (simp add: shortens_def)

lemma hd_butlast: "2 \<le> length w \<Longrightarrow> hd (butlast w) = hd w \<and> butlast w \<noteq> []"
  by (cases w; cases "tl w") auto

lemma shortens_butlast: "2 \<le> length w \<Longrightarrow> shortens w (butlast w)"
  by (simp add: shortens_def hd_butlast)

lemma shortens_chop: "2 \<le> length w \<Longrightarrow> shortens w (chop_last w)"
  by (auto simp: chop_last_def intro: shortens_butlast shortens_refl)

lemma step1a_shortens: "w \<noteq> [] \<Longrightarrow> shortens w (step1a w)"
  by (auto simp: step1a_def plural_s_def intro: shortens_refl shortens_butlast
      dest!: cut_suffix_dest intro!: shortens_cut split: option.splits)

lemma step1b_shortens: "w \<noteq> [] \<Longrightarrow> shortens w (step1b w)"
proof -
  assume w: "w \<noteq> []"
  have eed: "shortens w (chop_last w)" if "cut_suffix [''eed''] w = Some (a, b)" for a b
    using cut_suffix_Some [OF that] by (auto intro!: shortens_chop)
  have ing: "shortens w (a @ J ''e'')" "shortens w a" "double_end a \<Longrightarrow> shortens w (chop_last a)"
    if "cut_suffix [''ed'', ''ing''] w = Some (a, b)" for a b
    using cut_suffix_Some [OF that]
    by (auto intro: shortens_cut shortens_cut0 shortens_trans [OF shortens_cut0 shortens_chop]
        simp: double_end_def)
  show ?thesis
    using w eed ing by (auto simp: step1b_def intro: shortens_refl simp del: J_simps split: option.splits)
qed

lemma step1c_shortens: "w \<noteq> [] \<Longrightarrow> shortens w (step1c w)"
  by (auto simp: step1c_def intro: shortens_refl
      dest!: cut_suffix_dest intro!: shortens_cut split: option.splits)

definition table_ok :: "(string \<times> string) list \<Rightarrow> bool" where
  "table_ok table \<longleftrightarrow> (\<forall>(a, b) \<in> set table. length b \<le> length a)"

lemma step2list_ok: "table_ok step2list" and step3list_ok: "table_ok step3list"
  by (simp_all add: table_ok_def step2list_def step3list_def)

lemma step_table_shortens:
  assumes "table_ok table" and w: "w \<noteq> []"
  shows "shortens w (step_table table w)"
proof (cases "cut_suffix (map fst table) w")
  case (Some p)
  obtain a b where p: "p = (a, b)" by (cases p)
  note ab = cut_suffix_Some [OF Some [unfolded p]]
  let ?T = "map (\<lambda>(a, b). (J a, J b)) table"
  have "b \<in> set (map fst ?T)" using ab(3) by force
  then obtain v where v: "map_of ?T b = Some v" by (cases "map_of ?T b") (auto simp: map_of_eq_None_iff)
  then have "(b, v) \<in> set ?T" by (rule map_of_SomeD)
  then have "length v \<le> length b" using assms(1) by (auto simp: table_ok_def J_def)
  then show ?thesis
    using Some p ab v w by (auto simp: step_table_def intro: shortens_refl shortens_cut)
qed (simp add: step_table_def shortens_refl w)

lemma step4_shortens: "w \<noteq> [] \<Longrightarrow> shortens w (step4 w)"
  by (auto simp: step4_def Let_def intro: shortens_refl shortens_cut0
      dest!: cut_suffix_dest intro!: shortens_cut split: option.splits)

lemma step5_shortens: "w \<noteq> [] \<Longrightarrow> shortens w (step5 w)"
proof -
  assume w: "w \<noteq> []"
  define w1 where "w1 = (case cut_suffix [''e''] w of None \<Rightarrow> w | Some (stem, _) \<Rightarrow>
      if test_prefix mgr1 stem \<or> (test_full meq1 stem \<and> \<not> test_full rx_cvc stem) then stem else w)"
  have 1: "shortens w w1"
    using w by (auto simp: w1_def intro: shortens_refl shortens_cut0 dest!: cut_suffix_dest split: option.splits)
  have "ends_in [''ll''] w1 \<Longrightarrow> shortens w1 (chop_last w1)"
    by (rule shortens_chop) (auto simp: ends_in_def dest: suffix_length_le)
  then show ?thesis
    using 1 by (auto simp: step5_def Let_def simp flip: w1_def intro: shortens_trans)
qed

lemma shortens_step: "(\<And>w. w \<noteq> [] \<Longrightarrow> shortens w (f w)) \<Longrightarrow> shortens u v \<Longrightarrow> shortens u (f v)"
  by (metis shortens_def shortens_trans)

lemma steps_shorten:
  assumes "w \<noteq> []"
  shows "shortens w (step5 (step4 (step_table step3list (step_table step2list (step1c (step1b (step1a w)))))))"
proof -
  note s = step1a_shortens [OF assms]
  note s = shortens_step [of step1b, OF step1b_shortens s]
  note s = shortens_step [of step1c, OF step1c_shortens s]
  note s = shortens_step [of "step_table step2list", OF step_table_shortens [OF step2list_ok] s]
  note s = shortens_step [of "step_table step3list", OF step_table_shortens [OF step3list_ok] s]
  note s = shortens_step [of step4, OF step4_shortens s]
  show ?thesis by (rule shortens_step [of step5, OF step5_shortens s])
qed

lemma stemWord_shortens: "w \<noteq> [] \<Longrightarrow> shortens w (stemWord w)"
proof -
  assume w: "w \<noteq> []"
  then obtain c s where cs: "w = c # s" by (cases w) auto
  show ?thesis
  proof (cases "length w < 3")
    case False
    then show ?thesis
      using cs steps_shorten [of w] steps_shorten [of "J ''Y'' @ s"]
      by (auto simp: stemWord_def Let_def substr_def substr1_def from_end_def shortens_def)
  qed (simp add: stemWord_def shortens_refl w)
qed

section \<open>Lemmas on the splitting\<close>

text \<open>The reference: the parts between the split characters, the empty ones left out.\<close>

fun split_on :: "('a \<Rightarrow> bool) \<Rightarrow> 'a list \<Rightarrow> 'a list list" where
  "split_on p [] = [[]]"
| "split_on p (x # s) =
     (if p x then [] # split_on p s
      else (case split_on p s of w # ws \<Rightarrow> (x # w) # ws | [] \<Rightarrow> [[x]]))"

definition words_of :: "('a \<Rightarrow> bool) \<Rightarrow> 'a list \<Rightarrow> 'a list list" where
  "words_of p s = filter (\<lambda>w. w \<noteq> []) (split_on p s)"

lemma split_on_not_Nil [simp]: "split_on p s \<noteq> []"
  by (induction s) (auto split: list.splits)

lemma split_on_append:
  "list_all (\<lambda>x. \<not> p x) cur \<Longrightarrow> split_on p (cur @ s) = (cur @ hd (split_on p s)) # tl (split_on p s)"
  by (induction cur) auto

lemma words_of_open: "list_all (\<lambda>x. \<not> p x) cur \<Longrightarrow> p x \<Longrightarrow>
    words_of p (cur @ x # s) = (if cur = [] then [] else [cur]) @ words_of p s"
  by (auto simp: words_of_def split_on_append)

lemma split_on_parts: "\<forall>w \<in> set (split_on p s). \<forall>x \<in> set w. \<not> p x"
proof (induction s)
  case (Cons y s)
  then show ?case by (cases "split_on p s") (auto split: if_splits)
qed simp

lemma words_of_parts: "w \<in> set (words_of p s) \<Longrightarrow> w \<noteq> [] \<and> (\<forall>x \<in> set w. \<not> p x)"
  using split_on_parts [of p s] by (auto simp: words_of_def)

lemma words_of_concat: "concat (words_of p s) = filter (\<lambda>x. \<not> p x) s"
proof (induction s)
  case (Cons x s)
  then show ?case by (cases "split_on p s") (auto simp: words_of_def split: if_splits)
qed (simp add: words_of_def)

text \<open>What the scan has open at position \<open>i\<close>: the word from \<open>start\<close> on, if there is one.\<close>

definition open_word :: "js_string \<Rightarrow> int \<Rightarrow> nat \<Rightarrow> js_string" where
  "open_word q start i = (if start = -1 then [] else take (i - nat start) (drop (nat start) q))"

definition scan_ok :: "js_string \<Rightarrow> int \<Rightarrow> nat \<Rightarrow> bool" where
  "scan_ok q start i \<longleftrightarrow> i \<le> length q \<and> (start = -1 \<or> 0 \<le> start \<and> start < int i) \<and>
     list_all (\<lambda>x. \<not> splitChars x) (open_word q start i)"

definition scan_result :: "js_string \<Rightarrow> js_string list \<times> int \<Rightarrow> js_string list" where
  "scan_result q = (\<lambda>(result, start). if start \<noteq> -1 then result @ [js_slice1 q start] else result)"

lemma open_word_Suc:
  assumes "i < length q" and "start = -1 \<or> 0 \<le> start \<and> start < int i"
  shows "open_word q (if start = -1 then int i else start) (Suc i) = open_word q start i @ [q ! i]"
proof (cases "start = -1")
  case True
  then show ?thesis using assms by (simp add: open_word_def take_Suc hd_drop_conv_nth)
next
  case False
  then obtain k where "start = int k" "k < i" using assms(2) by (metis nat_less_iff int_nat_eq nat_int)
  then show ?thesis using assms(1) by (simp add: open_word_def Suc_diff_le take_Suc_conv_app_nth)
qed

lemma splitQuery_loop_words:
  "scan_ok q start i \<Longrightarrow>
     scan_result q (splitQuery_loop q result start i)
     = result @ words_of splitChars (open_word q start i @ drop i q)"
proof (induction q result start i rule: splitQuery_loop.induct)
  case (1 q result start i)
  note ok = "1.prems"
  show ?case
  proof (cases "i < length q")
    case True
    have rest: "drop i q = q ! i # drop (Suc i) q" using True by (simp add: Cons_nth_drop_Suc)
    have st: "start = -1 \<or> 0 \<le> start \<and> start < int i" using ok by (simp add: scan_ok_def)
    show ?thesis
    proof (cases "splitChars (q ! i)")
      case sp: True
      have ok': "scan_ok q (-1) (Suc i)" using True by (simp add: scan_ok_def open_word_def)
      show ?thesis
        using "1.IH"(1,2) [OF True sp] ok' sp st True ok words_of_open [of splitChars "open_word q start i" "q ! i"]
        by (subst splitQuery_loop.simps)
          (auto simp: rest scan_ok_def open_word_def js_slice_def nat_diff_distrib)
    next
      case ns: False
      let ?st = "if start = -1 then int i else start"
      have ow: "open_word q ?st (Suc i) = open_word q start i @ [q ! i]"
        by (rule open_word_Suc [OF True st])
      have ok': "scan_ok q ?st (Suc i)"
        using ok ns True ow by (auto simp: scan_ok_def)
      show ?thesis
        using "1.IH"(3,4) [OF True ns] ok' ow ns True
        by (subst splitQuery_loop.simps) (auto simp: rest split: if_splits)
    qed
  next
    case False
    then show ?thesis
      using ok words_of_open [of splitChars "open_word q start i"] split_on_append [of splitChars "open_word q start i" "[]"]
      by (subst splitQuery_loop.simps)
        (auto simp: scan_ok_def scan_result_def open_word_def words_of_def js_slice1_def js_slice_def)
  qed
qed

lemma splitQuery_words: "splitQuery q = words_of splitChars q"
  using splitQuery_loop_words [of q "-1" 0 "[]"]
  by (simp add: splitQuery_def scan_result_def scan_ok_def open_word_def split_def Let_def)

section \<open>Properties\<close>

text \<open>
  Stemming never loses a word: the stem of a nonempty word is nonempty, begins with the same
  character and is not longer than the word.\<close>

theorem stemWord_keeps:
  "w \<noteq> [] \<Longrightarrow> stemWord w \<noteq> [] \<and> hd (stemWord w) = hd w \<and> length (stemWord w) \<le> length w"
  using stemWord_shortens [of w] by (simp add: shortens_def)

theorem stemWord_keeps_witness:
  "J ''yes'' \<noteq> [] \<and> (let w = stemWord (J ''yes'') in w \<noteq> [] \<and> hd w = hd (J ''yes'') \<and> length w \<le> 3)"
  using stemWord_keeps [of "J ''yes''"] by simp

text \<open>
  The scanning loop of the query splitter computes exactly the maximal runs of characters
  that are not split characters, in order: its words are the nonempty parts between split characters.\<close>

theorem splitQuery_spec: "splitQuery q = words_of splitChars q"
  by (rule splitQuery_words)

end
