(* ===== verification/Us_Values.thy ===== *)
theory Us_Values
  imports Js_Prelude
begin

text \<open>
  The values and calls that the collection library \<open>underscore-1.3.1.js\<close> works with.

  \<^item> A value is undefined, null, a boolean, a number, a string or a reference to an object or
    function. Numbers are the integers and the four special values of the number type; the
    conversions \<open>ToNumber\<close> and \<open>ToString\<close> of other values are arguments of the operations that use
    them, because they may call methods of the value.
  \<^item> A callback is an action: it maps a state of the world to its result, or to the exception it
    throws, and the next state. \<open>andThen\<close> sequences actions.
  \<^item> A collection is what \<open>each\<close> distinguishes: null or undefined, an array (an element may be
    missing), another object with a numeric length, or any other object with its own properties.
  \<^item> The record \<open>natives\<close> says which ECMAScript 5 methods the browser offers, one field for each
    of the variables of the source; every function of the library branches on them.
\<close>

section \<open>Values\<close>

datatype js_num = NaN | NInf | PInf | NZero | Fin int

datatype js_val = JUndef | JNull | JBool bool | JNum js_num | JStr js_string | JRef nat

fun truthy :: "js_val \<Rightarrow> bool" where
  "truthy JUndef = False"
| "truthy JNull = False"
| "truthy (JBool b) = b"
| "truthy (JNum n) = (n \<notin> {NaN, NZero, Fin 0})"
| "truthy (JStr s) = (s \<noteq> [])"
| "truthy (JRef r) = True"

definition num_eq :: "js_num \<Rightarrow> js_num \<Rightarrow> bool" where
  "num_eq a b \<longleftrightarrow> a \<noteq> NaN \<and> b \<noteq> NaN \<and> (a = b \<or> {a, b} = {NZero, Fin 0})"

text \<open>The operator \<open>===\<close>.\<close>

fun strict_eq :: "js_val \<Rightarrow> js_val \<Rightarrow> bool" where
  "strict_eq (JNum a) (JNum b) = num_eq a b"
| "strict_eq a b = (a = b)"

fun num_rank :: "js_num \<Rightarrow> int \<times> int" where
  "num_rank NInf = (-1, 0)"
| "num_rank PInf = (1, 0)"
| "num_rank (Fin n) = (0, n)"
| "num_rank _ = (0, 0)"

definition num_less :: "js_num \<Rightarrow> js_num \<Rightarrow> bool" where
  "num_less a b \<longleftrightarrow> a \<noteq> NaN \<and> b \<noteq> NaN \<and>
     (fst (num_rank a) < fst (num_rank b) \<or>
      fst (num_rank a) = fst (num_rank b) \<and> snd (num_rank a) < snd (num_rank b))"

text \<open>The operators \<open><\<close> and \<open>>=\<close> on values; \<open>num\<close> is the conversion \<open>ToNumber\<close>.\<close>

definition js_lt :: "(js_val \<Rightarrow> js_num) \<Rightarrow> js_val \<Rightarrow> js_val \<Rightarrow> bool" where
  "js_lt num a b = (case (a, b) of (JStr s, JStr t) \<Rightarrow> js_less s t | _ \<Rightarrow> num_less (num a) (num b))"

definition js_ge :: "(js_val \<Rightarrow> js_num) \<Rightarrow> js_val \<Rightarrow> js_val \<Rightarrow> bool" where
  "js_ge num a b = (case (a, b) of (JStr s, JStr t) \<Rightarrow> \<not> js_less s t
     | _ \<Rightarrow> num a \<noteq> NaN \<and> num b \<noteq> NaN \<and> \<not> num_less (num a) (num b))"

section \<open>Actions\<close>

datatype js_err = TypeError | RangeError | Thrown js_val

type_synonym ('s, 'a) act = "'s \<Rightarrow> (js_err + 'a) \<times> 's"

definition ret :: "'a \<Rightarrow> ('s, 'a) act" where
  "ret a s = (Inr a, s)"

definition throw :: "js_err \<Rightarrow> ('s, 'a) act" where
  "throw e s = (Inl e, s)"

definition andThen :: "('s, 'a) act \<Rightarrow> ('a \<Rightarrow> ('s, 'b) act) \<Rightarrow> ('s, 'b) act" where
  "andThen m f s = (case m s of (Inl e, s') \<Rightarrow> (Inl e, s') | (Inr a, s') \<Rightarrow> f a s')"

text \<open>
  A closure of the library has variables of its own beside the world: \<open>on_user\<close> runs the
  caller's function on the world and then updates the variables, \<open>with_local\<close> introduces them.
\<close>

definition on_user :: "('w, 'a) act \<Rightarrow> ('a \<Rightarrow> 'l \<Rightarrow> 'b \<times> 'l) \<Rightarrow> ('w \<times> 'l, 'b) act" where
  "on_user m g = (\<lambda>(w, l). case m w of
     (Inl e, w') \<Rightarrow> (Inl e, (w', l))
   | (Inr a, w') \<Rightarrow> (let (b, l') = g a l in (Inr b, (w', l'))))"

definition with_local :: "'l \<Rightarrow> ('w \<times> 'l, unit) act \<Rightarrow> ('l \<Rightarrow> ('w, 'a) act) \<Rightarrow> ('w, 'a) act" where
  "with_local l m fin w = (case m (w, l) of
     (Inl e, (w', _)) \<Rightarrow> (Inl e, w')
   | (Inr _, (w', l')) \<Rightarrow> fin l' w')"

named_theorems act_simps \<open>evaluation of actions\<close>

lemmas [act_simps] = ret_def throw_def andThen_def on_user_def with_local_def

section \<open>Collections\<close>

datatype js_key = KIdx nat | KStr js_string

type_synonym js_array = "js_val option list"

datatype js_coll =
    CNull
  | CArr js_array
  | CLike bool js_array
  | CObj "js_val js_obj"

record natives =
  nativeForEach :: bool
  nativeMap :: bool
  nativeReduce :: bool
  nativeReduceRight :: bool
  nativeFilter :: bool
  nativeEvery :: bool
  nativeSome :: bool
  nativeIndexOf :: bool
  nativeLastIndexOf :: bool
  nativeIsArray :: bool
  nativeKeys :: bool
  nativeBind :: bool

text \<open>The elements that are present, with their indices.\<close>

fun present :: "nat \<Rightarrow> js_array \<Rightarrow> (js_key \<times> js_val) list" where
  "present i [] = []"
| "present i (None # xs) = present (Suc i) xs"
| "present i (Some v # xs) = (KIdx i, v) # present (Suc i) xs"

fun entries :: "js_coll \<Rightarrow> (js_key \<times> js_val) list" where
  "entries CNull = []"
| "entries (CArr xs) = present 0 xs"
| "entries (CLike _ xs) = present 0 xs"
| "entries (CObj ps) = map (\<lambda>(k, v). (KStr k, v)) ps"

text \<open>The length property where it is a number.\<close>

fun coll_length :: "js_coll \<Rightarrow> nat option" where
  "coll_length (CArr xs) = Some (length xs)"
| "coll_length (CLike _ xs) = Some (length xs)"
| "coll_length _ = None"

text \<open>No element is missing.\<close>

fun dense :: "js_coll \<Rightarrow> bool" where
  "dense (CArr xs) = list_all (\<lambda>x. x \<noteq> None) xs"
| "dense (CLike _ xs) = list_all (\<lambda>x. x \<noteq> None) xs"
| "dense _ = True"

text \<open>Assigning the length: the array is cut or gets missing elements at its end.\<close>

definition set_length :: "nat \<Rightarrow> js_array \<Rightarrow> js_array" where
  "set_length n xs = take n xs @ replicate (n - length xs) None"

text \<open>Reading and writing an index; a write beyond the end leaves missing elements.\<close>

definition arr_get :: "js_array \<Rightarrow> nat \<Rightarrow> js_val" where
  "arr_get xs i = (if i < length xs then (case xs ! i of Some v \<Rightarrow> v | None \<Rightarrow> JUndef) else JUndef)"

definition arr_set :: "js_array \<Rightarrow> nat \<Rightarrow> js_val \<Rightarrow> js_array" where
  "arr_set xs i v = (if i < length xs then xs[i := Some v] else set_length i xs @ [Some v])"

lemma length_present_dense: "list_all (\<lambda>x. x \<noteq> None) xs \<Longrightarrow> length (present i xs) = length xs"
  by (induction i xs rule: present.induct) auto

lemma map_snd_present: "map snd (present i xs) = map the (filter (\<lambda>x. x \<noteq> None) xs)"
  by (induction i xs rule: present.induct) auto

lemma present_dense: "list_all (\<lambda>x. x \<noteq> None) xs \<Longrightarrow> map (Some \<circ> snd) (present i xs) = xs"
  by (induction i xs rule: present.induct) auto

lemma strict_eq_refl: "strict_eq v v \<longleftrightarrow> v \<noteq> JNum NaN"
  by (cases v) (auto simp: num_eq_def)

lemma strict_eq_sym: "strict_eq u v \<longleftrightarrow> strict_eq v u"
  by (cases u; cases v) (auto simp: num_eq_def)

lemma strict_eq_trans: "strict_eq u v \<Longrightarrow> strict_eq v w \<Longrightarrow> strict_eq u w"
  by (cases u; cases v; cases w) (auto simp: num_eq_def doubleton_eq_iff)

end
