(* ===== verification/Us_Collections.thy ===== *)
theory Us_Collections
  imports Us_Values
begin

text \<open>
  The collection functions of \<open>underscore-1.3.1.js\<close>, lines 69 to 313. Every function follows the
  source: it answers at once for null, delegates to the native method when the collection is an
  array and the browser has the method, and otherwise runs a closure with variables of its own
  through \<open>each\<close>. The \<open>es_\<close> functions are the native methods of the language standard on the
  elements that are present.
\<close>

section \<open>Iteration\<close>

type_synonym ('w, 'a) iter = "js_val \<Rightarrow> js_key \<Rightarrow> ('w, 'a) act"

text \<open>The closure answers whether it returned the breaker; the native \<open>forEach\<close> does not look at it.\<close>

fun visit :: "bool \<Rightarrow> ('s, bool) iter \<Rightarrow> (js_key \<times> js_val) list \<Rightarrow> ('s, unit) act" where
  "visit brk cb [] = ret ()"
| "visit brk cb ((k, v) # es) =
     andThen (cb v k) (\<lambda>b. if b \<and> brk then ret () else visit brk cb es)"

definition each :: "natives \<Rightarrow> js_coll \<Rightarrow> ('s, bool) iter \<Rightarrow> ('s, unit) act" where
  "each N obj iterator =
     (case obj of
        CNull \<Rightarrow> ret ()
      | CArr xs \<Rightarrow> if nativeForEach N then visit False iterator (present 0 xs)
                  else visit True iterator (present 0 xs)
      | CLike _ xs \<Rightarrow> visit True iterator (present 0 xs)
      | CObj ps \<Rightarrow> visit True iterator (map (\<lambda>(k, v). (KStr k, v)) ps))"

section \<open>Native methods\<close>

fun arr_map :: "('w, js_val) iter \<Rightarrow> nat \<Rightarrow> js_array \<Rightarrow> ('w, js_array) act" where
  "arr_map f i [] = ret []"
| "arr_map f i (None # xs) = andThen (arr_map f (Suc i) xs) (\<lambda>r. ret (None # r))"
| "arr_map f i (Some v # xs) =
     andThen (f v (KIdx i)) (\<lambda>y. andThen (arr_map f (Suc i) xs) (\<lambda>r. ret (Some y # r)))"

fun es_filter :: "('w, js_val) iter \<Rightarrow> (js_key \<times> js_val) list \<Rightarrow> ('w, js_val list) act" where
  "es_filter f [] = ret []"
| "es_filter f ((k, v) # es) =
     andThen (f v k) (\<lambda>t. andThen (es_filter f es) (\<lambda>r. ret (if truthy t then v # r else r)))"

fun es_every :: "('w, js_val) iter \<Rightarrow> (js_key \<times> js_val) list \<Rightarrow> ('w, bool) act" where
  "es_every f [] = ret True"
| "es_every f ((k, v) # es) = andThen (f v k) (\<lambda>t. if truthy t then es_every f es else ret False)"

fun es_some :: "('w, js_val) iter \<Rightarrow> (js_key \<times> js_val) list \<Rightarrow> ('w, bool) act" where
  "es_some f [] = ret False"
| "es_some f ((k, v) # es) = andThen (f v k) (\<lambda>t. if truthy t then ret True else es_some f es)"

fun es_reduce :: "('m \<Rightarrow> ('w, 'm) iter) \<Rightarrow> 'm \<Rightarrow> (js_key \<times> js_val) list \<Rightarrow> ('w, 'm) act" where
  "es_reduce f memo [] = ret memo"
| "es_reduce f memo ((k, v) # es) = andThen (f memo v k) (\<lambda>m. es_reduce f m es)"

text \<open>Without an initial value the first element that is present is it.\<close>

fun es_reduce1 :: "(js_val \<Rightarrow> 'm) \<Rightarrow> ('m \<Rightarrow> ('w, 'm) iter) \<Rightarrow> (js_key \<times> js_val) list \<Rightarrow> ('w, 'm) act" where
  "es_reduce1 of_val f [] = throw TypeError"
| "es_reduce1 of_val f ((k, v) # es) = es_reduce f (of_val v) es"

definition arr_indexOf :: "js_array \<Rightarrow> js_val \<Rightarrow> int" where
  "arr_indexOf xs item =
     (case find (\<lambda>i. case xs ! i of Some v \<Rightarrow> strict_eq v item | None \<Rightarrow> False) [0..<length xs] of
        None \<Rightarrow> -1 | Some i \<Rightarrow> int i)"

section \<open>The functions\<close>

definition map_us :: "natives \<Rightarrow> js_coll \<Rightarrow> ('w, js_val) iter \<Rightarrow> ('w, js_array) act" where
  "map_us N obj iterator =
     (let fallback =
        with_local [] (each N obj (\<lambda>v k. on_user (iterator v k) (\<lambda>y results. (False, results @ [Some y]))))
          (\<lambda>results. ret (case coll_length obj of Some n \<Rightarrow> set_length n results | None \<Rightarrow> results))
      in case obj of
           CNull \<Rightarrow> ret []
         | CArr xs \<Rightarrow> if nativeMap N then arr_map iterator 0 xs else fallback
         | _ \<Rightarrow> fallback)"

text \<open>The memo may have a type of its own: \<open>of_val\<close> makes a memo of an element, for the call
  without an initial memo.\<close>

definition reduce_us ::
    "natives \<Rightarrow> js_coll \<Rightarrow> (js_val \<Rightarrow> 'm) \<Rightarrow> ('m \<Rightarrow> ('w, 'm) iter) \<Rightarrow> 'm option \<Rightarrow> ('w, 'm) act" where
  "reduce_us N obj0 of_val iterator memo0 =
     (let obj = (case obj0 of CNull \<Rightarrow> CArr [] | _ \<Rightarrow> obj0);
          fallback =
            with_local memo0
              (each N obj (\<lambda>v k. \<lambda>(w, memo). case memo of
                 None \<Rightarrow> (Inr False, (w, Some (of_val v)))
               | Some m \<Rightarrow> on_user (iterator m v k) (\<lambda>m' _. (False, Some m')) (w, memo)))
              (\<lambda>memo. case memo of None \<Rightarrow> throw TypeError | Some m \<Rightarrow> ret m)
      in case obj of
           CArr xs \<Rightarrow>
             if nativeReduce N then
               (case memo0 of Some m \<Rightarrow> es_reduce iterator m (present 0 xs)
                            | None \<Rightarrow> es_reduce1 of_val iterator (present 0 xs))
             else fallback
         | _ \<Rightarrow> fallback)"

text \<open>The value is the identity on values; \<open>values\<close> of an array-like object loses its missing elements.\<close>

definition values_us :: "natives \<Rightarrow> js_coll \<Rightarrow> js_array" where
  "values_us N obj = (case map_us N obj (\<lambda>v k. ret v) () of (Inr r, _) \<Rightarrow> r | (Inl e, _) \<Rightarrow> [])"

text \<open>\<open>own\<close> is what a method \<open>toArray\<close> of the collection returns, when it has one.\<close>

definition toArray :: "natives \<Rightarrow> js_array option \<Rightarrow> js_coll \<Rightarrow> js_array" where
  "toArray N own iterable =
     (case iterable of
        CNull \<Rightarrow> []
      | _ \<Rightarrow> (case own of
          Some r \<Rightarrow> r
        | None \<Rightarrow> (case iterable of
            CArr xs \<Rightarrow> xs
          | CLike True xs \<Rightarrow> xs
          | _ \<Rightarrow> values_us N iterable)))"

definition size_us :: "natives \<Rightarrow> js_array option \<Rightarrow> js_coll \<Rightarrow> nat" where
  "size_us N own obj = length (toArray N own obj)"

definition reduceRight ::
    "natives \<Rightarrow> js_array option \<Rightarrow> js_coll \<Rightarrow> (js_val \<Rightarrow> 'm) \<Rightarrow> ('m \<Rightarrow> ('w, 'm) iter) \<Rightarrow> 'm option \<Rightarrow> ('w, 'm) act" where
  "reduceRight N own obj0 of_val iterator memo0 =
     (let obj = (case obj0 of CNull \<Rightarrow> CArr [] | _ \<Rightarrow> obj0);
          fallback = reduce_us N (CArr (rev (toArray N own obj))) of_val iterator memo0
      in case obj of
           CArr xs \<Rightarrow>
             if nativeReduceRight N then
               (case memo0 of Some m \<Rightarrow> es_reduce iterator m (rev (present 0 xs))
                            | None \<Rightarrow> es_reduce1 of_val iterator (rev (present 0 xs)))
             else fallback
         | _ \<Rightarrow> fallback)"

definition any_us :: "natives \<Rightarrow> js_coll \<Rightarrow> ('w, js_val) iter option \<Rightarrow> ('w, bool) act" where
  "any_us N obj iterator0 =
     (let iterator = (case iterator0 of Some f \<Rightarrow> f | None \<Rightarrow> (\<lambda>v k. ret v));
          fallback =
            with_local (JBool False)
              (each N obj (\<lambda>v k. \<lambda>(w, result).
                 if truthy result then (Inr True, (w, result))
                 else on_user (iterator v k) (\<lambda>t _. (truthy t, t)) (w, result)))
              (\<lambda>result. ret (truthy result))
      in case obj of
           CNull \<Rightarrow> ret False
         | CArr xs \<Rightarrow> if nativeSome N then es_some iterator (present 0 xs) else fallback
         | _ \<Rightarrow> fallback)"

text \<open>The result variable of \<open>find\<close> lives in the closure handed to \<open>any\<close>.\<close>

definition find_us :: "natives \<Rightarrow> js_coll \<Rightarrow> ('w, js_val) iter \<Rightarrow> ('w, js_val) act" where
  "find_us N obj iterator w =
     (case any_us N obj (Some (\<lambda>v k. on_user (iterator v k)
             (\<lambda>t result. if truthy t then (JBool True, v) else (JUndef, result)))) (w, JUndef) of
        (Inl e, (w', _)) \<Rightarrow> (Inl e, w')
      | (Inr _, (w', result)) \<Rightarrow> (Inr result, w'))"

definition filter_us :: "natives \<Rightarrow> js_coll \<Rightarrow> ('w, js_val) iter \<Rightarrow> ('w, js_val list) act" where
  "filter_us N obj iterator =
     (let fallback =
        with_local [] (each N obj (\<lambda>v k. on_user (iterator v k)
          (\<lambda>t results. (False, if truthy t then results @ [v] else results)))) ret
      in case obj of
           CNull \<Rightarrow> ret []
         | CArr xs \<Rightarrow> if nativeFilter N then es_filter iterator (present 0 xs) else fallback
         | _ \<Rightarrow> fallback)"

definition reject :: "natives \<Rightarrow> js_coll \<Rightarrow> ('w, js_val) iter \<Rightarrow> ('w, js_val list) act" where
  "reject N obj iterator =
     (if obj = CNull then ret []
      else with_local [] (each N obj (\<lambda>v k. on_user (iterator v k)
        (\<lambda>t results. (False, if \<not> truthy t then results @ [v] else results)))) ret)"

text \<open>The native method answers a boolean, the closure the last value the iterator returned.\<close>

definition every_us :: "natives \<Rightarrow> js_coll \<Rightarrow> ('w, js_val) iter \<Rightarrow> ('w, js_val) act" where
  "every_us N obj iterator =
     (let fallback =
        with_local (JBool True)
          (each N obj (\<lambda>v k. \<lambda>(w, result).
             if truthy result then on_user (iterator v k) (\<lambda>t _. (\<not> truthy t, t)) (w, result)
             else (Inr True, (w, result))))
          ret
      in case obj of
           CNull \<Rightarrow> ret (JBool True)
         | CArr xs \<Rightarrow> if nativeEvery N then andThen (es_every iterator (present 0 xs)) (\<lambda>b. ret (JBool b))
                     else fallback
         | _ \<Rightarrow> fallback)"

definition include_us :: "natives \<Rightarrow> js_coll \<Rightarrow> js_val \<Rightarrow> bool" where
  "include_us N obj target =
     (let fallback = (case any_us N obj (Some (\<lambda>v k. ret (JBool (strict_eq v target)))) () of
                        (Inr b, _) \<Rightarrow> b | (Inl e, _) \<Rightarrow> False)
      in case obj of
           CNull \<Rightarrow> False
         | CArr xs \<Rightarrow> if nativeIndexOf N then arr_indexOf xs target \<noteq> -1 else fallback
         | _ \<Rightarrow> fallback)"

text \<open>Property reads and calls of the values of a collection: \<open>get\<close> reads a property, \<open>call\<close>
  calls a value as a function with a \<open>this\<close> and arguments; both may throw.\<close>

definition invoke ::
    "natives \<Rightarrow> (js_val \<Rightarrow> bool) \<Rightarrow> (js_val \<Rightarrow> js_val \<Rightarrow> ('w, js_val) act)
       \<Rightarrow> (js_val \<Rightarrow> js_val \<Rightarrow> js_val list \<Rightarrow> ('w, js_val) act)
       \<Rightarrow> js_coll \<Rightarrow> js_val \<Rightarrow> js_val list \<Rightarrow> ('w, js_array) act" where
  "invoke N isFunction get call obj name args =
     map_us N obj (\<lambda>v k.
       if isFunction name then call (if truthy name then name else v) v args
       else andThen (get v name) (\<lambda>f. call f v args))"

definition pluck ::
    "natives \<Rightarrow> (js_val \<Rightarrow> js_val \<Rightarrow> ('w, js_val) act) \<Rightarrow> js_coll \<Rightarrow> js_val \<Rightarrow> ('w, js_array) act" where
  "pluck N get obj key = map_us N obj (\<lambda>v k. get v key)"

text \<open>\<open>Math.max\<close> and \<open>Math.min\<close> over numbers; they distinguish the two zeros.\<close>

definition num_max :: "js_num \<Rightarrow> js_num \<Rightarrow> js_num" where
  "num_max a b = (if a = NaN \<or> b = NaN then NaN
     else if {a, b} = {NZero, Fin 0} then Fin 0
     else if num_less a b then b else a)"

definition num_min :: "js_num \<Rightarrow> js_num \<Rightarrow> js_num" where
  "num_min a b = (if a = NaN \<or> b = NaN then NaN
     else if {a, b} = {NZero, Fin 0} then NZero
     else if num_less b a then b else a)"

text \<open>An arguments object does not enumerate its length, another object with a length does.\<close>

definition is_empty :: "js_coll \<Rightarrow> bool" where
  "is_empty obj = (case obj of CArr xs \<Rightarrow> xs = [] | CNull \<Rightarrow> True | CLike args xs \<Rightarrow> args \<and> present 0 xs = [] | CObj ps \<Rightarrow> ps = [])"

text \<open>The closure keeps the best value and what the iterator computed for it; \<open>better\<close> is the
  comparison of the source.\<close>

definition best_of ::
    "natives \<Rightarrow> (js_val \<Rightarrow> js_val \<Rightarrow> bool) \<Rightarrow> js_num \<Rightarrow> js_coll \<Rightarrow> ('w, js_val) iter option \<Rightarrow> ('w, js_val) act" where
  "best_of N better start obj iterator =
     with_local (JUndef, JNum start)
       (each N obj (\<lambda>v k. on_user (case iterator of Some f \<Rightarrow> f v k | None \<Rightarrow> ret v)
          (\<lambda>computed result. (False, if better computed (snd result) then (v, computed) else result))))
       (\<lambda>result. ret (fst result))"

definition max_us ::
    "natives \<Rightarrow> (js_val \<Rightarrow> js_num) \<Rightarrow> js_coll \<Rightarrow> ('w, js_val) iter option \<Rightarrow> ('w, js_val) act" where
  "max_us N num obj iterator =
     (case (iterator, obj) of
        (None, CArr xs) \<Rightarrow> ret (JNum (foldl num_max NInf (map (num \<circ> arr_get xs) [0..<length xs])))
      | _ \<Rightarrow> if iterator = None \<and> is_empty obj then ret (JNum NInf)
             else best_of N (js_ge num) NInf obj iterator)"

definition min_us ::
    "natives \<Rightarrow> (js_val \<Rightarrow> js_num) \<Rightarrow> js_coll \<Rightarrow> ('w, js_val) iter option \<Rightarrow> ('w, js_val) act" where
  "min_us N num obj iterator =
     (case (iterator, obj) of
        (None, CArr xs) \<Rightarrow> ret (JNum (foldl num_min PInf (map (num \<circ> arr_get xs) [0..<length xs])))
      | _ \<Rightarrow> if iterator = None \<and> is_empty obj then ret (JNum PInf)
             else best_of N (js_lt num) PInf obj iterator)"

text \<open>The shuffle of an array; \<open>rand i\<close> is the random number drawn for the index \<open>i\<close>, the
  floor of a fraction of \<open>i + 1\<close>.\<close>

definition shuffle_step :: "(nat \<Rightarrow> nat) \<Rightarrow> js_array \<Rightarrow> js_val \<Rightarrow> js_key \<Rightarrow> js_array" where
  "shuffle_step rand shuffled v k =
     (case k of
        KIdx index \<Rightarrow>
          if index = 0 then arr_set shuffled 0 v
          else arr_set (arr_set shuffled index (arr_get shuffled (rand index))) (rand index) v
      | KStr _ \<Rightarrow> shuffled)"

definition shuffle :: "natives \<Rightarrow> (nat \<Rightarrow> nat) \<Rightarrow> js_array \<Rightarrow> js_array" where
  "shuffle N rand xs =
     snd (each N (CArr xs) (\<lambda>v k shuffled. (Inr False, shuffle_step rand shuffled v k)) [])"

text \<open>The sort leaves missing elements at the end.\<close>

definition criteria_cmp :: "(js_val \<Rightarrow> js_num) \<Rightarrow> js_val \<times> js_val \<Rightarrow> js_val \<times> js_val \<Rightarrow> int" where
  "criteria_cmp num left right =
     (let a = snd left; b = snd right in if js_lt num a b then -1 else if js_lt num b a then 1 else 0)"

definition sortBy ::
    "natives \<Rightarrow> (js_val \<Rightarrow> js_num) \<Rightarrow> js_coll \<Rightarrow> ('w, js_val) iter \<Rightarrow> ('w, js_array) act" where
  "sortBy N num obj iterator =
     with_local []
       (each N obj (\<lambda>v k. on_user (iterator v k) (\<lambda>c pairs. (False, pairs @ [(v, c)]))))
       (\<lambda>pairs. ret (let sorted = map (Some \<circ> fst) (js_sort (criteria_cmp num) pairs)
                      in case coll_length obj of Some n \<Rightarrow> set_length n sorted | None \<Rightarrow> sorted))"

text \<open>\<open>str\<close> is the conversion to a property name. A key that every object inherits finds a
  function, which has no \<open>push\<close>.\<close>

definition groupBy_step :: "(js_val \<Rightarrow> js_string) \<Rightarrow> js_val \<Rightarrow> js_val \<Rightarrow> js_val list js_obj \<Rightarrow> js_err + js_val list js_obj" where
  "groupBy_step str v c result =
     (case obj_lookup result (str c) of
        Absent \<Rightarrow> Inr (obj_put result (str c) [v])
      | Own vs \<Rightarrow> Inr (obj_put result (str c) (vs @ [v]))
      | Inherited \<Rightarrow> Inl TypeError)"

definition groupBy ::
    "natives \<Rightarrow> (js_val \<Rightarrow> js_string) \<Rightarrow> (js_val \<Rightarrow> js_val \<Rightarrow> ('w, js_val) act)
       \<Rightarrow> js_coll \<Rightarrow> ('w, js_val) iter + js_val \<Rightarrow> ('w, js_val list js_obj) act" where
  "groupBy N str get obj val =
     (let iterator = (case val of Inl f \<Rightarrow> f | Inr name \<Rightarrow> (\<lambda>v k. get v name)) in
      with_local []
       (each N obj (\<lambda>v k. \<lambda>(w, result). case iterator v k w of
          (Inl e, w') \<Rightarrow> (Inl e, (w', result))
        | (Inr c, w') \<Rightarrow> (case groupBy_step str v c result of
              Inl e \<Rightarrow> (Inl e, (w', result))
            | Inr result' \<Rightarrow> (Inr False, (w', result')))))
       ret)"

text \<open>The shift operator works on 32-bit integers; a read at a negative index is undefined.\<close>

definition to_int32 :: "int \<Rightarrow> int" where
  "to_int32 i = (i + 2 ^ 31) mod 2 ^ 32 - 2 ^ 31"

definition arr_at :: "js_array \<Rightarrow> int \<Rightarrow> js_val" where
  "arr_at xs i = (if i < 0 then JUndef else arr_get xs (nat i))"

partial_function (option) sortedIndex_loop ::
    "(js_val \<Rightarrow> bool) \<Rightarrow> js_array \<Rightarrow> int \<Rightarrow> int \<Rightarrow> int option" where
  "sortedIndex_loop below array low high =
     (if low < high then
        (let mid = to_int32 (low + high) div 2
         in if below (arr_at array mid) then sortedIndex_loop below array (mid + 1) high
            else sortedIndex_loop below array low mid)
      else Some low)"

definition sortedIndex ::
    "(js_val \<Rightarrow> js_num) \<Rightarrow> js_array \<Rightarrow> js_val \<Rightarrow> (js_val \<Rightarrow> js_val) option \<Rightarrow> int option" where
  "sortedIndex num array obj iterator0 =
     (let iterator = (case iterator0 of Some f \<Rightarrow> f | None \<Rightarrow> (\<lambda>v. v))
      in sortedIndex_loop (\<lambda>v. js_lt num (iterator v) (iterator obj)) array 0 (int (length array)))"

end
