(* ===== verification/Us_Native.thy ===== *)
theory Us_Native
  imports Us_Collections
begin

text \<open>
  The collection functions do not depend on the browser: whatever native methods it offers, an
  application of \<open>map\<close>, \<open>reduce\<close>, \<open>find\<close>, \<open>filter\<close>, \<open>some\<close> or \<open>include\<close> calls the iterator in the same order,
  throws the same exception and has the same result. The exceptions are stated too: \<open>map\<close> of an
  array with missing elements and the indices \<open>reduceRight\<close> passes.
\<close>

lemma andThen_assoc: "andThen (andThen m f) g = andThen m (\<lambda>a. andThen (f a) g)"
  by (rule ext) (auto simp: andThen_def split: prod.splits sum.splits)

lemma andThen_ret [simp]: "andThen m ret = m" "andThen (ret a) f = f a" "andThen (throw e) g = throw e"
  by (auto simp: andThen_def ret_def throw_def fun_eq_iff split: prod.splits sum.splits)

lemma with_local_Nil [simp]: "with_local l (ret ()) fin = fin l"
  by (rule ext) (simp add: with_local_def ret_def)

text \<open>Whether \<open>each\<close> honours the breaker depends on the collection and the browser.\<close>

definition breaks :: "natives \<Rightarrow> js_coll \<Rightarrow> bool" where
  "breaks N obj = (case obj of CArr xs \<Rightarrow> \<not> nativeForEach N | _ \<Rightarrow> True)"

lemma each_visit: "each N obj cb = visit (breaks N obj) cb (entries obj)"
  by (auto simp: each_def breaks_def split: js_coll.splits)

section \<open>Filter\<close>

lemma filter_closure:
  "with_local acc (visit brk (\<lambda>v k. on_user (f v k)
       (\<lambda>t results. (False, if truthy t then results @ [v] else results))) es) ret
   = andThen (es_filter f es) (\<lambda>r. ret (acc @ r))"
proof (induction es arbitrary: acc)
  case (Cons e es)
  obtain k v where [simp]: "e = (k, v)" by (cases e)
  let ?cb = "\<lambda>v k. on_user (f v k) (\<lambda>t results. (False, if truthy t then results @ [v] else results))"
  have "with_local acc (visit brk ?cb (e # es)) ret
      = andThen (f v k) (\<lambda>t. with_local (if truthy t then acc @ [v] else acc) (visit brk ?cb es) ret)"
    by (rule ext) (auto simp: act_simps split: prod.splits sum.splits)
  also have "\<dots> = andThen (f v k) (\<lambda>t. andThen (es_filter f es) (\<lambda>r. ret ((if truthy t then acc @ [v] else acc) @ r)))"
    by (simp only: Cons.IH)
  also have "\<dots> = andThen (es_filter f (e # es)) (\<lambda>r. ret (acc @ r))"
    by (rule ext) (auto simp: act_simps split: prod.splits sum.splits)
  finally show ?case .
qed simp

lemma filter_us_es: "filter_us N obj f = es_filter f (entries obj)"
  by (auto simp: filter_us_def each_visit filter_closure Let_def split: js_coll.splits)

section \<open>Some, find and include\<close>

lemma some_closure:
  "with_local r (visit brk (\<lambda>v k. \<lambda>(w, result).
       if truthy result then (Inr True, (w, result))
       else on_user (f v k) (\<lambda>t _. (truthy t, t)) (w, result)) es) (\<lambda>result. ret (truthy result))
   = (if truthy r then ret True else es_some f es)"
proof (induction es arbitrary: r)
  case (Cons e es)
  obtain k v where [simp]: "e = (k, v)" by (cases e)
  let ?cb = "\<lambda>v k. \<lambda>(w, result). if truthy result then (Inr True, (w, result))
       else on_user (f v k) (\<lambda>t _. (truthy t, t)) (w, result)"
  let ?fin = "\<lambda>result. ret (truthy result)"
  have "with_local r (visit brk ?cb (e # es)) ?fin =
    (if truthy r then (if brk then ?fin r else with_local r (visit brk ?cb es) ?fin)
     else andThen (f v k) (\<lambda>t. if truthy t \<and> brk then ?fin t else with_local t (visit brk ?cb es) ?fin))"
    by (rule ext) (auto simp: act_simps split: prod.splits sum.splits)
  also have "\<dots> = (if truthy r then ret True else es_some f (e # es))"
    by (simp only: Cons.IH) (auto intro!: arg_cong [where f = "andThen (f v k)"])
  finally show ?case .
qed simp

lemma any_us_es: "any_us N obj f = es_some (case f of Some g \<Rightarrow> g | None \<Rightarrow> (\<lambda>v k. ret v)) (entries obj)"
  by (cases obj; cases "nativeSome N")
    (simp_all add: any_us_def each_visit some_closure Let_def ret_def fun_eq_iff)

definition es_find :: "('w, js_val) iter \<Rightarrow> (js_key \<times> js_val) list \<Rightarrow> ('w, js_val) act" where
  "es_find f es w =
     (case es_some (\<lambda>v k. on_user (f v k) (\<lambda>t result. if truthy t then (JBool True, v) else (JUndef, result))) es (w, JUndef) of
        (Inl e, (w', _)) \<Rightarrow> (Inl e, w')
      | (Inr _, (w', result)) \<Rightarrow> (Inr result, w'))"

lemma find_us_es: "find_us N obj f = es_find f (entries obj)"
  by (rule ext) (simp add: find_us_def any_us_es es_find_def)

lemma es_some_pure: "es_some (\<lambda>v k. ret (JBool (p v))) es w = (Inr (\<exists>(k, v) \<in> set es. p v), w)"
proof (induction es)
  case (Cons e es)
  then show ?case by (cases e) (auto simp: act_simps)
qed (simp add: ret_def)

lemma present_memb: "v \<in> snd ` set (present i xs) \<longleftrightarrow> Some v \<in> set xs"
  by (induction i xs rule: present.induct) auto

lemma arr_indexOf_found:
  "arr_indexOf xs t \<noteq> -1 \<longleftrightarrow> (\<exists>v. Some v \<in> set xs \<and> strict_eq v t)"
proof -
  have "arr_indexOf xs t \<noteq> -1 \<longleftrightarrow> (\<exists>i < length xs. \<exists>v. xs ! i = Some v \<and> strict_eq v t)"
    by (auto simp: arr_indexOf_def find_None_iff find_Some_iff split: option.splits)
  then show ?thesis by (metis in_set_conv_nth)
qed

lemma include_us_iff: "include_us N obj t \<longleftrightarrow> (\<exists>v \<in> snd ` set (entries obj). strict_eq v t)"
proof -
  have *: "(\<exists>(k, v) \<in> set es. strict_eq v t) \<longleftrightarrow> (\<exists>v \<in> snd ` set es. strict_eq v t)" for es :: "(js_key \<times> js_val) list"
    by force
  have fallback: "(case any_us N obj (Some (\<lambda>v k. ret (JBool (strict_eq v t)))) () of
                        (Inr b, _) \<Rightarrow> b | (Inl e, _) \<Rightarrow> False) \<longleftrightarrow> (\<exists>v \<in> snd ` set (entries obj). strict_eq v t)" for obj
    by (simp only: any_us_es es_some_pure option.case prod.case sum.case *)
  have native: "arr_indexOf xs t \<noteq> -1 \<longleftrightarrow> (\<exists>v \<in> snd ` set (present 0 xs). strict_eq v t)" for xs
    by (metis arr_indexOf_found present_memb)
  show ?thesis
    by (cases obj) (simp_all only: include_us_def Let_def fallback native js_coll.case if_cancel entries.simps
        list.set image_empty bex_empty split: if_split)
qed

section \<open>Every\<close>

lemma every_closure:
  "andThen (with_local r (visit brk (\<lambda>v k. \<lambda>(w, result).
       if truthy result then on_user (f v k) (\<lambda>t _. (\<not> truthy t, t)) (w, result)
       else (Inr True, (w, result))) es) ret) (\<lambda>t. ret (truthy t))
   = (if truthy r then es_every f es else ret False)"
proof (induction es arbitrary: r)
  case (Cons e es)
  obtain k v where [simp]: "e = (k, v)" by (cases e)
  let ?cb = "\<lambda>v k. \<lambda>(w, result).
       if truthy result then on_user (f v k) (\<lambda>t _. (\<not> truthy t, t)) (w, result) else (Inr True, (w, result))"
  let ?fin = "\<lambda>t. ret (truthy t)"
  have "andThen (with_local r (visit brk ?cb (e # es)) ret) ?fin =
    (if truthy r then andThen (f v k) (\<lambda>t. if \<not> truthy t \<and> brk then ?fin t
         else andThen (with_local t (visit brk ?cb es) ret) ?fin)
     else if brk then ?fin r else andThen (with_local r (visit brk ?cb es) ret) ?fin)"
    by (rule ext) (auto simp: act_simps split: prod.splits sum.splits)
  also have "\<dots> = (if truthy r then es_every f (e # es) else ret False)"
    by (simp only: Cons.IH) (auto intro!: arg_cong [where f = "andThen (f v k)"])
  finally show ?case .
qed simp

lemma every_us_es: "andThen (every_us N obj f) (\<lambda>t. ret (truthy t)) = es_every f (entries obj)"
  by (cases obj; cases "nativeEvery N")
    (simp_all add: every_us_def each_visit every_closure Let_def andThen_assoc)

section \<open>Reduce\<close>

lemma reduce_closure:
  "with_local memo (visit brk (\<lambda>v k. \<lambda>(w, memo). case memo of
                 None \<Rightarrow> (Inr False, (w, Some (of_val v)))
               | Some m \<Rightarrow> on_user (f m v k) (\<lambda>m' _. (False, Some m')) (w, memo)) es)
       (\<lambda>memo. case memo of None \<Rightarrow> throw TypeError | Some m \<Rightarrow> ret m)
   = (case memo of Some m \<Rightarrow> es_reduce f m es | None \<Rightarrow> es_reduce1 of_val f es)"
proof (induction es arbitrary: memo)
  case (Cons e es)
  obtain k v where [simp]: "e = (k, v)" by (cases e)
  let ?cb = "\<lambda>v k. \<lambda>(w, memo). case memo of None \<Rightarrow> (Inr False, (w, Some (of_val v)))
               | Some m \<Rightarrow> on_user (f m v k) (\<lambda>m' _. (False, Some m')) (w, memo)"
  let ?fin = "\<lambda>memo. case memo of None \<Rightarrow> throw TypeError | Some m \<Rightarrow> ret m"
  have "with_local memo (visit brk ?cb (e # es)) ?fin =
    (case memo of None \<Rightarrow> with_local (Some (of_val v)) (visit brk ?cb es) ?fin
     | Some m \<Rightarrow> andThen (f m v k) (\<lambda>m'. with_local (Some m') (visit brk ?cb es) ?fin))"
    by (rule ext) (auto simp: act_simps split: prod.splits sum.splits option.splits)
  then show ?case by (simp add: Cons split: option.splits)
qed (simp split: option.splits)

lemma reduce_us_es:
  "reduce_us N obj of_val f memo =
     (case memo of Some m \<Rightarrow> es_reduce f m (entries obj) | None \<Rightarrow> es_reduce1 of_val f (entries obj))"
  by (cases obj; cases "nativeReduce N")
    (simp_all add: reduce_us_def each_visit reduce_closure Let_def split: option.splits)

section \<open>Map\<close>

fun es_map :: "('w, js_val) iter \<Rightarrow> (js_key \<times> js_val) list \<Rightarrow> ('w, js_array) act" where
  "es_map f [] = ret []"
| "es_map f ((k, v) # es) = andThen (f v k) (\<lambda>y. andThen (es_map f es) (\<lambda>r. ret (Some y # r)))"

lemma map_closure:
  "with_local acc (visit brk (\<lambda>v k. on_user (f v k) (\<lambda>y results. (False, results @ [Some y]))) es) fin
   = andThen (es_map f es) (\<lambda>r. fin (acc @ r))"
proof (induction es arbitrary: acc)
  case (Cons e es)
  obtain k v where [simp]: "e = (k, v)" by (cases e)
  let ?cb = "\<lambda>v k. on_user (f v k) (\<lambda>y results. (False, results @ [Some y]))"
  have "with_local acc (visit brk ?cb (e # es)) fin
      = andThen (f v k) (\<lambda>y. with_local (acc @ [Some y]) (visit brk ?cb es) fin)"
    by (rule ext) (auto simp: act_simps split: prod.splits sum.splits)
  then show ?case by (simp only: Cons.IH) (simp add: andThen_assoc)
qed simp

lemma es_map_length: "es_map f es w = (Inr r, w') \<Longrightarrow> length r = length es"
proof (induction es arbitrary: w w' r)
  case (Cons e es)
  obtain k v where [simp]: "e = (k, v)" by (cases e)
  from Cons show ?case by (auto simp: act_simps split: prod.splits sum.splits)
qed (simp add: ret_def)

lemma arr_map_dense: "list_all (\<lambda>x. x \<noteq> None) xs \<Longrightarrow> arr_map f i xs = es_map f (present i xs)"
proof (induction f i xs rule: arr_map.induct)
  case (3 f i v xs)
  then show ?case by simp
qed simp_all

lemma set_length_same: "length xs = n \<Longrightarrow> set_length n xs = xs"
  by (simp add: set_length_def)

lemma andThen_set_length:
  "length es = n \<Longrightarrow> andThen (es_map f es) (\<lambda>r. ret (set_length n r)) = es_map f es"
  using es_map_length [of f es]
  by (fastforce simp: fun_eq_iff act_simps set_length_same split: prod.splits sum.splits)

lemma map_us_es:
  assumes "dense obj"
  shows "map_us N obj f = es_map f (entries obj)"
proof (cases obj)
  case (CArr xs)
  then show ?thesis using assms
    by (simp add: map_us_def each_visit map_closure Let_def arr_map_dense andThen_set_length length_present_dense)
next
  case (CLike a xs)
  then show ?thesis using assms
    by (simp add: map_us_def each_visit map_closure Let_def andThen_set_length length_present_dense)
qed (simp_all add: map_us_def each_visit map_closure Let_def)

section \<open>Properties\<close>


definition all_natives :: natives where
  "all_natives = \<lparr>nativeForEach = True, nativeMap = True, nativeReduce = True, nativeReduceRight = True,
     nativeFilter = True, nativeEvery = True, nativeSome = True, nativeIndexOf = True,
     nativeLastIndexOf = True, nativeIsArray = True, nativeKeys = True, nativeBind = True\<rparr>"

definition no_natives :: natives where
  "no_natives = \<lparr>nativeForEach = False, nativeMap = False, nativeReduce = False, nativeReduceRight = False,
     nativeFilter = False, nativeEvery = False, nativeSome = False, nativeIndexOf = False,
     nativeLastIndexOf = False, nativeIsArray = False, nativeKeys = False, nativeBind = False\<rparr>"

text \<open>A counter in the world shows how often the iterator is called.\<close>

definition counting :: "(nat, js_val) iter" where
  "counting v k n = (Inr v, Suc n)"


text \<open>On an array with a missing element the native \<open>map\<close> keeps its place and the closure does not.\<close>

theorem map_us_sparse_differs:
  "fst (map_us all_natives (CArr [None, Some JNull]) counting 0) = Inr [None, Some JNull]
   \<and> fst (map_us no_natives (CArr [None, Some JNull]) counting 0) = Inr [Some JNull, None]"
  by (simp add: map_us_def all_natives_def no_natives_def counting_def act_simps each_def set_length_def)

text \<open>\<open>reduceRight\<close> passes the index of the element natively, and the index in the reversed array otherwise.\<close>

definition index_log :: "js_key list \<Rightarrow> ('w, js_key list) iter" where
  "index_log m v k = ret (m @ [k])"

theorem reduceRight_index_differs:
  "fst (reduceRight all_natives None (CArr [Some JNull, Some JUndef]) (\<lambda>v. []) index_log (Some []) ()) = Inr [KIdx 1, KIdx 0]
   \<and> fst (reduceRight no_natives None (CArr [Some JNull, Some JUndef]) (\<lambda>v. []) index_log (Some []) ()) = Inr [KIdx 0, KIdx 1]"
  by (simp add: reduceRight_def reduce_us_es toArray_def all_natives_def no_natives_def index_log_def act_simps)

end
