(* ===== verification/Us_Order.thy ===== *)
theory Us_Order
  imports Us_Native
begin

text \<open>
  What the ordering functions of the collection library compute: the binary search of
  \<open>sortedIndex\<close> returns and finds the insertion point, \<open>shuffle\<close> permutes, \<open>sortBy\<close> sorts and \<open>groupBy\<close>
  partitions.
\<close>

section \<open>Binary search\<close>

lemma to_int32_small: "0 \<le> i \<Longrightarrow> i < 2 ^ 31 \<Longrightarrow> to_int32 i = i"
  by (simp add: to_int32_def)

definition splits_at :: "(js_val \<Rightarrow> bool) \<Rightarrow> js_array \<Rightarrow> int \<Rightarrow> bool" where
  "splits_at below xs k \<longleftrightarrow> (\<forall>i. 0 \<le> i \<and> i < k \<longrightarrow> below (arr_at xs i)) \<and>
     (\<forall>i. k \<le> i \<and> i < int (length xs) \<longrightarrow> \<not> below (arr_at xs i))"

definition descends :: "(js_val \<Rightarrow> bool) \<Rightarrow> js_array \<Rightarrow> bool" where
  "descends below xs \<longleftrightarrow>
     (\<forall>i j. 0 \<le> i \<and> i < j \<and> j < int (length xs) \<and> below (arr_at xs j) \<longrightarrow> below (arr_at xs i))"

lemma sortedIndex_loop_Some:
  assumes "length xs \<le> 2 ^ 30" and "descends below xs"
    and "0 \<le> low" "low \<le> high" "high \<le> int (length xs)"
    and "\<forall>i. 0 \<le> i \<and> i < low \<longrightarrow> below (arr_at xs i)"
    and "\<forall>i. high \<le> i \<and> i < int (length xs) \<longrightarrow> \<not> below (arr_at xs i)"
  shows "\<exists>k. sortedIndex_loop below xs low high = Some k \<and> 0 \<le> k \<and> k \<le> int (length xs) \<and> splits_at below xs k"
  using assms(3-)
proof (induction "nat (high - low)" arbitrary: low high rule: less_induct)
  case less
  show ?case
  proof (cases "low < high")
    case True
    define mid where "mid = (low + high) div 2"
    have mid: "low \<le> mid" "mid < high" using True by (auto simp: mid_def)
    have "int (length xs) \<le> 2 ^ 30" using assms(1) by simp
    then have "low + high < 2 ^ 31" using less.prems True by simp
    then have "to_int32 (low + high) = low + high" using less.prems by (intro to_int32_small) auto
    then have "to_int32 (low + high) div 2 = mid" by (simp add: mid_def)
    then have step: "sortedIndex_loop below xs low high =
        (if below (arr_at xs mid) then sortedIndex_loop below xs (mid + 1) high
         else sortedIndex_loop below xs low mid)"
      using True by (subst sortedIndex_loop.simps) simp
    show ?thesis
    proof (cases "below (arr_at xs mid)")
      case b: True
      have "below (arr_at xs i)" if "0 \<le> i" "i < mid + 1" for i
        using that b mid less.prems assms(2) [unfolded descends_def, rule_format, of i mid] by (cases "i = mid") auto
      then show ?thesis
        using less.hyps [of high "mid + 1"] less.prems mid b step by auto
    next
      case b: False
      have "\<not> below (arr_at xs i)" if "mid \<le> i" "i < int (length xs)" for i
        using that b mid less.prems assms(2) [unfolded descends_def, rule_format, of mid i] by (cases "i = mid") auto
      then show ?thesis
        using less.hyps [of mid low] less.prems mid b step by auto
    qed
  next
    case False
    then have "low = high" using less.prems by simp
    then show ?thesis
      using less.prems by (subst sortedIndex_loop.simps) (auto simp: splits_at_def)
  qed
qed

section \<open>Shuffling\<close>

lemma arr_set_eq: "i < length xs \<Longrightarrow> arr_set xs i v = xs[i := Some v]"
  by (simp add: arr_set_def)

lemma arr_set_end: "arr_set xs (length xs) v = xs @ [Some v]"
  by (simp add: arr_set_def set_length_def)

lemma arr_get_Some: "i < length xs \<Longrightarrow> list_all (\<lambda>x. x \<noteq> None) xs \<Longrightarrow> Some (arr_get xs i) = xs ! i"
  by (auto simp: arr_get_def list_all_length split: option.splits)

lemma shuffle_step_mset:
  assumes "list_all (\<lambda>x. x \<noteq> None) acc" and "rand (length acc) \<le> length acc"
  shows "mset (shuffle_step rand acc v (KIdx (length acc))) = add_mset (Some v) (mset acc)
    \<and> list_all (\<lambda>x. x \<noteq> None) (shuffle_step rand acc v (KIdx (length acc)))
    \<and> length (shuffle_step rand acc v (KIdx (length acc))) = Suc (length acc)"
proof (cases "rand (length acc) < length acc")
  case True
  let ?r = "rand (length acc)"
  have g: "Some (arr_get acc ?r) = acc ! ?r" by (rule arr_get_Some [OF True assms(1)])
  have "shuffle_step rand acc v (KIdx (length acc)) = acc[?r := Some v] @ [acc ! ?r]"
    using True by (auto simp: shuffle_step_def arr_set_end arr_set_eq g list_update_append)
  moreover have "acc ! ?r \<noteq> None" using g by (metis option.distinct(1))
  ultimately show ?thesis
    using True assms(1) by (auto simp: mset_update list_all_length nth_list_update nth_append)
next
  case False
  then have r: "rand (length acc) = length acc" using assms(2) by simp
  show ?thesis
    using assms(1) by (auto simp: shuffle_step_def arr_set_end arr_set_eq r arr_set_def list_update_append set_length_def)
qed

lemma shuffle_visit:
  assumes "\<forall>i. rand i \<le> i" and "list_all (\<lambda>x. x \<noteq> None) xs" and "list_all (\<lambda>x. x \<noteq> None) acc"
  shows "mset (snd (visit brk (\<lambda>v k shuffled. (Inr False, shuffle_step rand shuffled v k)) (present (length acc) xs) acc))
    = mset acc + mset xs"
  using assms(2,3)
proof (induction xs arbitrary: acc)
  case (Cons x xs)
  then obtain v where [simp]: "x = Some v" by auto
  let ?acc = "shuffle_step rand acc v (KIdx (length acc))"
  note s = shuffle_step_mset [of acc rand v, OF Cons.prems(2) assms(1) [rule_format]]
  show ?case using Cons.IH [of ?acc] Cons.prems s by (simp add: act_simps)
qed (simp add: ret_def)

section \<open>Sorting and grouping\<close>

lemma sort_closure:
  "with_local acc (visit brk (\<lambda>v k. on_user (f v k) (\<lambda>c pairs. (False, pairs @ [(v, c)]))) es) fin
   = (\<lambda>w. case es_map f es w of (Inl e, w') \<Rightarrow> (Inl e, w')
        | (Inr r, w') \<Rightarrow> fin (acc @ zip (map snd es) (map the r)) w')"
proof (induction es arbitrary: acc)
  case (Cons e es)
  obtain k v where [simp]: "e = (k, v)" by (cases e)
  let ?cb = "\<lambda>v k. on_user (f v k) (\<lambda>c pairs. (False, pairs @ [(v, c)]))"
  have "with_local acc (visit brk ?cb (e # es)) fin
      = andThen (f v k) (\<lambda>c. with_local (acc @ [(v, c)]) (visit brk ?cb es) fin)"
    by (rule ext) (auto simp: act_simps split: prod.splits sum.splits)
  then show ?case
    by (simp only: Cons.IH) (auto simp: act_simps fun_eq_iff split: prod.splits sum.splits)
qed (simp add: ret_def)

lemma es_map_pure: "es_map (\<lambda>v k. ret (c v)) es w = (Inr (map (Some \<circ> c \<circ> snd) es), w)"
proof (induction es)
  case (Cons e es)
  then show ?case by (cases e) (simp add: act_simps)
qed (simp add: ret_def)

lemma sortBy_pure:
  assumes "dense obj"
  shows "sortBy N num obj (\<lambda>v k. ret (c v)) w =
    (Inr (map (Some \<circ> fst) (js_sort (criteria_cmp num) (map (\<lambda>(k, v). (v, c v)) (entries obj)))), w)"
proof -
  have z: "zip (map snd es) (map (\<lambda>x. c (snd x)) es) = map (\<lambda>(k, v). (v, c v)) es" for es :: "(js_key \<times> js_val) list"
    by (induction es) auto
  have "set_length n (map (Some \<circ> fst) (js_sort (criteria_cmp num) (map (\<lambda>(k, v). (v, c v)) (entries obj))))
      = map (Some \<circ> fst) (js_sort (criteria_cmp num) (map (\<lambda>(k, v). (v, c v)) (entries obj)))"
    if "coll_length obj = Some n" for n
    using that assms by (cases obj) (simp_all add: set_length_same length_present_dense)
  then show ?thesis
    by (auto simp: sortBy_def each_visit sort_closure es_map_pure z ret_def Let_def comp_def [of the] split: option.splits)
qed

text \<open>A sorted collection has the same elements.\<close>

lemma sortBy_mset:
  assumes "dense obj" and "sortBy N num obj (\<lambda>v k. ret (c v)) w = (Inr r, w')"
  shows "mset r = image_mset (Some \<circ> snd) (mset (entries obj))"
proof -
  have "r = map (Some \<circ> fst) (js_sort (criteria_cmp num) (map (\<lambda>(k, v). (v, c v)) (entries obj)))"
    using assms(2) by (simp add: sortBy_pure [OF assms(1)])
  then show ?thesis by (simp add: multiset.map_comp comp_def split_def)
qed

definition group_add :: "(js_val \<Rightarrow> js_string) \<Rightarrow> js_val \<Rightarrow> js_val list js_obj \<Rightarrow> js_val list js_obj" where
  "group_add key v acc = obj_put acc (key v) (case map_of acc (key v) of Some us \<Rightarrow> us @ [v] | None \<Rightarrow> [v])"

lemma groupBy_step_add:
  "str (c v) \<notin> set proto_keys \<Longrightarrow> groupBy_step str v (c v) acc = Inr (group_add (\<lambda>v. str (c v)) v acc)"
  by (auto simp: groupBy_step_def group_add_def obj_lookup_def split: option.splits)

lemma map_of_group_add:
  "map_of (fold (group_add key) vs acc) k =
     (case map_of acc k of Some us \<Rightarrow> Some (us @ filter (\<lambda>v. key v = k) vs)
      | None \<Rightarrow> if filter (\<lambda>v. key v = k) vs = [] then None else Some (filter (\<lambda>v. key v = k) vs))"
proof (induction vs arbitrary: acc)
  case (Cons v vs)
  show ?case
    by (simp only: fold.simps comp_apply Cons.IH)
      (cases "key v = k"; cases "map_of acc k"; simp add: group_add_def map_of_obj_put)
qed (simp split: option.splits)

lemma groupBy_closure:
  assumes "\<forall>v \<in> snd ` set es. str (c v) \<notin> set proto_keys"
  shows "with_local acc (visit brk (\<lambda>v k. \<lambda>(w, result). case ret (c v) w of
          (Inl e, w') \<Rightarrow> (Inl e, (w', result))
        | (Inr c, w') \<Rightarrow> (case groupBy_step str v c result of
              Inl e \<Rightarrow> (Inl e, (w', result)) | Inr result' \<Rightarrow> (Inr False, (w', result')))) es) ret w
     = (Inr (fold (group_add (\<lambda>v. str (c v))) (map snd es) acc), w)"
  using assms
proof (induction es arbitrary: acc)
  case (Cons e es)
  obtain k v where [simp]: "e = (k, v)" by (cases e)
  show ?case
    using Cons.IH [of "group_add (\<lambda>v. str (c v)) v acc"] Cons.prems by (simp add: act_simps groupBy_step_add)
qed (simp add: act_simps)

section \<open>Properties\<close>


definition plain_num :: "js_val \<Rightarrow> js_num" where
  "plain_num v = (case v of JNum n \<Rightarrow> n | _ \<Rightarrow> NaN)"


text \<open>
  \<open>shuffle\<close> permutes: for every draw of random numbers within their bounds, the result of
  shuffling an array without missing elements has the same elements equally often.\<close>

theorem shuffle_permutes:
  assumes "\<forall>i. rand i \<le> i" and "list_all (\<lambda>x. x \<noteq> None) xs"
  shows "mset (shuffle N rand xs) = mset xs"
  using shuffle_visit [OF assms, of "[]"] by (auto simp: shuffle_def each_visit)

theorem shuffle_permutes_witness:
  "mset (shuffle all_natives (\<lambda>i. i div 2) [Some JNull, Some JUndef, Some JNull]) = mset [Some JNull, Some JUndef, Some JNull]"
  by (rule shuffle_permutes) simp_all

text \<open>
  \<open>groupBy\<close> partitions: when no criterion is the name of an inherited property, the group
  of a key holds exactly the elements whose criterion is that key, in order, and there are no other groups.\<close>

theorem groupBy_partitions:
  assumes "\<forall>v \<in> snd ` set (entries obj). str (c v) \<notin> set proto_keys"
  shows "\<exists>r. groupBy N str get obj (Inl (\<lambda>v k. ret (c v))) w = (Inr r, w) \<and>
    (\<forall>key. map_of r key = (let vs = filter (\<lambda>v. str (c v) = key) (map snd (entries obj)) in if vs = [] then None else Some vs))"
  using groupBy_closure [of "entries obj" str c "[]" "breaks N obj" w] assms
  by (simp add: groupBy_def each_visit map_of_group_add Let_def)

definition name_of :: "js_val \<Rightarrow> js_string" where
  "name_of v = (case v of JStr s \<Rightarrow> s | _ \<Rightarrow> J ''undefined'')"

theorem groupBy_partitions_witness:
  "\<exists>r. groupBy no_natives name_of (\<lambda>v k. ret v) (CArr [Some (JStr (J ''a'')), Some JNull, Some (JStr (J ''a''))]) (Inl (\<lambda>v k. ret v)) () = (Inr r, ()) \<and>
    map_of r (J ''a'') = Some [JStr (J ''a''), JStr (J ''a'')]"
proof -
  let ?c = "CArr [Some (JStr (J ''a'')), Some JNull, Some (JStr (J ''a''))]"
  have "\<forall>v \<in> snd ` set (entries ?c). name_of v \<notin> set proto_keys"
    by (simp add: name_of_def proto_keys_def)
  from groupBy_partitions [OF this, of no_natives "\<lambda>v k. ret v" "()"]
  obtain r where r: "groupBy no_natives name_of (\<lambda>v k. ret v) ?c (Inl (\<lambda>v k. ret v)) () = (Inr r, ())"
    and m: "\<And>key. map_of r key = (let vs = filter (\<lambda>v. name_of v = key) (map snd (entries ?c)) in if vs = [] then None else Some vs)"
    by blast
  show ?thesis using r m [of "J ''a''"] by (simp add: name_of_def)
qed

text \<open>A criterion that names an inherited property makes \<open>groupBy\<close> throw.\<close>

theorem groupBy_inherited_key_throws:
  "groupBy all_natives name_of (\<lambda>v k. ret v) (CArr [Some (JStr (J ''constructor''))]) (Inl (\<lambda>v k. ret v)) () = (Inl TypeError, ())"
  by (simp add: groupBy_def each_def all_natives_def act_simps groupBy_step_def obj_lookup_def proto_keys_def name_of_def)

end
