(* ===== verification/Us_Arrays.thy ===== *)
theory Us_Arrays
  imports Us_Native
begin

text \<open>
  The array functions of \<open>underscore-1.3.1.js\<close>, lines 315 to 467. An element of an array is a value
  or missing; a nested array is a reference that \<open>arr\<close> resolves to its elements, which is what
  \<open>isArray\<close> and the reads of the source see.
\<close>

section \<open>Slices\<close>

text \<open>An optional count and the guard argument that \<open>_.map\<close> passes.\<close>

definition first :: "js_array \<Rightarrow> int option \<Rightarrow> bool \<Rightarrow> js_array + js_val" where
  "first array n guard =
     (case n of Some k \<Rightarrow> if \<not> guard then Inl (js_slice array 0 k) else Inr (arr_get array 0)
              | None \<Rightarrow> Inr (arr_get array 0))"

definition initial :: "js_array \<Rightarrow> int option \<Rightarrow> bool \<Rightarrow> js_array" where
  "initial array n guard =
     js_slice array 0 (int (length array) - (case n of None \<Rightarrow> 1 | Some k \<Rightarrow> if guard then 1 else k))"

definition last_us :: "js_array \<Rightarrow> int option \<Rightarrow> bool \<Rightarrow> js_array + js_val" where
  "last_us array n guard =
     (case n of
        Some k \<Rightarrow> if \<not> guard then Inl (js_slice1 array (max (int (length array) - k) 0))
                 else Inr (arr_at array (int (length array) - 1))
      | None \<Rightarrow> Inr (arr_at array (int (length array) - 1)))"

definition rest :: "js_array \<Rightarrow> int option \<Rightarrow> bool \<Rightarrow> js_array" where
  "rest array index guard =
     js_slice1 array (case index of None \<Rightarrow> 1 | Some k \<Rightarrow> if guard then 1 else k)"

definition compact :: "natives \<Rightarrow> js_array \<Rightarrow> js_val list" where
  "compact N array =
     (case filter_us N (CArr array) (\<lambda>v k. ret (JBool (truthy v))) () of (Inr r, _) \<Rightarrow> r | (Inl e, _) \<Rightarrow> [])"

section \<open>Flattening\<close>

text \<open>The recursion of \<open>flatten\<close> ends when the arrays are not nested in themselves; \<open>fuel\<close> bounds its
  depth and None is a stack overflow. \<open>concat\<close> of an array keeps its missing elements.\<close>

fun flatten :: "(js_val \<Rightarrow> js_array option) \<Rightarrow> nat \<Rightarrow> bool \<Rightarrow> js_array \<Rightarrow> js_array option" where
  "flatten arr 0 shallow array = None"
| "flatten arr (Suc fuel) shallow array =
     fold (\<lambda>(k, value) memo.
       case memo of
         None \<Rightarrow> None
       | Some m \<Rightarrow> (case arr value of
           None \<Rightarrow> Some (m @ [Some value])
         | Some xs \<Rightarrow> if shallow then Some (m @ xs)
                     else map_option (\<lambda>ys. m @ ys) (flatten arr fuel False xs)))
     (present 0 array) (Some [])"

section \<open>Sets\<close>

text \<open>The loop of \<open>uniq\<close>: \<open>memo\<close> holds the computed values, \<open>result\<close> the elements kept. On a sorted array
  only the last memo is compared, with the operator \<open>!=\<close>, which is \<open>loose_eq\<close> negated.\<close>

fun uniq_loop ::
    "natives \<Rightarrow> (js_val \<Rightarrow> js_val \<Rightarrow> bool) \<Rightarrow> bool \<Rightarrow> js_array \<Rightarrow> (js_key \<times> js_val) list
       \<Rightarrow> js_val list \<Rightarrow> js_val list \<Rightarrow> js_val list" where
  "uniq_loop N loose_eq isSorted array [] memo result = result"
| "uniq_loop N loose_eq isSorted array ((k, el) # es) memo result =
     (let i = (case k of KIdx i \<Rightarrow> i | KStr _ \<Rightarrow> 0) in
      if i = 0 \<or> (if isSorted then \<not> loose_eq (if memo = [] then JUndef else last memo) el
                  else \<not> include_us N (CArr (map Some memo)) el)
      then uniq_loop N loose_eq isSorted array es (memo @ [el]) (result @ [arr_get array i])
      else uniq_loop N loose_eq isSorted array es memo result)"

definition uniq ::
    "natives \<Rightarrow> (js_val \<Rightarrow> js_val \<Rightarrow> bool) \<Rightarrow> js_array \<Rightarrow> bool \<Rightarrow> ('w, js_val) iter option \<Rightarrow> ('w, js_val list) act" where
  "uniq N loose_eq array isSorted iterator =
     andThen (case iterator of Some f \<Rightarrow> map_us N (CArr array) f | None \<Rightarrow> ret array)
       (\<lambda>init. ret (uniq_loop N loose_eq isSorted array (present 0 init) [] []))"

definition uniq_plain :: "natives \<Rightarrow> js_array \<Rightarrow> js_val list" where
  "uniq_plain N array = uniq_loop N (\<lambda>a b. False) False array (present 0 array) [] []"

text \<open>A shallow flattening never recurses: every argument is an array or a single element.\<close>

definition union_us :: "natives \<Rightarrow> (js_val \<Rightarrow> js_array option) \<Rightarrow> js_val list \<Rightarrow> js_val list option" where
  "union_us N arr arguments = map_option (uniq_plain N) (flatten arr 1 True (map Some arguments))"

text \<open>The loop of the source for browsers without \<open>indexOf\<close>, and the search from the end, \<open>while (i--)\<close>.\<close>

function indexOf_loop :: "js_array \<Rightarrow> js_val \<Rightarrow> nat \<Rightarrow> int" where
  "indexOf_loop xs item i =
     (if i < length xs then
        (if (case xs ! i of Some v \<Rightarrow> strict_eq v item | None \<Rightarrow> False) then int i
         else indexOf_loop xs item (Suc i))
      else -1)"
  by pat_completeness auto
termination
  by (relation "measure (\<lambda>(xs, _, i). length xs - i)") auto

declare indexOf_loop.simps [simp del]

fun lastIndexOf_loop :: "js_array \<Rightarrow> js_val \<Rightarrow> nat \<Rightarrow> int" where
  "lastIndexOf_loop xs item 0 = -1"
| "lastIndexOf_loop xs item (Suc i) =
     (if (case xs ! i of Some v \<Rightarrow> strict_eq v item | None \<Rightarrow> False) then int i
      else lastIndexOf_loop xs item i)"

definition arr_lastIndexOf :: "js_array \<Rightarrow> js_val \<Rightarrow> int" where
  "arr_lastIndexOf xs item =
     (case find (\<lambda>i. case xs ! i of Some v \<Rightarrow> strict_eq v item | None \<Rightarrow> False) (rev [0..<length xs]) of
        None \<Rightarrow> -1 | Some i \<Rightarrow> int i)"

definition indexOf_us ::
    "natives \<Rightarrow> (js_val \<Rightarrow> js_num) \<Rightarrow> js_array option \<Rightarrow> js_val \<Rightarrow> bool \<Rightarrow> int option" where
  "indexOf_us N num array item isSorted =
     (case array of
        None \<Rightarrow> Some (-1)
      | Some xs \<Rightarrow>
          if isSorted then
            map_option (\<lambda>i. if strict_eq (arr_at xs i) item then i else -1) (sortedIndex num xs item None)
          else if nativeIndexOf N then Some (arr_indexOf xs item)
          else Some (indexOf_loop xs item 0))"

definition lastIndexOf_us :: "natives \<Rightarrow> js_array option \<Rightarrow> js_val \<Rightarrow> int" where
  "lastIndexOf_us N array item =
     (case array of
        None \<Rightarrow> -1
      | Some xs \<Rightarrow> if nativeLastIndexOf N then arr_lastIndexOf xs item
                   else lastIndexOf_loop xs item (length xs))"

definition indexOf_plain :: "natives \<Rightarrow> js_array \<Rightarrow> js_val \<Rightarrow> int" where
  "indexOf_plain N xs item = (if nativeIndexOf N then arr_indexOf xs item else indexOf_loop xs item 0)"

definition intersection :: "natives \<Rightarrow> js_array \<Rightarrow> js_array list \<Rightarrow> js_val list" where
  "intersection N array others =
     filter (\<lambda>item. \<forall>other \<in> set others. indexOf_plain N other item \<ge> 0) (uniq_plain N array)"

definition difference ::
    "natives \<Rightarrow> (js_val \<Rightarrow> js_array option) \<Rightarrow> nat \<Rightarrow> js_array \<Rightarrow> js_val list \<Rightarrow> js_val list option" where
  "difference N arr fuel array others =
     map_option (\<lambda>others'. filter (\<lambda>v. \<not> include_us N (CArr others') v) (map snd (present 0 array)))
       (flatten arr fuel False (map Some others))"

text \<open>The arguments after the array are one array, whose flattening removes one level at least.\<close>

definition without ::
    "natives \<Rightarrow> (js_val \<Rightarrow> js_array option) \<Rightarrow> nat \<Rightarrow> js_array \<Rightarrow> js_val list \<Rightarrow> js_val list option" where
  "without N arr fuel array others = difference N arr fuel array others"

section \<open>Zip and range\<close>

text \<open>The arrays may have unequal lengths: a read beyond the end of one is undefined. Without
  arguments the maximal length is minus infinity, which is not the length of an array.\<close>

definition zip_us :: "js_array list \<Rightarrow> js_err + js_val list list" where
  "zip_us args =
     (if args = [] then Inl RangeError
      else let len = fold max (map length args) 0
           in Inr (map (\<lambda>i. map (\<lambda>xs. arr_get xs i) args) [0..<len]))"

fun range_loop :: "nat \<Rightarrow> int \<Rightarrow> int \<Rightarrow> int list" where
  "range_loop 0 start step = []"
| "range_loop (Suc len) start step = start # range_loop len (start + step) step"

text \<open>The quotient is rounded up; a step of 0 counts as 1.\<close>

definition ceil_div :: "int \<Rightarrow> int \<Rightarrow> int" where
  "ceil_div a b = - ((- a) div b)"

definition range :: "int \<Rightarrow> int option \<Rightarrow> int option \<Rightarrow> int list" where
  "range start0 stop0 step0 =
     (let (start, stop) = (case stop0 of None \<Rightarrow> (0, start0) | Some s \<Rightarrow> (start0, s));
          step = (case step0 of None \<Rightarrow> 1 | Some s \<Rightarrow> if s = 0 then 1 else s);
          len = nat (max (ceil_div (stop - start) step) 0)
      in range_loop len start step)"

section \<open>The sets\<close>

text \<open>The reference for \<open>uniq\<close>: keep an element that is not \<open>===\<close> to one kept before.\<close>

fun dedup :: "js_val list \<Rightarrow> js_val list \<Rightarrow> js_val list" where
  "dedup acc [] = acc"
| "dedup acc (v # vs) = (if \<exists>u \<in> set acc. strict_eq u v then dedup acc vs else dedup (acc @ [v]) vs)"

lemma present_map_Some: "snd ` set (present i (map Some vs)) = set vs"
  by (induction vs arbitrary: i) auto

lemma present_nth: "(KIdx j, v) \<in> set (present i xs) \<Longrightarrow> i \<le> j \<and> j - i < length xs \<and> xs ! (j - i) = Some v"
proof (induction i xs rule: present.induct)
  case (2 i xs)
  then show ?case by (auto simp: nth_Cons' Suc_diff_Suc)
next
  case (3 i v xs)
  then show ?case by (auto simp: nth_Cons')
qed simp

lemma present_KIdx: "(k, v) \<in> set (present i xs) \<Longrightarrow> \<exists>j. k = KIdx j"
  by (induction i xs rule: present.induct) auto

definition indexed :: "js_array \<Rightarrow> (js_key \<times> js_val) list \<Rightarrow> bool" where
  "indexed array es \<longleftrightarrow> list_all (\<lambda>(k, v). \<exists>j. k = KIdx j \<and> arr_get array j = v \<and> j \<noteq> 0) es"

lemma uniq_loop_dedup:
  "indexed array es \<Longrightarrow> uniq_loop N le False array es acc acc = dedup acc (map snd es)"
proof (induction es arbitrary: acc)
  case (Cons e es)
  obtain v j where e: "e = (KIdx j, v)" and j: "arr_get array j = v" "j \<noteq> 0"
    using Cons.prems by (cases e) (auto simp: indexed_def)
  have es: "indexed array es" using Cons.prems by (simp add: indexed_def)
  have "include_us N (CArr (map Some acc)) v \<longleftrightarrow> (\<exists>u \<in> set acc. strict_eq u v)"
    unfolding include_us_iff entries.simps present_map_Some by (rule refl)
  then show ?case using e j Cons.IH [OF es] by (simp add: Let_def)
qed simp

lemma present_Suc_pos: "(KIdx j, v) \<in> set (present (Suc i) xs) \<Longrightarrow> j \<noteq> 0"
  by (drule present_nth) simp

lemma uniq_plain_dedup: "uniq_plain N xs = dedup [] (map snd (present 0 xs))"
proof -
  have get: "arr_get xs j = v" if "(KIdx j, v) \<in> set (present 0 xs)" for j v
    using present_nth [OF that] by (simp add: arr_get_def)
  have tail: "indexed xs (present (Suc 0) ys)" if sub: "set (present (Suc 0) ys) \<subseteq> set (present 0 xs)" for ys
    unfolding indexed_def list_all_iff
  proof (rule ballI, clarify)
    fix k v assume kv: "(k, v) \<in> set (present (Suc 0) ys)"
    then obtain j where "k = KIdx j" using present_KIdx by blast
    then show "\<exists>j. k = KIdx j \<and> arr_get xs j = v \<and> j \<noteq> 0"
      using kv get [of j v] present_Suc_pos [of j v 0 ys] sub by blast
  qed
  show ?thesis
  proof (cases xs)
    case (Cons y ys)
    have ys: "indexed xs (present (Suc 0) ys)" by (rule tail) (cases y; auto simp: Cons)
    show ?thesis
    proof (cases y)
      case None
      then show ?thesis using Cons uniq_loop_dedup [OF ys, of N _ "[]"] by (simp add: uniq_plain_def)
    next
      case (Some v)
      have "arr_get xs 0 = v" using Cons Some by (simp add: arr_get_def)
      then show ?thesis
        using Cons Some uniq_loop_dedup [OF ys, of N _ "[v]"] by (simp add: uniq_plain_def Let_def)
    qed
  qed (simp add: uniq_plain_def)
qed

lemma dedup_acc: "set acc \<subseteq> set (dedup acc vs)"
proof (induction vs arbitrary: acc)
  case (Cons v vs)
  show ?case using Cons.IH [of acc] Cons.IH [of "acc @ [v]"] by auto
qed simp

lemma dedup_set: "set (dedup acc vs) \<subseteq> set acc \<union> set vs"
proof (induction vs arbitrary: acc)
  case (Cons v vs)
  show ?case using Cons.IH [of acc] Cons.IH [of "acc @ [v]"] by auto
qed simp

lemma dedup_covers: "v \<in> set vs \<Longrightarrow> v \<noteq> JNum NaN \<Longrightarrow> \<exists>u \<in> set (dedup acc vs). strict_eq u v"
proof (induction vs arbitrary: acc)
  case (Cons x vs)
  show ?case
  proof (cases "v = x")
    case True
    then show ?thesis
      using dedup_acc [of acc vs] dedup_acc [of "acc @ [v]" vs] Cons.prems strict_eq_refl [of v] by auto
  next
    case False
    then show ?thesis using Cons by simp
  qed
qed simp

lemma dedup_apart:
  "sorted_wrt (\<lambda>u v. \<not> strict_eq u v) acc \<Longrightarrow> sorted_wrt (\<lambda>u v. \<not> strict_eq u v) (dedup acc vs)"
  by (induction vs arbitrary: acc) (simp_all add: sorted_wrt_append)

lemma indexOf_loop_find:
  "indexOf_loop xs item i =
     (case find (\<lambda>i. case xs ! i of Some v \<Rightarrow> strict_eq v item | None \<Rightarrow> False) [i..<length xs] of
        None \<Rightarrow> -1 | Some j \<Rightarrow> int j)"
proof (induction xs item i rule: indexOf_loop.induct)
  case (1 xs item i)
  then show ?case
    by (subst indexOf_loop.simps) (auto simp: upt_conv_Cons split: option.splits)
qed

lemma indexOf_plain_native: "indexOf_plain N xs item = arr_indexOf xs item"
  by (simp add: indexOf_plain_def indexOf_loop_find arr_indexOf_def)

lemma lastIndexOf_loop_find:
  "lastIndexOf_loop xs item n =
     (case find (\<lambda>i. case xs ! i of Some v \<Rightarrow> strict_eq v item | None \<Rightarrow> False) (rev [0..<n]) of
        None \<Rightarrow> -1 | Some j \<Rightarrow> int j)"
  by (induction n) auto

lemma arr_indexOf_ge: "arr_indexOf xs t \<ge> 0 \<longleftrightarrow> (\<exists>v. Some v \<in> set xs \<and> strict_eq v t)"
proof -
  have "arr_indexOf xs t \<ge> 0 \<longleftrightarrow> arr_indexOf xs t \<noteq> -1"
    by (auto simp: arr_indexOf_def split: option.splits)
  then show ?thesis by (simp add: arr_indexOf_found)
qed

lemma range_loop_map: "range_loop n start step = map (\<lambda>i. start + int i * step) [0..<n]"
proof (induction n arbitrary: start)
  case (Suc n)
  have "map (\<lambda>i. start + int i * step) [0..<Suc n] = start # map (\<lambda>i. start + step + int i * step) [0..<n]"
    by (simp add: upt_conv_Cons map_Suc_upt [symmetric] algebra_simps del: upt_Suc)
  then show ?case using Suc by simp
qed simp

section \<open>Properties\<close>

text \<open>
  The intersection of arrays has no two elements that are \<open>===\<close>, and for every value
  it has an element \<open>===\<close> to it exactly when the first array and each of the others have one.\<close>

theorem intersection_spec:
  "sorted_wrt (\<lambda>u v. \<not> strict_eq u v) (intersection N xs others)
   \<and> (\<forall>v. (\<exists>u \<in> set (intersection N xs others). strict_eq u v) \<longleftrightarrow>
        (\<forall>ys \<in> set (xs # others). \<exists>u. Some u \<in> set ys \<and> strict_eq u v))"
proof -
  let ?I = "intersection N xs others"
  have mem: "u \<in> set ?I \<longleftrightarrow> u \<in> set (uniq_plain N xs) \<and> (\<forall>ys \<in> set others. \<exists>w. Some w \<in> set ys \<and> strict_eq w u)" for u
    by (simp add: intersection_def indexOf_plain_native arr_indexOf_ge)
  have uniq: "Some u \<in> set xs" if "u \<in> set (uniq_plain N xs)" for u
    using that dedup_set [of "[]" "map snd (present 0 xs)"] present_memb [of u 0 xs] by (auto simp: uniq_plain_dedup)
  have cover: "\<exists>u \<in> set (uniq_plain N xs). strict_eq u v" if "Some w \<in> set xs" "strict_eq w v" for w v
  proof -
    have "w \<noteq> JNum NaN" using that(2) by (cases v) (auto simp: num_eq_def)
    moreover have "w \<in> set (map snd (present 0 xs))" using that(1) present_memb [of w 0 xs] by simp
    ultimately show ?thesis using dedup_covers [of w] that(2) strict_eq_trans uniq_plain_dedup by metis
  qed
  have "(\<exists>u \<in> set ?I. strict_eq u v) \<longleftrightarrow> (\<forall>ys \<in> set (xs # others). \<exists>u. Some u \<in> set ys \<and> strict_eq u v)" (is "?L \<longleftrightarrow> ?R") for v
  proof
    assume ?L
    then obtain u where u: "u \<in> set ?I" "strict_eq u v" by blast
    show ?R
    proof
      fix ys assume "ys \<in> set (xs # others)"
      then consider "ys = xs" | "ys \<in> set others" by auto
      then show "\<exists>w. Some w \<in> set ys \<and> strict_eq w v"
      proof cases
        case 1
        then show ?thesis using u mem [of u] uniq [of u] by blast
      next
        case 2
        then obtain w where "Some w \<in> set ys" "strict_eq w u" using u(1) mem [of u] by blast
        then show ?thesis using strict_eq_trans [OF _ u(2)] by blast
      qed
    qed
  next
    assume R: ?R
    then obtain u where u: "u \<in> set (uniq_plain N xs)" "strict_eq u v" using cover by (meson list.set_intros(1))
    have "\<exists>w. Some w \<in> set ys \<and> strict_eq w u" if o: "ys \<in> set others" for ys
    proof -
      obtain w where "Some w \<in> set ys" "strict_eq w v" using bspec [OF R, of ys] o by auto
      then show ?thesis using u(2) strict_eq_trans [of w v u] strict_eq_sym [of u v] by blast
    qed
    then have "u \<in> set ?I" using u(1) mem by blast
    then show ?L using u by blast
  qed
  moreover have "sorted_wrt (\<lambda>u v. \<not> strict_eq u v) ?I"
    using dedup_apart [of "[]"] by (simp add: intersection_def uniq_plain_dedup sorted_wrt_filter)
  ultimately show ?thesis by blast
qed

text \<open>A browser without native methods, and arrays that share one number.\<close>

definition old_browser :: natives where
  "old_browser = \<lparr>nativeForEach = False, nativeMap = False, nativeReduce = False, nativeReduceRight = False, nativeFilter = False,
     nativeEvery = False, nativeSome = False, nativeIndexOf = False, nativeLastIndexOf = False, nativeIsArray = False,
     nativeKeys = False, nativeBind = False\<rparr>"

theorem intersection_spec_witness:
  "(\<exists>u \<in> set (intersection old_browser [Some (JNum (Fin 1)), Some (JNum (Fin 2))] [[Some (JNum (Fin 2))]]). strict_eq u (JNum (Fin 2)))
   \<and> \<not> (\<exists>u \<in> set (intersection old_browser [Some (JNum (Fin 1)), Some (JNum (Fin 2))] [[Some (JNum (Fin 2))]]). strict_eq u (JNum (Fin 1)))"
proof -
  have "(\<forall>ys \<in> set ([Some (JNum (Fin 1)), Some (JNum (Fin 2))] # [[Some (JNum (Fin 2))]]). \<exists>u. Some u \<in> set ys \<and> strict_eq u (JNum (Fin 2)))"
    by (auto simp: num_eq_def intro: exI [of _ "JNum (Fin 2)"])
  moreover have "\<not> (\<forall>ys \<in> set ([Some (JNum (Fin 1)), Some (JNum (Fin 2))] # [[Some (JNum (Fin 2))]]). \<exists>u. Some u \<in> set ys \<and> strict_eq u (JNum (Fin 1)))"
    by (auto simp: num_eq_def doubleton_eq_iff)
  ultimately show ?thesis
    using intersection_spec [of old_browser "[Some (JNum (Fin 1)), Some (JNum (Fin 2))]" "[[Some (JNum (Fin 2))]]"] by blast
qed

text \<open>
  \<open>range\<close> is the arithmetic progression: with a nonzero step its elements are start, start + step
  and so on, and there are exactly those that lie before the stop in the direction of the step.\<close>

theorem range_spec:
  assumes "step \<noteq> 0"
  shows "range start (Some stop) (Some step) = map (\<lambda>i. start + int i * step) [0..<length (range start (Some stop) (Some step))]
    \<and> (\<forall>i. i < length (range start (Some stop) (Some step)) \<longleftrightarrow>
          (if step > 0 then start + int i * step < stop else start + int i * step > stop))"
proof -
  let ?n = "nat (max (ceil_div (stop - start) step) 0)"
  have r: "range start (Some stop) (Some step) = map (\<lambda>i. start + int i * step) [0..<?n]"
    using assms by (simp add: range_def range_loop_map)
  have "i < ?n \<longleftrightarrow> (if step > 0 then start + int i * step < stop else start + int i * step > stop)" for i
  proof -
    have "i < ?n \<longleftrightarrow> (start - stop) div step < - int i"
      by (auto simp: ceil_div_def zless_nat_eq_int_zless)
    also have "\<dots> \<longleftrightarrow> (start - stop + int i * step) div step < 0"
      using div_mult_self1 [OF assms, of "start - stop" "int i"] by linarith
    also have "\<dots> \<longleftrightarrow> (if step > 0 then start + int i * step < stop else start + int i * step > stop)"
      using assms pos_imp_zdiv_neg_iff [of step "start - stop + int i * step"]
        neg_imp_zdiv_neg_iff [of step "start - stop + int i * step"] by (auto simp: algebra_simps)
    finally show ?thesis .
  qed
  then show ?thesis by (simp add: r)
qed

theorem range_spec_witness: "range 0 (Some 7) (Some 3) = map (\<lambda>i. 0 + int i * 3) [0..<length (range 0 (Some 7) (Some 3))] \<and> length (range 0 (Some 7) (Some 3)) = 3"
  using range_spec [of 3 0 7] by (simp add: range_def ceil_div_def numeral_3_eq_3)

end
