(* ===== verification/Us_Functions.thy ===== *)
theory Us_Functions
  imports Us_Collections
begin

text \<open>
  The function functions of \<open>underscore-1.3.1.js\<close>, lines 469 to 605. A function value is its
  call: it takes its \<open>this\<close> and its arguments and is an action on the world. A closure that the
  library returns is the state it keeps and the transition of one call. The timers of the browser
  are an explicit record: a clock and the callbacks that are due, each with the number that
  \<open>setTimeout\<close> returned; they fire in the order of their due time and then of their number, never early.
\<close>

type_synonym 'w js_fun = "js_val \<Rightarrow> js_val list \<Rightarrow> ('w, js_val) act"

section \<open>Binding\<close>

definition is_object_val :: "js_val \<Rightarrow> bool" where
  "is_object_val v = (case v of JRef _ \<Rightarrow> True | _ \<Rightarrow> False)"

text \<open>A call of a bound function: \<open>self\<close> is the new object when it is called as a constructor.\<close>

definition bound_call ::
    "'w js_fun \<Rightarrow> js_val \<Rightarrow> js_val list \<Rightarrow> js_val option \<Rightarrow> js_val list \<Rightarrow> ('w, js_val) act" where
  "bound_call func context args new_self arguments =
     (case new_self of
        None \<Rightarrow> func context (args @ arguments)
      | Some self \<Rightarrow> andThen (func self (args @ arguments))
          (\<lambda>result. ret (if is_object_val result then result else self)))"

text \<open>The native \<open>bind\<close> behaves the same; a value that is not a function is refused either way.\<close>

definition bind_us ::
    "'w js_fun option \<Rightarrow> js_val \<Rightarrow> js_val list \<Rightarrow> js_err + (js_val option \<Rightarrow> js_val list \<Rightarrow> ('w, js_val) act)" where
  "bind_us func context args =
     (case func of None \<Rightarrow> Inl TypeError | Some f \<Rightarrow> Inr (bound_call f context args))"

text \<open>The properties of an object are functions or other values; \<open>bindf\<close> is the bound version
  of a function of the object.\<close>

datatype 'f member = PFun 'f | PVal js_val

definition js_string_cmp :: "js_string \<Rightarrow> js_string \<Rightarrow> int" where
  "js_string_cmp a b = (if js_less a b then -1 else if js_less b a then 1 else 0)"

definition functions_us :: "'f member js_obj \<Rightarrow> js_string list" where
  "functions_us obj = js_sort js_string_cmp (map fst (filter (\<lambda>(k, p). case p of PFun f \<Rightarrow> True | PVal v \<Rightarrow> False) obj))"

fun bindAll_loop :: "('f \<Rightarrow> 'f) \<Rightarrow> js_string list \<Rightarrow> 'f member js_obj \<Rightarrow> js_err option \<times> 'f member js_obj" where
  "bindAll_loop bindf [] obj = (None, obj)"
| "bindAll_loop bindf (f # funcs) obj =
     (case map_of obj f of
        Some (PFun g) \<Rightarrow> bindAll_loop bindf funcs (obj_put obj f (PFun (bindf g)))
      | _ \<Rightarrow> (Some TypeError, obj))"

definition bindAll :: "('f \<Rightarrow> 'f) \<Rightarrow> js_string list \<Rightarrow> 'f member js_obj \<Rightarrow> js_err option \<times> 'f member js_obj" where
  "bindAll bindf funcs0 obj =
     (let funcs = (if length funcs0 = 0 then functions_us obj else funcs0) in bindAll_loop bindf funcs obj)"

section \<open>Memoizing and counting\<close>

text \<open>An assignment to the property \<open>__proto__\<close> makes no own property.\<close>

definition memo_put :: "js_val js_obj \<Rightarrow> js_string \<Rightarrow> js_val \<Rightarrow> js_val js_obj" where
  "memo_put memo key v = (if key = J ''__proto__'' then memo else obj_put memo key v)"

text \<open>One call of a memoized function; \<open>str\<close> turns the hash into a property name.\<close>

definition memoize_call ::
    "'w js_fun \<Rightarrow> 'w js_fun option \<Rightarrow> (js_val \<Rightarrow> js_string) \<Rightarrow> js_val \<Rightarrow> js_val list
       \<Rightarrow> ('w \<times> js_val js_obj, js_val) act" where
  "memoize_call func hasher str this arguments = (\<lambda>(w, memo).
     case (case hasher of Some h \<Rightarrow> h this arguments w
           | None \<Rightarrow> ret (if arguments = [] then JUndef else hd arguments) w) of
       (Inl e, w') \<Rightarrow> (Inl e, (w', memo))
     | (Inr k, w') \<Rightarrow>
         (case map_of memo (str k) of
            Some v \<Rightarrow> (Inr v, (w', memo))
          | None \<Rightarrow> (case func this arguments w' of
              (Inl e, w'') \<Rightarrow> (Inl e, (w'', memo))
            | (Inr v, w'') \<Rightarrow> (Inr v, (w'', memo_put memo (str k) v)))))"

text \<open>The closure of \<open>once\<close> keeps whether it ran and what the function returned.\<close>

definition once_call :: "'w js_fun \<Rightarrow> js_val \<Rightarrow> js_val list \<Rightarrow> ('w \<times> bool \<times> js_val, js_val) act" where
  "once_call func this arguments = (\<lambda>(w, ran, memo).
     if ran then (Inr memo, (w, ran, memo))
     else (case func this arguments w of
             (Inl e, w') \<Rightarrow> (Inl e, (w', True, memo))
           | (Inr v, w') \<Rightarrow> (Inr v, (w', True, v))))"

definition wrap :: "'f \<Rightarrow> (js_val \<Rightarrow> 'f \<times> js_val list \<Rightarrow> ('w, js_val) act) \<Rightarrow> js_val \<Rightarrow> js_val list \<Rightarrow> ('w, js_val) act" where
  "wrap func wrapper this arguments = wrapper this (func, arguments)"

text \<open>The loop from the last function to the first.\<close>

fun compose_loop :: "'w js_fun list \<Rightarrow> js_val \<Rightarrow> js_val list \<Rightarrow> ('w, js_val list) act" where
  "compose_loop [] this args = ret args"
| "compose_loop (f # rest) this args = andThen (f this args) (\<lambda>v. compose_loop rest this [v])"

definition compose :: "'w js_fun list \<Rightarrow> js_val \<Rightarrow> js_val list \<Rightarrow> ('w, js_val) act" where
  "compose funcs this arguments =
     andThen (compose_loop (rev funcs) this arguments) (\<lambda>args. ret (if args = [] then JUndef else hd args))"

text \<open>\<open>after\<close> calls the function at once when the count is not positive; else a call decrements the count.\<close>

definition after_us :: "int \<Rightarrow> 'w js_fun \<Rightarrow> ('w, js_val + int) act" where
  "after_us ntimes func =
     (if ntimes \<le> 0 then andThen (func JUndef []) (\<lambda>v. ret (Inl v)) else ret (Inr ntimes))"

definition after_call :: "'w js_fun \<Rightarrow> js_val \<Rightarrow> js_val list \<Rightarrow> ('w \<times> int, js_val) act" where
  "after_call func this arguments = (\<lambda>(w, ntimes0).
     let ntimes = ntimes0 - 1 in
     if ntimes < 1 then (case func this arguments w of (r, w') \<Rightarrow> (r, (w', ntimes)))
     else (Inr JUndef, (w, ntimes)))"

section \<open>Timers\<close>

record 'p timer =
  timer_id :: nat
  due :: nat
  job :: 'p

record 'p timers =
  now :: nat
  next_id :: nat
  pending :: "'p timer list"

definition setTimeout :: "'p \<Rightarrow> nat \<Rightarrow> 'p timers \<Rightarrow> nat \<times> 'p timers" where
  "setTimeout p wait T =
     (next_id T, T\<lparr>next_id := Suc (next_id T),
        pending := pending T @ [\<lparr>timer_id = next_id T, due = now T + wait, job = p\<rparr>]\<rparr>)"

definition clearTimeout :: "nat option \<Rightarrow> 'p timers \<Rightarrow> 'p timers" where
  "clearTimeout t T =
     (case t of None \<Rightarrow> T | Some i \<Rightarrow> T\<lparr>pending := filter (\<lambda>x. timer_id x \<noteq> i) (pending T)\<rparr>)"

text \<open>A timer may fire when it is due and none goes before it.\<close>

definition fires :: "'p timer \<Rightarrow> 'p timers \<Rightarrow> bool" where
  "fires x T \<longleftrightarrow> x \<in> set (pending T) \<and> due x \<le> now T \<and>
     (\<forall>y \<in> set (pending T). due x < due y \<or> due x = due y \<and> timer_id x \<le> timer_id y)"

definition fired :: "'p timer \<Rightarrow> 'p timers \<Rightarrow> 'p timers" where
  "fired x T = T\<lparr>pending := filter (\<lambda>y. timer_id y \<noteq> timer_id x) (pending T)\<rparr>"

text \<open>The job of a delayed function is its arguments.\<close>

definition delay :: "nat \<Rightarrow> js_val list \<Rightarrow> js_val list timers \<Rightarrow> nat \<times> js_val list timers" where
  "delay wait args T = setTimeout args wait T"

definition defer_us :: "js_val list \<Rightarrow> js_val list timers \<Rightarrow> nat \<times> js_val list timers" where
  "defer_us args T = delay 1 args T"

section \<open>Debounce\<close>

text \<open>The variable \<open>timeout\<close> and the transition of a call: \<open>p\<close> is the context and the arguments.\<close>

definition debounce_call :: "nat \<Rightarrow> 'p \<Rightarrow> 'p timers \<times> nat option \<Rightarrow> 'p timers \<times> nat option" where
  "debounce_call wait p = (\<lambda>(T, timeout).
     let (i, T') = setTimeout p wait (clearTimeout timeout T) in (T', Some i))"

text \<open>The closure \<open>later\<close> forgets the timer and applies the function to the job, which is recorded
  with its time.\<close>

record 'p debounced =
  d_timers :: "'p timers"
  d_timeout :: "nat option"
  d_calls :: "(nat \<times> 'p) list"
  d_applied :: "(nat \<times> 'p) list"

inductive debounce_step :: "nat \<Rightarrow> 'p debounced \<Rightarrow> 'p debounced \<Rightarrow> bool" for wait where
  d_tick: "debounce_step wait s (s\<lparr>d_timers := (d_timers s)\<lparr>now := now (d_timers s) + t\<rparr>\<rparr>)"
| d_call: "debounce_call wait p (d_timers s, d_timeout s) = (T, timeout) \<Longrightarrow>
    debounce_step wait s (s\<lparr>d_timers := T, d_timeout := timeout, d_calls := (now T, p) # d_calls s\<rparr>)"
| d_later: "fires x (d_timers s) \<Longrightarrow>
    debounce_step wait s (s\<lparr>d_timers := fired x (d_timers s), d_timeout := None,
      d_applied := (now (d_timers s), job x) # d_applied s\<rparr>)"

definition debounce_init :: "'p debounced" where
  "debounce_init = \<lparr>d_timers = \<lparr>now = 0, next_id = 1, pending = []\<rparr>, d_timeout = None, d_calls = [], d_applied = []\<rparr>"

section \<open>Throttle\<close>

text \<open>The two callbacks that \<open>throttle\<close> has on timers: its own \<open>later\<close>, and the function that the
  debounced \<open>whenDone\<close> runs.\<close>

datatype throttle_job = Later | Done

record 'p throttled =
  t_timers :: "throttle_job timers"
  t_args :: "'p option"
  t_timeout :: "nat option"
  t_done :: "nat option"
  t_throttling :: bool
  t_more :: bool
  t_applied :: "(nat \<times> 'p) list"

definition whenDone :: "nat \<Rightarrow> 'p throttled \<Rightarrow> 'p throttled" where
  "whenDone wait s =
     (let (T, d) = debounce_call wait Done (t_timers s, t_done s) in s\<lparr>t_timers := T, t_done := d\<rparr>)"

definition apply_func :: "'p throttled \<Rightarrow> 'p throttled" where
  "apply_func s = (case t_args s of None \<Rightarrow> s | Some p \<Rightarrow> s\<lparr>t_applied := (now (t_timers s), p) # t_applied s\<rparr>)"

definition throttle_call :: "nat \<Rightarrow> 'p \<Rightarrow> 'p throttled \<Rightarrow> 'p throttled" where
  "throttle_call wait p s0 =
     (let s1 = s0\<lparr>t_args := Some p\<rparr>;
          s2 = (case t_timeout s1 of
                  None \<Rightarrow> let (i, T) = setTimeout Later wait (t_timers s1)
                          in s1\<lparr>t_timers := T, t_timeout := Some i\<rparr>
                | Some _ \<Rightarrow> s1);
          s3 = (if t_throttling s2 then s2\<lparr>t_more := True\<rparr> else apply_func s2)
      in (whenDone wait s3)\<lparr>t_throttling := True\<rparr>)"

definition throttle_fire :: "nat \<Rightarrow> throttle_job \<Rightarrow> 'p throttled \<Rightarrow> 'p throttled" where
  "throttle_fire wait j s =
     (case j of
        Later \<Rightarrow> whenDone wait
          (let s1 = s\<lparr>t_timeout := None\<rparr> in if t_more s1 then apply_func s1 else s1)
      | Done \<Rightarrow> s\<lparr>t_done := None, t_more := False, t_throttling := False\<rparr>)"

inductive throttle_step :: "nat \<Rightarrow> 'p throttled \<Rightarrow> 'p throttled \<Rightarrow> bool" for wait where
  t_tick: "throttle_step wait s (s\<lparr>t_timers := (t_timers s)\<lparr>now := now (t_timers s) + t\<rparr>\<rparr>)"
| t_call: "throttle_step wait s (throttle_call wait p s)"
| t_fire: "fires x (t_timers s) \<Longrightarrow>
    throttle_step wait s (throttle_fire wait (job x) (s\<lparr>t_timers := fired x (t_timers s)\<rparr>))"

definition throttle_init :: "'p throttled" where
  "throttle_init = \<lparr>t_timers = \<lparr>now = 0, next_id = 1, pending = []\<rparr>, t_args = None, t_timeout = None,
     t_done = None, t_throttling = False, t_more = False, t_applied = []\<rparr>"

end
