(* ===== verification/Us_Timing.thy ===== *)
theory Us_Timing
  imports Us_Functions
begin

text \<open>
  The timing of \<open>debounce\<close> and \<open>throttle\<close>: invariants of their transition systems, from which
  follow that a debounced function runs only after a quiet period, with the arguments of the latest
  call, and that a throttled function runs at most once in every window of the given length.
\<close>

lemma pending_setTimeout: "setTimeout p wait T = (i, T') \<Longrightarrow>
    i = next_id T \<and> next_id T' = Suc (next_id T) \<and> now T' = now T \<and>
    pending T' = pending T @ [\<lparr>timer_id = next_id T, due = now T + wait, job = p\<rparr>]"
  by (auto simp: setTimeout_def)

lemma clearTimeout_simps [simp]:
  "now (clearTimeout t T) = now T" "next_id (clearTimeout t T) = next_id T"
  "pending (clearTimeout t T) = filter (\<lambda>x. Some (timer_id x) \<noteq> t) (pending T)"
  by (auto simp: clearTimeout_def split: option.splits)

lemma fired_simps [simp]:
  "now (fired x T) = now T" "next_id (fired x T) = next_id T"
  "pending (fired x T) = filter (\<lambda>y. timer_id y \<noteq> timer_id x) (pending T)"
  by (auto simp: fired_def)

lemma debounce_call_simps:
  "debounce_call wait p (T, t) =
     (T\<lparr>next_id := Suc (next_id T),
        pending := filter (\<lambda>x. Some (timer_id x) \<noteq> t) (pending T) @
          [\<lparr>timer_id = next_id T, due = now T + wait, job = p\<rparr>]\<rparr>, Some (next_id T))"
  by (auto simp: debounce_call_def setTimeout_def clearTimeout_def split: option.splits)

section \<open>Debounce\<close>

text \<open>At most one timer is pending, the one the variable \<open>timeout\<close> names; it was started by the latest call.\<close>

definition debounce_inv :: "nat \<Rightarrow> 'p debounced \<Rightarrow> bool" where
  "debounce_inv wait s \<longleftrightarrow>
     (case pending (d_timers s) of
        [] \<Rightarrow> True
      | [x] \<Rightarrow> d_timeout s = Some (timer_id x) \<and>
          (\<exists>t p rest. d_calls s = (t, p) # rest \<and> due x = t + wait \<and> job x = p)
      | _ \<Rightarrow> False) \<and>
     (\<forall>(f, p) \<in> set (d_applied s). \<exists>t later earlier. d_calls s = later @ (t, p) # earlier \<and> t + wait \<le> f \<and>
        (\<forall>(t', p') \<in> set later. f \<le> t'))
     \<and> (\<forall>(t, p) \<in> set (d_calls s). t \<le> now (d_timers s)) \<and> (\<forall>(f, p) \<in> set (d_applied s). f \<le> now (d_timers s))"

lemma debounce_init_inv: "debounce_inv wait debounce_init"
  by (simp add: debounce_inv_def debounce_init_def)

lemma debounce_call_inv:
  assumes "debounce_inv wait s" and "debounce_call wait p (d_timers s, d_timeout s) = (T, timeout)"
  shows "debounce_inv wait (s\<lparr>d_timers := T, d_timeout := timeout, d_calls := (now T, p) # d_calls s\<rparr>)"
proof -
  have T: "now T = now (d_timers s)" "timeout = Some (next_id (d_timers s))"
    "pending T = filter (\<lambda>x. Some (timer_id x) \<noteq> d_timeout s) (pending (d_timers s)) @
       [\<lparr>timer_id = next_id (d_timers s), due = now (d_timers s) + wait, job = p\<rparr>]"
    using assms(2) by (auto simp: debounce_call_simps)
  have none: "filter (\<lambda>x. Some (timer_id x) \<noteq> d_timeout s) (pending (d_timers s)) = []"
    using assms(1) by (auto simp: debounce_inv_def split: list.splits)
  have "\<exists>t later earlier. (now T, p) # d_calls s = later @ (t, q) # earlier \<and> t + wait \<le> f \<and> (\<forall>(t', p') \<in> set later. f \<le> t')"
    if fq: "(f, q) \<in> set (d_applied s)" for f q
  proof -
    obtain t later earlier where "d_calls s = later @ (t, q) # earlier" "t + wait \<le> f" "\<forall>(t', p') \<in> set later. f \<le> t'"
      using assms(1) fq unfolding debounce_inv_def by blast
    moreover have "f \<le> now T" using assms(1) fq T(1) by (auto simp: debounce_inv_def)
    ultimately show ?thesis
      by (intro exI [of _ t] exI [of _ "(now T, p) # later"] exI [of _ earlier]) auto
  qed
  then show ?thesis
    using assms(1) T none by (auto simp: debounce_inv_def)
qed

lemma debounce_step_inv: "debounce_step wait s s' \<Longrightarrow> debounce_inv wait s \<Longrightarrow> debounce_inv wait s'"
proof (induction rule: debounce_step.induct)
  case (d_tick s t)
  then show ?case by (fastforce simp: debounce_inv_def split: list.splits)
next
  case (d_call p s T timeout)
  then show ?case by (simp add: debounce_call_inv)
next
  case (d_later x s)
  then obtain t p rest where x: "pending (d_timers s) = [x]" "d_calls s = (t, p) # rest" "due x = t + wait" "job x = p"
    by (auto simp: debounce_inv_def fires_def split: list.splits)
  then have "t + wait \<le> now (d_timers s)" using d_later by (simp add: fires_def)
  then have "\<exists>t' later earlier. d_calls s = later @ (t', job x) # earlier \<and> t' + wait \<le> now (d_timers s) \<and>
      (\<forall>(t'', p') \<in> set later. now (d_timers s) \<le> t'')"
    using x by (intro exI [of _ t] exI [of _ "[]"] exI [of _ rest]) auto
  then show ?case using d_later x by (simp add: debounce_inv_def)
qed

lemma debounce_reachable_inv: "(debounce_step wait)\<^sup>*\<^sup>* debounce_init s \<Longrightarrow> debounce_inv wait s"
  by (induction rule: rtranclp_induct) (auto intro: debounce_init_inv debounce_step_inv)

section \<open>Throttle\<close>

text \<open>
  The invariant of \<open>throttle\<close>: the two variables name the two timers that may be pending, \<open>later\<close>
  goes before \<open>whenDone\<close>, both are due only when a whole window has passed since the function
  ran last, and while no window is open that much time has passed.
\<close>

definition quiet :: "nat \<Rightarrow> 'p throttled \<Rightarrow> nat \<Rightarrow> bool" where
  "quiet wait s t \<longleftrightarrow> (case t_applied s of [] \<Rightarrow> True | (f, p) # _ \<Rightarrow> f + wait \<le> t)"

text \<open>The timers: at most \<open>later\<close> and \<open>whenDone\<close>, in this order.\<close>

definition throttle_timers :: "nat \<Rightarrow> 'p throttled \<Rightarrow> bool" where
  "throttle_timers wait s \<longleftrightarrow>
     (case (t_timeout s, t_done s) of
        (None, None) \<Rightarrow> pending (t_timers s) = []
      | (None, Some j) \<Rightarrow> (\<exists>d. pending (t_timers s) = [\<lparr>timer_id = j, due = d, job = Done\<rparr>] \<and>
          j < next_id (t_timers s) \<and> d \<le> now (t_timers s) + wait \<and> quiet wait s d)
      | (Some i, Some j) \<Rightarrow> (\<exists>d e. pending (t_timers s) =
            [\<lparr>timer_id = i, due = d, job = Later\<rparr>, \<lparr>timer_id = j, due = e, job = Done\<rparr>] \<and>
          i < j \<and> j < next_id (t_timers s) \<and> d \<le> e \<and> e \<le> now (t_timers s) + wait \<and> quiet wait s d)
      | (Some i, None) \<Rightarrow> False)"

definition throttle_inv :: "nat \<Rightarrow> 'p throttled \<Rightarrow> bool" where
  "throttle_inv wait s \<longleftrightarrow> throttle_timers wait s \<and>
     (\<not> t_throttling s \<longrightarrow> quiet wait s (now (t_timers s)) \<and> t_timeout s = None \<and> t_done s = None) \<and>
     sorted_wrt (\<lambda>(f, _) (g, _). g + wait \<le> f) (t_applied s) \<and>
     (\<forall>(f, _) \<in> set (t_applied s). f \<le> now (t_timers s))"

lemma throttle_init_inv: "throttle_inv wait throttle_init"
  by (simp add: throttle_inv_def throttle_timers_def throttle_init_def quiet_def)

lemma quiet_mono: "quiet wait s t \<Longrightarrow> t \<le> u \<Longrightarrow> quiet wait s u"
  by (auto simp: quiet_def split: list.splits)

lemma quiet_now: "\<forall>(f, _) \<in> set (t_applied s). f \<le> n \<Longrightarrow> quiet wait s (n + wait)"
  by (auto simp: quiet_def split: list.splits)

lemma quiet_cong: "t_applied s' = t_applied s \<Longrightarrow> quiet wait s' = quiet wait s"
  by (rule ext) (simp add: quiet_def)

lemma sorted_applied:
  fixes xs :: "(nat \<times> 'p) list"
  assumes "sorted_wrt (\<lambda>(f, _) (g, _). g + wait \<le> f) xs"
    and "case xs of [] \<Rightarrow> True | (f, p) # _ \<Rightarrow> f + wait \<le> n"
  shows "sorted_wrt (\<lambda>(f, _) (g, _). g + wait \<le> f) ((n, p) # xs)"
proof (cases xs)
  case (Cons x ys)
  obtain f q where x: "x = (f, q)" by (cases x)
  have "g + wait \<le> n" if "(g, r) \<in> set ys" for g r
  proof -
    have "g + wait \<le> f" using assms(1) that by (auto simp: Cons x)
    moreover have "f + wait \<le> n" using assms(2) by (simp add: Cons x)
    ultimately show ?thesis by linarith
  qed
  then show ?thesis using assms by (auto simp: Cons x)
qed simp

lemma throttle_tick_inv:
  "throttle_inv wait s \<Longrightarrow> throttle_inv wait (s\<lparr>t_timers := (t_timers s)\<lparr>now := now (t_timers s) + t\<rparr>\<rparr>)"
  by (auto simp: throttle_inv_def throttle_timers_def quiet_def split: option.splits list.splits intro: trans_le_add1)
     (fastforce intro: trans_le_add1)+

lemma throttle_call_inv:
  assumes inv: "throttle_inv wait s"
  shows "throttle_inv wait (throttle_call wait p s)"
proof (cases "t_throttling s")
  case False
  then have "pending (t_timers s) = []" "t_timeout s = None" "t_done s = None" "quiet wait s (now (t_timers s))"
    using inv by (auto simp: throttle_inv_def throttle_timers_def)
  then show ?thesis
    using inv False sorted_applied [of wait "t_applied s" "now (t_timers s)" p]
    by (auto simp: throttle_call_def Let_def setTimeout_def apply_func_def whenDone_def debounce_call_simps
        throttle_inv_def throttle_timers_def quiet_def)
next
  case True
  then show ?thesis
    using inv quiet_now [of s "now (t_timers s)" wait]
    by (auto simp: throttle_call_def Let_def setTimeout_def whenDone_def debounce_call_simps
        throttle_inv_def throttle_timers_def quiet_def split: option.splits)
qed

lemma throttle_fire_inv:
  assumes inv: "throttle_inv wait s" and x: "fires x (t_timers s)"
  shows "throttle_inv wait (throttle_fire wait (job x) (s\<lparr>t_timers := fired x (t_timers s)\<rparr>))"
proof (cases "t_timeout s")
  case None
  then obtain j d where s: "t_done s = Some j" "pending (t_timers s) = [\<lparr>timer_id = j, due = d, job = Done\<rparr>]"
      "quiet wait s d" and d: "x = \<lparr>timer_id = j, due = d, job = Done\<rparr>" "d \<le> now (t_timers s)"
    using inv x by (auto simp: throttle_inv_def throttle_timers_def fires_def split: option.splits)
  then show ?thesis
    using inv None quiet_mono [OF s(3) d(2)]
    by (auto simp: throttle_fire_def throttle_inv_def throttle_timers_def quiet_def)
next
  case (Some i)
  then obtain j d e where s: "t_done s = Some j" "pending (t_timers s) =
        [\<lparr>timer_id = i, due = d, job = Later\<rparr>, \<lparr>timer_id = j, due = e, job = Done\<rparr>]" "i < j" "d \<le> e" "quiet wait s d"
    using inv by (auto simp: throttle_inv_def throttle_timers_def split: option.splits)
  then have d: "x = \<lparr>timer_id = i, due = d, job = Later\<rparr>" "d \<le> now (t_timers s)"
    using x by (auto simp: fires_def)
  have th: "t_throttling s" using inv Some by (auto simp: throttle_inv_def)
  note q = quiet_mono [OF s(5) d(2)]
  have "quiet wait s (now (t_timers s) + wait)" using inv by (intro quiet_now) (simp add: throttle_inv_def)
  then show ?thesis
    using inv s d th q sorted_applied [of wait "t_applied s" "now (t_timers s)"]
    by (auto simp: throttle_fire_def Let_def apply_func_def whenDone_def debounce_call_simps
        throttle_inv_def throttle_timers_def quiet_def split: option.splits list.splits)
qed

lemma throttle_step_inv: "throttle_step wait s s' \<Longrightarrow> throttle_inv wait s \<Longrightarrow> throttle_inv wait s'"
  by (induction rule: throttle_step.induct) (auto intro: throttle_tick_inv throttle_call_inv throttle_fire_inv)

lemma throttle_reachable_inv: "(throttle_step wait)\<^sup>*\<^sup>* throttle_init s \<Longrightarrow> throttle_inv wait s"
  by (induction rule: rtranclp_induct) (auto intro: throttle_init_inv throttle_step_inv)

section \<open>Once and after\<close>

text \<open>A run of calls of the closure of \<open>once\<close>; the world counts the calls of the function.\<close>

fun once_calls :: "'w js_fun \<Rightarrow> (js_val \<times> js_val list) list \<Rightarrow> 'w \<times> bool \<times> js_val \<Rightarrow> 'w \<times> bool \<times> js_val" where
  "once_calls func [] s = s"
| "once_calls func ((this, arguments) # cs) s = once_calls func cs (snd (once_call func this arguments s))"

lemma once_calls_ran: "once_calls func cs (w, True, memo) = (w, True, memo)"
proof (induction cs)
  case (Cons c cs)
  then show ?case by (cases c) (simp add: once_call_def)
qed simp

lemma once_calls_first:
  "once_calls func ((this, arguments) # cs) (w, False, JUndef) =
     (case func this arguments w of (Inl e, w') \<Rightarrow> (w', True, JUndef) | (Inr v, w') \<Rightarrow> (w', True, v))"
  by (auto simp: once_call_def once_calls_ran split: prod.splits sum.splits)

section \<open>Properties\<close>



text \<open>
  Claim C23. A debounced function runs only after silence: whenever it has run at a time, it ran with the
  arguments of a call at least the wait earlier, and no other call lies between that call and the run.\<close>

theorem debounce_silence:
  assumes "(debounce_step wait)\<^sup>*\<^sup>* debounce_init s" and "(f, p) \<in> set (d_applied s)"
  shows "\<exists>t later earlier. d_calls s = later @ (t, p) # earlier \<and> t + wait \<le> f \<and> (\<forall>(t', _) \<in> set later. f \<le> t')"
  using debounce_reachable_inv [OF assms(1)] assms(2) unfolding debounce_inv_def by blast

definition debounced_sample :: "nat debounced" where
  "debounced_sample = \<lparr>d_timers = \<lparr>now = 3, next_id = 2, pending = []\<rparr>, d_timeout = None, d_calls = [(0, 7)], d_applied = [(3, 7)]\<rparr>"

theorem debounce_silence_witness:
  "\<exists>t later earlier. d_calls debounced_sample = later @ (t, 7) # earlier \<and> t + 3 \<le> 3 \<and> (\<forall>(t', _) \<in> set later. 3 \<le> t')"
proof -
  let ?x = "\<lparr>timer_id = 1, due = 3, job = 7::nat\<rparr>"
  let ?s1 = "\<lparr>d_timers = \<lparr>now = 0, next_id = 2, pending = [?x]\<rparr>, d_timeout = Some 1, d_calls = [(0, 7)], d_applied = []\<rparr>"
  let ?s2 = "\<lparr>d_timers = \<lparr>now = 3, next_id = 2, pending = [?x]\<rparr>, d_timeout = Some 1, d_calls = [(0, 7)], d_applied = []\<rparr>"
  have "debounce_step 3 debounce_init ?s1"
    using d_call [of 3 7 "debounce_init :: nat debounced" "\<lparr>now = 0, next_id = 2, pending = [?x]\<rparr>" "Some 1"]
    by (simp add: debounce_init_def debounce_call_simps)
  moreover have "debounce_step 3 ?s1 ?s2" using d_tick [of 3 ?s1 3] by simp
  moreover have "debounce_step 3 ?s2 debounced_sample"
    using d_later [of ?x ?s2 3] by (simp add: fires_def fired_def debounced_sample_def)
  ultimately have "(debounce_step 3)\<^sup>*\<^sup>* debounce_init debounced_sample"
    by (meson converse_rtranclp_into_rtranclp r_into_rtranclp)
  from debounce_silence [OF this, of 3 7] show ?thesis by (simp add: debounced_sample_def)
qed

end
