(* ===== verification/Us_Objects.thy ===== *)
theory Us_Objects
  imports Us_Functions
begin

text \<open>
  The object functions of \<open>underscore-1.3.1.js\<close>, lines 607 to 844, over a heap: a reference is mapped to an
  object with its class (what \<open>Object.prototype.toString\<close> reports), its own enumerable properties,
  its elements when it is an array, the primitive it wraps, and its constructor.
\<close>

section \<open>Heap\<close>

record js_regexp =
  rx_source :: js_string
  rx_global :: bool
  rx_multiline :: bool
  rx_ignoreCase :: bool

datatype js_class = CObject | CArray | CFunction | CString | CNumber | CBoolean | CDate | CRegExp | CArguments | CNull | CUndefined

record js_object =
  o_class :: js_class
  o_props :: "js_val js_obj"
  o_elems :: js_array
  o_prim :: js_val
  o_regexp :: js_regexp
  o_ctor :: "js_val option"
  o_nodeType :: "int option"

type_synonym heap = "nat \<rightharpoonup> js_object"

text \<open>\<open>toString.call(v)\<close>; a reference outside the heap does not occur and is treated as a function.\<close>

definition class_of :: "heap \<Rightarrow> js_val \<Rightarrow> js_class" where
  "class_of h v = (case v of
     JUndef \<Rightarrow> CUndefined | JNull \<Rightarrow> js_class.CNull | JBool _ \<Rightarrow> CBoolean | JNum _ \<Rightarrow> CNumber | JStr _ \<Rightarrow> CString
   | JRef r \<Rightarrow> (case h r of Some obj \<Rightarrow> o_class obj | None \<Rightarrow> CFunction))"

definition own_props :: "heap \<Rightarrow> js_val \<Rightarrow> js_val js_obj" where
  "own_props h v = (case v of JRef r \<Rightarrow> (case h r of Some obj \<Rightarrow> o_props obj | None \<Rightarrow> []) | _ \<Rightarrow> [])"

definition elems_of :: "heap \<Rightarrow> js_val \<Rightarrow> js_array" where
  "elems_of h v = (case v of JRef r \<Rightarrow> (case h r of Some obj \<Rightarrow> o_elems obj | None \<Rightarrow> []) | _ \<Rightarrow> [])"

text \<open>The primitive value of a value or of the object that wraps it.\<close>

definition prim_of :: "heap \<Rightarrow> js_val \<Rightarrow> js_val" where
  "prim_of h v = (case v of JRef r \<Rightarrow> (case h r of Some obj \<Rightarrow> o_prim obj | None \<Rightarrow> JUndef) | _ \<Rightarrow> v)"

section \<open>Type tests\<close>

definition has :: "heap \<Rightarrow> js_val \<Rightarrow> js_string \<Rightarrow> bool" where
  "has h obj key \<longleftrightarrow> map_of (own_props h obj) key \<noteq> None"

definition isEmpty :: "heap \<Rightarrow> js_val \<Rightarrow> bool" where
  "isEmpty h obj =
     (case class_of h obj of
        CArray \<Rightarrow> elems_of h obj = []
      | CString \<Rightarrow> prim_of h obj = JStr []
      | _ \<Rightarrow> own_props h obj = [])"

definition isElement :: "heap \<Rightarrow> js_val \<Rightarrow> bool" where
  "isElement h obj = (case obj of JRef r \<Rightarrow> (case h r of Some x \<Rightarrow> o_nodeType x = Some 1 | None \<Rightarrow> False) | _ \<Rightarrow> False)"

definition isArray :: "heap \<Rightarrow> js_val \<Rightarrow> bool" where
  "isArray h obj \<longleftrightarrow> class_of h obj = CArray"

definition isObject :: "js_val \<Rightarrow> bool" where
  "isObject obj \<longleftrightarrow> is_object_val obj"

definition isArguments :: "heap \<Rightarrow> js_val \<Rightarrow> bool" where
  "isArguments h obj \<longleftrightarrow> class_of h obj = CArguments"

definition isFunction :: "heap \<Rightarrow> js_val \<Rightarrow> bool" where
  "isFunction h obj \<longleftrightarrow> class_of h obj = CFunction"

definition isString :: "heap \<Rightarrow> js_val \<Rightarrow> bool" where
  "isString h obj \<longleftrightarrow> class_of h obj = CString"

definition isNumber :: "heap \<Rightarrow> js_val \<Rightarrow> bool" where
  "isNumber h obj \<longleftrightarrow> class_of h obj = CNumber"

definition isNaN :: "js_val \<Rightarrow> bool" where
  "isNaN obj \<longleftrightarrow> \<not> strict_eq obj obj"

definition isBoolean :: "heap \<Rightarrow> js_val \<Rightarrow> bool" where
  "isBoolean h obj \<longleftrightarrow> strict_eq obj (JBool True) \<or> strict_eq obj (JBool False) \<or> class_of h obj = CBoolean"

definition isDate :: "heap \<Rightarrow> js_val \<Rightarrow> bool" where
  "isDate h obj \<longleftrightarrow> class_of h obj = CDate"

definition isRegExp :: "heap \<Rightarrow> js_val \<Rightarrow> bool" where
  "isRegExp h obj \<longleftrightarrow> class_of h obj = CRegExp"

definition isNull :: "js_val \<Rightarrow> bool" where
  "isNull obj \<longleftrightarrow> strict_eq obj JNull"

definition isUndefined :: "js_val \<Rightarrow> bool" where
  "isUndefined obj \<longleftrightarrow> strict_eq obj JUndef"

section \<open>Properties of objects\<close>

definition keys :: "heap \<Rightarrow> js_val \<Rightarrow> js_err + js_string list" where
  "keys h obj =
     (if \<not> isObject obj then Inl TypeError
      else Inr (map (show_nat \<circ> fst) (filter (\<lambda>(i, x). x \<noteq> None) (enumerate 0 (elems_of h obj)))
                @ map fst (own_props h obj)))"

text \<open>Assignment of a property; \<open>__proto__\<close> makes none.\<close>

definition assign :: "'v js_obj \<Rightarrow> js_string \<Rightarrow> 'v \<Rightarrow> 'v js_obj" where
  "assign obj k v = (if k = J ''__proto__'' then obj else obj_put obj k v)"

text \<open>Each source is the list of the properties that \<open>for in\<close> enumerates.\<close>

definition extend :: "js_val js_obj \<Rightarrow> js_val js_obj list \<Rightarrow> js_val js_obj" where
  "extend obj sources =
     fold (\<lambda>source obj. fold (\<lambda>(k, v) obj. assign obj k v) source obj) sources obj"

definition defaults_step :: "js_string \<times> js_val \<Rightarrow> js_val js_obj \<Rightarrow> js_val js_obj" where
  "defaults_step = (\<lambda>(k, v) obj. case obj_lookup obj k of
     Absent \<Rightarrow> assign obj k v
   | Own u \<Rightarrow> if u = JNull \<or> u = JUndef then assign obj k v else obj
   | Inherited \<Rightarrow> obj)"

definition defaults :: "js_val js_obj \<Rightarrow> js_val js_obj list \<Rightarrow> js_val js_obj" where
  "defaults obj sources = fold (\<lambda>source obj. fold defaults_step source obj) sources obj"

text \<open>A copy: the next free reference gets the elements or the properties of the original.\<close>

definition clone :: "nat \<Rightarrow> heap \<Rightarrow> js_val \<Rightarrow> js_val \<times> heap" where
  "clone fresh h obj =
     (if \<not> isObject obj then (obj, h)
      else let plain = \<lparr>o_class = CObject, o_props = [], o_elems = [], o_prim = JUndef,
                 o_regexp = \<lparr>rx_source = [], rx_global = False, rx_multiline = False, rx_ignoreCase = False\<rparr>,
                 o_ctor = None, o_nodeType = None\<rparr>
           in if isArray h obj
              then (JRef fresh, h(fresh \<mapsto> plain\<lparr>o_class := CArray, o_elems := elems_of h obj\<rparr>))
              else (JRef fresh, h(fresh \<mapsto> plain\<lparr>o_props := extend [] [own_props h obj]\<rparr>)))"

definition tap :: "'o \<Rightarrow> ('o \<Rightarrow> ('w, js_val) act) \<Rightarrow> ('w, 'o) act" where
  "tap obj interceptor = andThen (interceptor obj) (\<lambda>_. ret obj)"

section \<open>Deep equality\<close>

definition is_zero :: "js_num \<Rightarrow> bool" where
  "is_zero n \<longleftrightarrow> n = Fin 0 \<or> n = NZero"

text \<open>Numbers, the wrapped ones included: NaN equals NaN, and the two zeros differ.\<close>

definition egal :: "js_num \<Rightarrow> js_num \<Rightarrow> bool" where
  "egal a b = (if a = NaN then b = NaN else if is_zero a then a = b else num_eq a b)"

definition as_num :: "js_val \<Rightarrow> js_num" where
  "as_num v = (case v of JNum n \<Rightarrow> n | JBool True \<Rightarrow> Fin 1 | JBool False \<Rightarrow> Fin 0 | JNull \<Rightarrow> Fin 0 | _ \<Rightarrow> NaN)"

text \<open>The wrapper objects of the library are compared by what they wrap.\<close>

definition unwrap :: "heap \<Rightarrow> js_val \<Rightarrow> js_val" where
  "unwrap h v =
     (case map_of (own_props h v) (J ''_chain'') of
        Some c \<Rightarrow> if truthy c then (case map_of (own_props h v) (J ''_wrapped'') of Some w \<Rightarrow> w | None \<Rightarrow> JUndef) else v
      | None \<Rightarrow> v)"

text \<open>The conjunction over a list that stops at the first answer that is not true; None is fuel run out.\<close>

fun all_eq :: "('x \<Rightarrow> (js_err + bool) option) \<Rightarrow> 'x list \<Rightarrow> (js_err + bool) option" where
  "all_eq f [] = Some (Inr True)"
| "all_eq f (x # xs) =
     (case f x of
        Some (Inr True) \<Rightarrow> all_eq f xs
      | r \<Rightarrow> r)"

definition regexp_of :: "heap \<Rightarrow> js_val \<Rightarrow> js_regexp option" where
  "regexp_of h v = (case v of JRef r \<Rightarrow> map_option o_regexp (h r) | _ \<Rightarrow> None)"

definition ctor_of :: "heap \<Rightarrow> js_val \<Rightarrow> js_val option" where
  "ctor_of h v = (case v of JRef r \<Rightarrow> (case h r of Some obj \<Rightarrow> o_ctor obj | None \<Rightarrow> None) | _ \<Rightarrow> None)"

text \<open>The comparison of two values of the same class that are decided without recursion.\<close>

definition eq_leaf :: "heap \<Rightarrow> js_class \<Rightarrow> js_val \<Rightarrow> js_val \<Rightarrow> bool option" where
  "eq_leaf h className a b =
     (case className of
        CString \<Rightarrow> Some (prim_of h a = prim_of h b)
      | CNumber \<Rightarrow> Some (egal (as_num (prim_of h a)) (as_num (prim_of h b)))
      | CDate \<Rightarrow> Some (num_eq (as_num (prim_of h a)) (as_num (prim_of h b)))
      | CBoolean \<Rightarrow> Some (num_eq (as_num (prim_of h a)) (as_num (prim_of h b)))
      | CRegExp \<Rightarrow> Some (regexp_of h a = regexp_of h b)
      | CFunction \<Rightarrow> Some False
      | _ \<Rightarrow> None)"

text \<open>The members of two arrays, from the last, or of two objects, compared by \<open>rec\<close>; objects must have as many properties.\<close>

definition eq_members :: "heap \<Rightarrow> (js_val \<Rightarrow> js_val \<Rightarrow> (js_err + bool) option) \<Rightarrow> js_val \<Rightarrow> js_val \<Rightarrow> (js_err + bool) option" where
  "eq_members h rec a b =
     (if class_of h a = CArray then
        (if length (elems_of h a) \<noteq> length (elems_of h b) then Some (Inr False)
         else all_eq (\<lambda>i. if (elems_of h a ! i \<noteq> None) \<noteq> (elems_of h b ! i \<noteq> None) then Some (Inr False)
                          else rec (arr_get (elems_of h a) i) (arr_get (elems_of h b) i))
                (rev [0..<length (elems_of h a)]))
      else if ctor_of h a \<noteq> ctor_of h b then Some (Inr False)
      else
        (case all_eq (\<lambda>(k, v). case map_of (own_props h b) k of
                None \<Rightarrow> Some (Inr False) | Some w \<Rightarrow> rec v w) (own_props h a) of
           Some (Inr True) \<Rightarrow> Some (Inr (length (own_props h b) = length (own_props h a)))
         | r \<Rightarrow> r))"

text \<open>The custom methods of the operands: \<open>custom v\<close> is the method \<open>isEqual\<close> of a value when it has one. A wrapped
  null has no methods at all.\<close>

definition eq_custom :: "(js_val \<Rightarrow> (js_val \<Rightarrow> js_err + bool) option) \<Rightarrow> js_val \<Rightarrow> js_val \<Rightarrow> (js_err + bool) option" where
  "eq_custom custom a b =
     (if a \<in> {JUndef, JNull} then Some (Inl TypeError)
      else case custom a of
        Some m \<Rightarrow> Some (m b)
      | None \<Rightarrow>
          if b \<in> {JUndef, JNull} then Some (Inl TypeError)
          else (case custom b of Some m \<Rightarrow> Some (m a) | None \<Rightarrow> None))"

text \<open>
  The function \<open>eq\<close>. \<open>fuel\<close> bounds the depth of the recursion.
\<close>

fun eq :: "heap \<Rightarrow> (js_val \<Rightarrow> (js_val \<Rightarrow> js_err + bool) option) \<Rightarrow> nat \<Rightarrow> js_val \<Rightarrow> js_val \<Rightarrow> js_val list
    \<Rightarrow> (js_err + bool) option" where
  "eq h custom 0 a0 b0 stack = None"
| "eq h custom (Suc fuel) a0 b0 stack =
     (if strict_eq a0 b0 then
        Some (Inr (case (a0, b0) of (JNum m, JNum n) \<Rightarrow> \<not> is_zero m \<or> m = n | _ \<Rightarrow> True))
      else if a0 \<in> {JUndef, JNull} \<or> b0 \<in> {JUndef, JNull} then Some (Inr False)
      else let a = unwrap h a0; b = unwrap h b0 in
      case eq_custom custom a b of
        Some r \<Rightarrow> Some r
      | None \<Rightarrow>
      if class_of h a \<noteq> class_of h b then Some (Inr False)
      else case eq_leaf h (class_of h a) a b of
        Some r \<Rightarrow> Some (Inr r)
      | None \<Rightarrow>
      if a \<in> set stack then Some (Inr True)
      else eq_members h (\<lambda>u v. eq h custom fuel u v (stack @ [a])) a b)"

definition isEqual :: "heap \<Rightarrow> (js_val \<Rightarrow> (js_val \<Rightarrow> js_err + bool) option) \<Rightarrow> nat \<Rightarrow> js_val \<Rightarrow> js_val \<Rightarrow> (js_err + bool) option" where
  "isEqual h custom fuel a b = eq h custom fuel a b []"

section \<open>Lemmas\<close>

lemma all_eq_Some: "(\<And>x. x \<in> set xs \<Longrightarrow> f x \<noteq> None) \<Longrightarrow> all_eq f xs \<noteq> None"
proof (induction xs)
  case (Cons x xs)
  have x: "f x \<noteq> None" and xs: "all_eq f xs \<noteq> None" using Cons by auto
  then show ?case by (cases "f x") (auto split: sum.splits bool.splits)
qed simp

lemma eq_members_Some:
  assumes "\<And>u v. rec u v \<noteq> None"
  shows "eq_members h rec a b \<noteq> None"
proof -
  have "all_eq (\<lambda>i. if (elems_of h a ! i \<noteq> None) \<noteq> (elems_of h b ! i \<noteq> None) then Some (Inr False)
      else rec (arr_get (elems_of h a) i) (arr_get (elems_of h b) i)) (rev [0..<length (elems_of h a)]) \<noteq> None"
    by (rule all_eq_Some) (use assms in auto)
  moreover have "all_eq (\<lambda>(k, v). case map_of (own_props h b) k of None \<Rightarrow> Some (Inr False) | Some w \<Rightarrow> rec v w)
      (own_props h a) \<noteq> None"
    by (rule all_eq_Some) (use assms in \<open>auto split: option.splits\<close>)
  ultimately show ?thesis
    by (auto simp: eq_members_def split: option.splits sum.splits bool.splits)
qed

lemma leaf_None_in_heap:
  "a \<notin> {JUndef, JNull} \<Longrightarrow> eq_leaf h (class_of h a) a b = None \<Longrightarrow> \<exists>r. a = JRef r \<and> r \<in> dom h"
  by (cases a) (auto simp: eq_leaf_def class_of_def split: option.splits js_class.splits)

text \<open>The stack holds different objects of the heap, so the recursion is at most as deep as the heap is large.\<close>

definition stack_ok :: "heap \<Rightarrow> js_val list \<Rightarrow> bool" where
  "stack_ok h stack \<longleftrightarrow> distinct stack \<and> set stack \<subseteq> JRef ` dom h"

lemma stack_ok_length: "finite (dom h) \<Longrightarrow> stack_ok h stack \<Longrightarrow> length stack \<le> card (dom h)"
  by (metis stack_ok_def card_image card_mono distinct_card finite_imageI inj_onI js_val.inject(4))

lemma eq_returns:
  assumes "finite (dom h)"
  shows "stack_ok h stack \<Longrightarrow> card (dom h) < fuel + length stack \<Longrightarrow> eq h custom fuel a b stack \<noteq> None"
proof (induction fuel arbitrary: a b stack)
  case 0
  then show ?case using stack_ok_length [OF assms, of stack] by simp
next
  case (Suc fuel)
  let ?a = "unwrap h a" and ?b = "unwrap h b"
  have "eq_members h (\<lambda>u v. eq h custom fuel u v (stack @ [?a])) ?a ?b \<noteq> None"
    if c: "eq_custom custom ?a ?b = None" and l: "eq_leaf h (class_of h ?a) ?a ?b = None" and n: "?a \<notin> set stack"
  proof (rule eq_members_Some, rule Suc.IH)
    obtain r where "?a = JRef r" "r \<in> dom h"
      using leaf_None_in_heap [OF _ l] c by (auto simp: eq_custom_def split: if_splits)
    then show "stack_ok h (stack @ [?a])" using Suc.prems(1) n by (auto simp: stack_ok_def)
    show "card (dom h) < fuel + length (stack @ [?a])" using Suc.prems(2) by simp
  qed
  then show ?case by (auto simp: Let_def split: option.splits)
qed

section \<open>Properties\<close>

text \<open>
  Claim C25. Deep comparison returns on every finite heap, cyclic structures included: with a recursion depth of one more
  than the number of objects, \<open>isEqual\<close> of any two values answers or throws.\<close>

theorem isEqual_returns:
  assumes "finite (dom h)" and "card (dom h) < fuel"
  shows "\<exists>r. isEqual h custom fuel a b = Some r"
  using eq_returns [OF assms(1), of "[]" fuel custom a b] assms(2)
  by (auto simp: isEqual_def stack_ok_def)

text \<open>An array that contains itself.\<close>

definition cyclic_heap :: heap where
  "cyclic_heap = (\<lambda>r. if r < 2 then Some \<lparr>o_class = CArray, o_props = [], o_elems = [Some (JRef r)], o_prim = JUndef,
     o_regexp = \<lparr>rx_source = [], rx_global = False, rx_multiline = False, rx_ignoreCase = False\<rparr>,
     o_ctor = None, o_nodeType = None\<rparr> else None)"

theorem isEqual_returns_witness:
  "(\<exists>r. isEqual cyclic_heap (\<lambda>_. None) 3 (JRef 0) (JRef 1) = Some r)
   \<and> isEqual cyclic_heap (\<lambda>_. None) 3 (JRef 0) (JRef 1) = Some (Inr True)"
proof -
  have "dom cyclic_heap = {0, 1}" by (auto simp: cyclic_heap_def split: if_splits)
  then have "finite (dom cyclic_heap)" "card (dom cyclic_heap) < 3" by auto
  from isEqual_returns [OF this] show ?thesis
    by (simp add: isEqual_def numeral_3_eq_3 cyclic_heap_def unwrap_def own_props_def class_of_def eq_leaf_def elems_of_def arr_get_def
        eq_custom_def eq_members_def)
qed

end
