(* ===== verification/Us_Utility.thy ===== *)
theory Us_Utility
  imports Us_Functions
begin

text \<open>
  The set-up, the utility functions and the object wrapper of \<open>underscore-1.3.1.js\<close>: lines 14 to 65 and 846 to 997.
  \<open>template\<close> is the program text that the library generates; running it is left to the browser.
\<close>

section \<open>The global variable\<close>

text \<open>The root object before and after the script: its property \<open>_\<close> is the library or what another script put there.
  In Node the library is exported and the root object is left alone.\<close>

datatype 'v underscore = Library | Foreign 'v

record 'v root =
  underscore :: "'v underscore option"
  exported :: bool
  previousUnderscore :: "'v underscore option"

definition load :: "bool \<Rightarrow> 'v underscore option \<Rightarrow> 'v root" where
  "load has_exports before =
     (if has_exports then \<lparr>underscore = before, exported = True, previousUnderscore = before\<rparr>
      else \<lparr>underscore = Some Library, exported = False, previousUnderscore = before\<rparr>)"

definition noConflict :: "'v root \<Rightarrow> 'v root \<times> 'v underscore" where
  "noConflict r = (r\<lparr>underscore := previousUnderscore r\<rparr>, Library)"

section \<open>Small functions\<close>

definition identity :: "'a \<Rightarrow> 'a" where
  "identity v = v"

function times_loop :: "int \<Rightarrow> (int \<Rightarrow> ('w, js_val) act) \<Rightarrow> int \<Rightarrow> ('w, unit) act" where
  "times_loop n iterator i =
     (if i < n then andThen (iterator i) (\<lambda>_. times_loop n iterator (i + 1)) else ret ())"
  by pat_completeness auto
termination
  by (relation "measure (\<lambda>(n, _, i). nat (n - i))") auto

declare times_loop.simps [simp del]

definition times_us :: "int \<Rightarrow> (int \<Rightarrow> ('w, js_val) act) \<Rightarrow> ('w, unit) act" where
  "times_us n iterator = times_loop n iterator 0"

definition escape :: "js_string \<Rightarrow> js_string" where
  "escape string =
     replace_char 47 (J ''&#x2F;'')
       (replace_char 39 (J ''&#x27;'')
         (replace_char 34 (J ''&quot;'')
           (replace_char 62 (J ''&gt;'')
             (replace_char 60 (J ''&lt;'')
               (replace_char 38 (J ''&amp;'') string)))))"

text \<open>The counter of \<open>uniqueId\<close>; an empty prefix counts as none.\<close>

definition uniqueId :: "js_string option \<Rightarrow> nat \<Rightarrow> (js_string + nat) \<times> nat" where
  "uniqueId pfx idCounter =
     ((case pfx of Some p \<Rightarrow> if p \<noteq> [] then Inl (p @ show_nat idCounter) else Inr idCounter
                    | None \<Rightarrow> Inr idCounter), Suc idCounter)"

section \<open>Templates\<close>

definition close_tag :: js_string where
  "close_tag = J ''%>''"

lemma drop_Cons_length: "drop n (c # s) = x # r \<Longrightarrow> length r \<le> length s"
  by (metis Suc_le_mono diff_le_self length_Cons length_drop)

text \<open>\<open>replace(/<%...([\s\S]+?)%>/g, f)\<close>: the code is the shortest nonempty text before the closing tag.\<close>

function replace_delim :: "js_string \<Rightarrow> (js_string \<Rightarrow> js_string) \<Rightarrow> js_string \<Rightarrow> js_string" where
  "replace_delim open_tag f [] = []"
| "replace_delim open_tag f (c # s) =
     (if prefix open_tag (c # s) then
        (case drop (length open_tag) (c # s) of
           [] \<Rightarrow> c # replace_delim open_tag f s
         | x # r \<Rightarrow>
             (case js_find close_tag r of
                None \<Rightarrow> c # replace_delim open_tag f s
              | Some k \<Rightarrow> f (x # take k r) @ replace_delim open_tag f (drop (k + 2) r)))
      else c # replace_delim open_tag f s)"
  by pat_completeness auto
termination
  by (relation "measure (\<lambda>(_, _, s). length s)") (auto dest: drop_Cons_length)

record template_settings =
  evaluate :: "js_string option"
  interpolate :: "js_string option"
  escape_tag :: "js_string option"

definition templateSettings :: template_settings where
  "templateSettings = \<lparr>evaluate = Some (J ''<%''), interpolate = Some (J ''<%=''), escape_tag = Some (J ''<%-'')\<rparr>"

text \<open>A setting that is missing is the pattern that never matches.\<close>

definition replace_setting :: "js_string option \<Rightarrow> (js_string \<Rightarrow> js_string) \<Rightarrow> js_string \<Rightarrow> js_string" where
  "replace_setting tag f s = (case tag of Some t \<Rightarrow> replace_delim t f s | None \<Rightarrow> s)"

text \<open>\<open>replace(/\\\\/g, '\\')\<close> and \<open>replace(/\\'/g, "'")\<close>: pairs of characters are replaced from the left.\<close>

fun replace_pair :: "js_char \<Rightarrow> js_char \<Rightarrow> js_char \<Rightarrow> js_string \<Rightarrow> js_string" where
  "replace_pair a b r (x # y # s) =
     (if x = a \<and> y = b then r # replace_pair a b r s else x # replace_pair a b r (y # s))"
| "replace_pair a b r s = s"

definition unescape :: "js_string \<Rightarrow> js_string" where
  "unescape code = replace_pair 92 39 39 (replace_pair 92 92 92 code)"

definition blanks :: "js_string \<Rightarrow> js_string" where
  "blanks s = map (\<lambda>c. if c \<in> {13, 10, 9} then 32 else c) s"

definition quote_text :: "js_string \<Rightarrow> js_string" where
  "quote_text str = replace_char 39 [92, 39] (replace_char 92 [92, 92] str)"

definition quote_controls :: "js_string \<Rightarrow> js_string" where
  "quote_controls s = replace_char 9 (92 # J ''t'') (replace_char 10 (92 # J ''n'') (replace_char 13 (92 # J ''r'') s))"

definition template_body :: "template_settings \<Rightarrow> js_string \<Rightarrow> js_string" where
  "template_body c str =
     quote_controls
       (replace_setting (evaluate c) (\<lambda>code. 39 # J '');'' @ blanks (unescape code) @ J '';__p.push('' @ [39])
         (replace_setting (interpolate c) (\<lambda>code. 39 # J '','' @ unescape code @ J '','' @ [39])
           (replace_setting (escape_tag c) (\<lambda>code. 39 # J '',_.escape('' @ unescape code @ J ''),'' @ [39])
             (quote_text str))))"

definition template :: "template_settings \<Rightarrow> js_string \<Rightarrow> js_string" where
  "template c str =
     J ''var __p=[],print=function(){__p.push.apply(__p,arguments);};'' @
     J ''with(obj||{}){__p.push('' @ [39] @ template_body c str @ [39] @
     J '');}return __p.join('' @ [39, 39] @ J '');''"

section \<open>The wrapper\<close>

record 'v wrapper =
  wrapped :: 'v
  chained :: bool

text \<open>What a method of the wrapper returns: a plain value, or a wrapper to chain on.\<close>

datatype 'v outcome = Plain 'v | Chained "'v wrapper"

definition wrapper_new :: "'v \<Rightarrow> 'v wrapper" where
  "wrapper_new obj = \<lparr>wrapped = obj, chained = False\<rparr>"

definition chain_method :: "'v wrapper \<Rightarrow> 'v wrapper" where
  "chain_method this = this\<lparr>chained := True\<rparr>"

definition chain :: "'v \<Rightarrow> 'v wrapper" where
  "chain obj = chain_method (wrapper_new obj)"

definition value_method :: "'v wrapper \<Rightarrow> 'v" where
  "value_method this = wrapped this"

definition result :: "'v \<Rightarrow> bool \<Rightarrow> 'v outcome" where
  "result obj ch = (if ch then Chained (chain_method (wrapper_new obj)) else Plain obj)"

text \<open>The method that \<open>addToWrapper\<close> makes of a function: the wrapped value is its first argument.\<close>

definition wrapper_method :: "('v list \<Rightarrow> ('w, 'v) act) \<Rightarrow> 'v wrapper \<Rightarrow> 'v list \<Rightarrow> ('w, 'v outcome) act" where
  "wrapper_method func this arguments =
     andThen (func (wrapped this # arguments)) (\<lambda>v. ret (result v (chained this)))"

text \<open>The methods of the library and of the wrapper's prototype are tables of functions.\<close>

record ('f, 'm) library =
  lib_functions :: "'f member js_obj"
  prototype :: "'m js_obj"

definition mixin :: "('f \<Rightarrow> 'm) \<Rightarrow> 'f member js_obj \<Rightarrow> ('f, 'm) library \<Rightarrow> ('f, 'm) library" where
  "mixin to_method obj lib =
     fold (\<lambda>name lib. case map_of obj name of
        Some (PFun f) \<Rightarrow> lib\<lparr>lib_functions := obj_put (lib_functions lib) name (PFun f),
                            prototype := obj_put (prototype lib) name (to_method f)\<rparr>
      | _ \<Rightarrow> lib)
     (functions_us obj) lib"

text \<open>The mutator methods on the wrapped array: the array they leave.\<close>

datatype mutator = Pop | Push | Reverse | Shift | Sort "js_val \<Rightarrow> js_val \<Rightarrow> int" | Splice int nat | Unshift

definition run_mutator :: "mutator \<Rightarrow> js_array \<Rightarrow> js_val list \<Rightarrow> js_array" where
  "run_mutator m xs arguments =
     (case m of
        Pop \<Rightarrow> butlast xs
      | Push \<Rightarrow> xs @ map Some arguments
      | Reverse \<Rightarrow> rev xs
      | Shift \<Rightarrow> tl xs
      | Sort cmp \<Rightarrow> map Some (js_sort cmp (map the (filter (\<lambda>x. x \<noteq> None) xs))) @ filter (\<lambda>x. x = None) xs
      | Splice start n \<Rightarrow>
          (let len = int (length xs);
               from = nat (if start < 0 then max (len + start) 0 else min start len)
           in take from xs @ map Some arguments @ drop (from + n) xs)
      | Unshift \<Rightarrow> map Some arguments @ xs)"

definition mutator_method :: "mutator \<Rightarrow> js_array wrapper \<Rightarrow> js_val list \<Rightarrow> js_array wrapper \<times> js_array outcome" where
  "mutator_method m this arguments =
     (let xs = run_mutator m (wrapped this) arguments
      in (this\<lparr>wrapped := xs\<rparr>, result xs (chained this)))"

text \<open>The accessor methods \<open>concat\<close> and \<open>slice\<close> leave the wrapped array alone.\<close>

datatype accessor = Concat "js_array list" | Slice int int

definition accessor_method :: "accessor \<Rightarrow> js_array wrapper \<Rightarrow> js_array outcome" where
  "accessor_method m this =
     result (case m of Concat yss \<Rightarrow> wrapped this @ concat yss | Slice a b \<Rightarrow> js_slice (wrapped this) a b) (chained this)"

text \<open>\<open>join\<close> makes a string: a missing, null or undefined element is empty, another is converted by \<open>str\<close>.\<close>

definition join_method :: "(js_val \<Rightarrow> js_string) \<Rightarrow> js_string \<Rightarrow> js_array wrapper \<Rightarrow> js_string outcome" where
  "join_method str sep this =
     result (js_join sep (map (\<lambda>x. case x of Some v \<Rightarrow> if v \<in> {JUndef, JNull} then [] else str v | None \<Rightarrow> []) (wrapped this)))
       (chained this)"

section \<open>Escaping\<close>

definition esc_char :: "js_char \<Rightarrow> js_string" where
  "esc_char c = (if c = 38 then J ''&amp;'' else if c = 60 then J ''&lt;'' else if c = 62 then J ''&gt;''
     else if c = 34 then J ''&quot;'' else if c = 39 then J ''&#x27;'' else if c = 47 then J ''&#x2F;'' else [c])"

lemma replace_char_append: "replace_char c r (s @ t) = replace_char c r s @ replace_char c r t"
  by (simp add: replace_char_def)

lemma replace_char_Cons: "replace_char c r (x # s) = (if x = c then r else [x]) @ replace_char c r s"
  by (simp add: replace_char_def)

lemma replace_char_Nil [simp]: "replace_char c r [] = []"
  by (simp add: replace_char_def)

lemma escape_concat: "escape s = concat (map esc_char s)"
proof (induction s)
  case (Cons x s)
  then show ?case
    by (auto simp: escape_def replace_char_Cons replace_char_append esc_char_def)
qed (simp add: escape_def)

text \<open>What a browser shows for the escaped text.\<close>

fun html_text :: "js_string \<Rightarrow> js_string" where
  "html_text [] = []"
| "html_text (c # s) =
     (if c = 38 then
        (if prefix (J ''amp;'') s then 38 # html_text (drop 4 s)
         else if prefix (J ''lt;'') s then 60 # html_text (drop 3 s)
         else if prefix (J ''gt;'') s then 62 # html_text (drop 3 s)
         else if prefix (J ''quot;'') s then 34 # html_text (drop 5 s)
         else if prefix (J ''#x27;'') s then 39 # html_text (drop 5 s)
         else if prefix (J ''#x2F;'') s then 47 # html_text (drop 5 s)
         else c # html_text s)
      else c # html_text s)"

lemma html_text_esc_char: "html_text (esc_char c @ s) = c # html_text s"
  by (simp add: esc_char_def)

section \<open>Quoting\<close>

text \<open>How a browser reads the body of a string literal between apostrophes: None is a syntax error.\<close>

fun js_unquote :: "js_string \<Rightarrow> js_string option" where
  "js_unquote [] = Some []"
| "js_unquote (c # s) =
     (if c = 92 then
        (case s of
           [] \<Rightarrow> None
         | d # s' \<Rightarrow>
             if d = 92 \<or> d = 39 then map_option (Cons d) (js_unquote s')
             else if d = 110 then map_option (Cons 10) (js_unquote s')
             else if d = 114 then map_option (Cons 13) (js_unquote s')
             else if d = 116 then map_option (Cons 9) (js_unquote s')
             else None)
      else if c \<in> {39, 10, 13, 0x2028, 0x2029} then None
      else map_option (Cons c) (js_unquote s))"

definition quote_char :: "js_char \<Rightarrow> js_string" where
  "quote_char c = (if c = 92 then [92, 92] else if c = 39 then [92, 39] else [c])"

definition full_quote_char :: "js_char \<Rightarrow> js_string" where
  "full_quote_char c = (if c = 13 then 92 # J ''r'' else if c = 10 then 92 # J ''n''
     else if c = 9 then 92 # J ''t'' else quote_char c)"

lemma quote_text_concat: "quote_text s = concat (map quote_char s)"
proof (induction s)
  case (Cons x s)
  then show ?case by (auto simp: quote_text_def replace_char_Cons replace_char_append quote_char_def)
qed (simp add: quote_text_def)

lemma quote_controls_concat: "quote_controls (concat (map quote_char s)) = concat (map full_quote_char s)"
proof (induction s)
  case (Cons x s)
  then show ?case
    by (auto simp: quote_controls_def replace_char_Cons replace_char_append quote_char_def full_quote_char_def)
qed (simp add: quote_controls_def)

lemma js_unquote_quote_char:
  "c \<notin> {0x2028, 0x2029} \<Longrightarrow> js_unquote (full_quote_char c @ s) = map_option (Cons c) (js_unquote s)"
  by (auto simp: full_quote_char_def quote_char_def)

lemma js_unquote_quoted:
  "set s \<inter> {0x2028, 0x2029} = {} \<Longrightarrow> js_unquote (concat (map full_quote_char s)) = Some s"
  by (induction s) (simp_all add: js_unquote_quote_char)

text \<open>Quoting makes no tag that was not there.\<close>

lemma quote_prefix: "prefix [60, 37] (concat (map quote_char s)) \<longleftrightarrow> prefix [60, 37] s"
proof (cases s)
  case (Cons x r)
  then show ?thesis by (cases r) (auto simp: quote_char_def)
qed simp

lemma quote_no_tag: "\<not> sublist [60, 37] s \<Longrightarrow> \<not> sublist [60, 37] (concat (map quote_char s))"
proof (induction s)
  case (Cons x s)
  have "\<not> prefix [60, 37] (x # s)" "\<not> sublist [60, 37] s" using Cons.prems by (auto simp: sublist_Cons_right)
  then show ?case
    using Cons.IH quote_prefix [of "x # s"]
    by (cases "x = 92"; cases "x = 39") (auto simp: quote_char_def [of x] quote_char_def [of 92] quote_char_def [of 39] sublist_Cons_right)
qed simp

lemma replace_delim_none:
  "\<not> sublist [60, 37] s \<Longrightarrow> prefix [60, 37] t \<Longrightarrow> replace_delim t f s = s"
proof (induction s)
  case (Cons x s)
  have "\<not> prefix t (x # s)"
    using Cons.prems prefix_order.trans [OF Cons.prems(2), of "x # s"] prefix_imp_sublist [of "[60, 37]" "x # s"] by auto
  then show ?case using Cons by (simp add: sublist_Cons_right)
qed simp

section \<open>Properties\<close>

text \<open>
  Escaping for HTML is lossless and safe: the escaped text has none of the characters less-than,
  greater-than, quote, apostrophe and slash, and a reader that resolves the entities gets the string back.\<close>

theorem escape_roundtrip:
  "html_text (escape s) = s \<and> set (escape s) \<inter> {60, 62, 34, 39, 47} = {}"
proof -
  have "html_text (concat (map esc_char s)) = s"
    by (induction s) (simp_all add: html_text_esc_char)
  moreover have "set (esc_char c) \<inter> {60, 62, 34, 39, 47} = {}" for c
    by (auto simp: esc_char_def)
  ultimately show ?thesis by (auto simp: escape_concat)
qed



text \<open>A line separator in the text makes a program with a syntax error.\<close>

theorem template_line_separator_breaks: "js_unquote (template_body templateSettings [0x2028]) = None"
  by (simp add: template_body_def replace_setting_def templateSettings_def quote_text_def quote_controls_def replace_char_Cons)

end
