(* ===== verification/Js_Uri.thy ===== *)
theory Js_Uri
  imports Js_Prelude
begin

text \<open>
  The standard functions \<open>encodeURIComponent\<close> and \<open>decodeURIComponent\<close>: code units to code points, code points to UTF-8,
  bytes to percent escapes, and back. None is the \<open>URIError\<close> the functions throw: for an unpaired surrogate, and for an
  escape that is not well-formed UTF-8. The theory proves that decoding inverts encoding.
\<close>

section \<open>Encoding\<close>

definition unescaped :: "js_char \<Rightarrow> bool" where
  "unescaped c \<longleftrightarrow> (65 \<le> c \<and> c \<le> 90) \<or> (97 \<le> c \<and> c \<le> 122) \<or> is_digit_char c \<or>
     c \<in> {45, 95, 46, 33, 126, 42, 39, 40, 41}"

definition hex_digit :: "nat \<Rightarrow> js_char" where
  "hex_digit n = of_nat (if n < 10 then 48 + n else 55 + n)"

definition pct :: "nat \<Rightarrow> js_string" where
  "pct b = [37, hex_digit (b div 16), hex_digit (b mod 16)]"

definition utf8 :: "nat \<Rightarrow> nat list" where
  "utf8 v =
     (if v < 128 then [v]
      else if v < 2048 then [192 + v div 64, 128 + v mod 64]
      else if v < 65536 then [224 + v div 4096, 128 + v div 64 mod 64, 128 + v mod 64]
      else [240 + v div 262144, 128 + v div 4096 mod 64, 128 + v div 64 mod 64, 128 + v mod 64])"

definition utf16 :: "nat \<Rightarrow> js_string" where
  "utf16 v = (if v < 65536 then [of_nat v]
     else [of_nat (55296 + (v - 65536) div 1024), of_nat (56320 + (v - 65536) mod 1024)])"

definition is_lead :: "js_char \<Rightarrow> bool" where
  "is_lead c \<longleftrightarrow> 55296 \<le> c \<and> c \<le> 56319"

definition is_trail :: "js_char \<Rightarrow> bool" where
  "is_trail c \<longleftrightarrow> 56320 \<le> c \<and> c \<le> 57343"

fun encodeURIComponent :: "js_string \<Rightarrow> js_string option" where
  "encodeURIComponent [] = Some []"
| "encodeURIComponent (c # s) =
     (if unescaped c then map_option (Cons c) (encodeURIComponent s)
      else if is_trail c then None
      else if is_lead c then
        (case s of
           [] \<Rightarrow> None
         | d # r \<Rightarrow>
             if is_trail d
             then map_option ((@) (concat (map pct (utf8 (65536 + (unat c - 55296) * 1024 + (unat d - 56320))))))
                    (encodeURIComponent r)
             else None)
      else map_option ((@) (concat (map pct (utf8 (unat c))))) (encodeURIComponent s))"

section \<open>Decoding\<close>

definition hex_val :: "js_char \<Rightarrow> nat option" where
  "hex_val c = (if 48 \<le> c \<and> c \<le> 57 then Some (unat c - 48)
     else if 65 \<le> c \<and> c \<le> 70 then Some (unat c - 55)
     else if 97 \<le> c \<and> c \<le> 102 then Some (unat c - 87) else None)"

text \<open>The byte of an escape after its percent sign, and the rest.\<close>

definition hex_byte :: "js_string \<Rightarrow> (nat \<times> js_string) option" where
  "hex_byte s = (case s of
     x # y # r \<Rightarrow> (case (hex_val x, hex_val y) of (Some a, Some b) \<Rightarrow> Some (16 * a + b, r) | _ \<Rightarrow> None)
   | _ \<Rightarrow> None)"

text \<open>\<open>n\<close> continuation escapes, added to the bits read so far.\<close>

fun conts :: "nat \<Rightarrow> nat \<Rightarrow> js_string \<Rightarrow> (nat \<times> js_string) option" where
  "conts 0 v s = Some (v, s)"
| "conts (Suc n) v s =
     (case s of
        [] \<Rightarrow> None
      | c # t \<Rightarrow>
          if c \<noteq> 37 then None
          else (case hex_byte t of
                  None \<Rightarrow> None
                | Some (b, r) \<Rightarrow> if 128 \<le> b \<and> b < 192 then conts n (64 * v + (b - 128)) r else None))"

definition scalar :: "nat \<Rightarrow> bool" where
  "scalar v \<longleftrightarrow> v < 55296 \<or> 57344 \<le> v \<and> v < 1114112"

definition multi :: "nat \<Rightarrow> js_string \<Rightarrow> (nat \<times> js_string) option" where
  "multi b s =
     (let check = (\<lambda>lo r. case r of Some (v, s') \<Rightarrow> if lo \<le> v \<and> scalar v then Some (v, s') else None | None \<Rightarrow> None)
      in if 192 \<le> b \<and> b < 224 then check 128 (conts 1 (b - 192) s)
         else if 224 \<le> b \<and> b < 240 then check 2048 (conts 2 (b - 224) s)
         else if 240 \<le> b \<and> b < 248 then check 65536 (conts 3 (b - 240) s)
         else None)"

lemma hex_byte_length: "hex_byte s = Some (b, r) \<Longrightarrow> length r < length s"
  by (auto simp: hex_byte_def split: list.splits option.splits)

lemma conts_length: "conts n v s = Some (w, r) \<Longrightarrow> length r \<le> length s"
  by (induction n v s rule: conts.induct) (force split: list.splits option.splits if_splits dest: hex_byte_length)+

declare conts.simps(2) [simp del]

lemma multi_length: "multi b s = Some (v, r) \<Longrightarrow> length r \<le> length s"
  by (auto simp: multi_def Let_def split: if_splits option.splits dest: conts_length)

function decodeURIComponent :: "js_string \<Rightarrow> js_string option" where
  "decodeURIComponent [] = Some []"
| "decodeURIComponent (c # s) =
     (if c \<noteq> 37 then map_option (Cons c) (decodeURIComponent s)
      else (case hex_byte s of
              None \<Rightarrow> None
            | Some (b, r) \<Rightarrow>
                if b < 128 then map_option (Cons (of_nat b)) (decodeURIComponent r)
                else (case multi b r of
                        None \<Rightarrow> None
                      | Some (v, r') \<Rightarrow> map_option ((@) (utf16 v)) (decodeURIComponent r'))))"
  by pat_completeness auto
termination
  by (relation "measure length") (force dest: hex_byte_length multi_length)+

section \<open>Decoding inverts encoding\<close>

lemma hex_val_digit:
  assumes "n < 16"
  shows "hex_val (hex_digit n) = Some n"
proof -
  have "n \<in> {0, 1, 2, 3, 4, 5, 6, 7, 8, 9, 10, 11, 12, 13, 14, 15}" using assms by (simp only: insert_iff empty_iff) presburger
  then show ?thesis by (auto simp: hex_digit_def hex_val_def)
qed

lemma hex_byte_pct: "b < 256 \<Longrightarrow> hex_byte (hex_digit (b div 16) # hex_digit (b mod 16) # s) = Some (b, s)"
  by (simp add: hex_byte_def hex_val_digit less_mult_imp_div_less)

lemma conts_pct:
  "x < 64 \<Longrightarrow> conts (Suc n) v (pct (128 + x) @ s) = conts n (64 * v + x) s"
  by (simp add: conts.simps(2) pct_def hex_byte_pct)

lemma decode_pct_multi:
  assumes "128 \<le> b" and "b < 256" and "multi b r = Some (v, r')"
  shows "decodeURIComponent (pct b @ r) = map_option ((@) (utf16 v)) (decodeURIComponent r')"
  using assms by (simp add: pct_def hex_byte_pct)

lemma div_mod_2: "(64::nat) * (v div 64) + v mod 64 = v"
  by simp

lemma div_mod_3: "4096 * (v div 4096) + 64 * (v div 64 mod 64) + v mod 64 = (v::nat)"
proof -
  have q: "v div 4096 = v div 64 div 64" by (simp add: div_mult2_eq [symmetric])
  have "64 * (v div 64 div 64) + v div 64 mod 64 = v div 64" "64 * (v div 64) + v mod 64 = v" by simp_all
  then show ?thesis unfolding q by linarith
qed

lemma div_mod_4: "262144 * (v div 262144) + 4096 * (v div 4096 mod 64) + 64 * (v div 64 mod 64) + v mod 64 = (v::nat)"
proof -
  have q: "v div 262144 = v div 4096 div 64" by (simp add: div_mult2_eq [symmetric])
  have "64 * (v div 4096 div 64) + v div 4096 mod 64 = v div 4096" by simp
  then show ?thesis using div_mod_3 [of v] unfolding q by linarith
qed

lemma decode_utf8:
  assumes "scalar v"
  shows "decodeURIComponent (concat (map pct (utf8 v)) @ s) = map_option ((@) (utf16 v)) (decodeURIComponent s)"
proof -
  have vmax: "v < 1114112" using assms by (auto simp: scalar_def)
  consider "v < 128" | "128 \<le> v" "v < 2048" | "2048 \<le> v" "v < 65536" | "65536 \<le> v" by linarith
  then show ?thesis
  proof cases
    case 1
    then show ?thesis by (cases "decodeURIComponent s") (simp_all add: utf8_def utf16_def pct_def hex_byte_pct)
  next
    case 2
    have "multi (192 + v div 64) (pct (128 + v mod 64) @ s) = Some (v, s)"
      using 2 assms by (simp add: multi_def Let_def conts_pct less_mult_imp_div_less)
    moreover have "v div 64 < 32" using 2 by (simp add: less_mult_imp_div_less)
    ultimately show ?thesis using 2 decode_pct_multi [of "192 + v div 64" "pct (128 + v mod 64) @ s" v s] by (simp add: utf8_def)
  next
    case 3
    have d: "v div 4096 < 16" using 3 by (simp add: less_mult_imp_div_less)
    have "multi (224 + v div 4096) (pct (128 + v div 64 mod 64) @ pct (128 + v mod 64) @ s) = Some (v, s)"
      using 3 assms d by (simp add: multi_def Let_def numeral_2_eq_2 conts_pct div_mod_3)
    then show ?thesis
      using 3 d decode_pct_multi [of "224 + v div 4096" "pct (128 + v div 64 mod 64) @ pct (128 + v mod 64) @ s" v s]
      by (simp add: utf8_def)
  next
    case 4
    have d: "v div 262144 < 5" using vmax by (simp add: less_mult_imp_div_less)
    have "multi (240 + v div 262144) (pct (128 + v div 4096 mod 64) @ pct (128 + v div 64 mod 64) @ pct (128 + v mod 64) @ s) = Some (v, s)"
      using 4 assms d by (simp add: multi_def Let_def numeral_3_eq_3 conts_pct div_mod_4)
    then show ?thesis
      using 4 d decode_pct_multi [of "240 + v div 262144"
          "pct (128 + v div 4096 mod 64) @ pct (128 + v div 64 mod 64) @ pct (128 + v mod 64) @ s" v s]
      by (simp add: utf8_def)
  qed
qed

text \<open>A string of characters, each a code unit outside the surrogates or a pair of surrogates.\<close>

fun well_formed :: "js_string \<Rightarrow> bool" where
  "well_formed [] = True"
| "well_formed (c # s) =
     (if is_trail c then False
      else if is_lead c then (case s of [] \<Rightarrow> False | d # r \<Rightarrow> is_trail d \<and> well_formed r)
      else well_formed s)"

lemma unescaped_not_surrogate: "unescaped c \<Longrightarrow> \<not> is_trail c \<and> \<not> is_lead c \<and> c \<noteq> 37"
  by (auto simp: unescaped_def is_trail_def is_lead_def is_digit_char_def word_le_nat_alt)

lemma unit_scalar: "\<not> is_trail c \<Longrightarrow> \<not> is_lead c \<Longrightarrow> scalar (unat c) \<and> utf16 (unat c) = [c]"
proof -
  assume "\<not> is_trail c" "\<not> is_lead c"
  then have "unat c < 55296 \<or> 57344 \<le> unat c"
    by (auto simp: is_trail_def is_lead_def word_le_nat_alt)
  moreover have "unat c < 65536" using unsigned_less [of c] by simp
  ultimately show ?thesis by (auto simp: scalar_def utf16_def)
qed

lemma pair_scalar:
  assumes "is_lead c" and "is_trail d"
  defines "v \<equiv> 65536 + (unat c - 55296) * 1024 + (unat d - 56320)"
  shows "scalar v \<and> utf16 v = [c, d]"
proof -
  have c: "55296 \<le> unat c" "unat c \<le> 56319" using assms(1) by (auto simp: is_lead_def word_le_nat_alt)
  have d: "56320 \<le> unat d" "unat d \<le> 57343" using assms(2) by (auto simp: is_trail_def word_le_nat_alt)
  obtain x y where xy: "unat c = 55296 + x" "unat d = 56320 + y" using c(1) d(1) le_Suc_ex by blast
  then have "y < 1024" using d(2) by simp
  then have "(v - 65536) div 1024 = unat c - 55296" "(v - 65536) mod 1024 = unat d - 56320"
    by (simp_all add: v_def xy)
  then have "55296 + (v - 65536) div 1024 = unat c" "56320 + (v - 65536) mod 1024 = unat d"
    using c d by auto
  moreover have "\<not> v < 65536" by (simp add: v_def)
  ultimately have "utf16 v = [of_nat (unat c), of_nat (unat d)]" unfolding utf16_def by (simp only: if_False)
  then have "utf16 v = [c, d]" by simp
  moreover have "scalar v" using c d by (simp add: scalar_def v_def)
  ultimately show ?thesis by simp
qed

lemma encode_some: "well_formed s \<Longrightarrow> \<exists>e. encodeURIComponent s = Some e \<and> decodeURIComponent e = Some s"
proof (induction s rule: well_formed.induct)
  case (2 c s)
  show ?case
  proof (cases "unescaped c")
    case True
    then show ?thesis using 2 unescaped_not_surrogate [OF True] by auto
  next
    case u: False
    show ?thesis
    proof (cases "is_lead c")
      case True
      then obtain d r where s: "s = d # r" "is_trail d" "well_formed r"
        using "2.prems" by (auto split: list.splits if_splits)
      have "\<not> is_trail c" using "2.prems" by auto
      moreover obtain e where "encodeURIComponent r = Some e" "decodeURIComponent e = Some r"
        using "2.IH"(1) [OF _ True s(1)] s(3) calculation by auto
      ultimately show ?thesis
        using u True s pair_scalar [OF True s(2)] by (simp add: decode_utf8)
    next
      case False
      have t: "\<not> is_trail c" using "2.prems" by auto
      obtain e where "encodeURIComponent s = Some e" "decodeURIComponent e = Some s"
        using "2.IH"(2) [OF t False] "2.prems" t False by auto
      then show ?thesis
        using u False t unit_scalar [OF t False] by (simp add: decode_utf8)
    qed
  qed
qed simp

text \<open>An encoded string has only unescaped characters and percent signs.\<close>

lemma hex_digit_unescaped: "n < 16 \<Longrightarrow> unescaped (hex_digit n)"
proof -
  assume "n < 16"
  then have "n \<in> {0, 1, 2, 3, 4, 5, 6, 7, 8, 9, 10, 11, 12, 13, 14, 15}"
    by (simp only: insert_iff empty_iff) presburger
  then show ?thesis by (auto simp: hex_digit_def unescaped_def is_digit_char_def)
qed

lemma pct_chars: "b < 256 \<Longrightarrow> x \<in> set (pct b) \<Longrightarrow> unescaped x \<or> x = 37"
  using hex_digit_unescaped [of "b div 16"] hex_digit_unescaped [of "b mod 16"]
  by (auto simp: pct_def less_mult_imp_div_less)

lemma utf8_bytes: "v < 1114112 \<Longrightarrow> b \<in> set (utf8 v) \<Longrightarrow> b < 256"
  by (auto simp: utf8_def split: if_splits)

lemma encode_chars: "encodeURIComponent s = Some e \<Longrightarrow> x \<in> set e \<Longrightarrow> unescaped x \<or> x = 37"
proof (induction s arbitrary: e rule: encodeURIComponent.induct)
  case (2 c s)
  have u: "unescaped x \<or> x = 37" if "x \<in> set (concat (map pct (utf8 v)))" "v < 1114112" for v
    using that utf8_bytes [OF that(2)] pct_chars by auto
  have lead: "65536 + (unat c - 55296) * 1024 + (unat d - 56320) < 1114112" if "is_lead c" "is_trail d" for d
    using pair_scalar [OF that] by (auto simp: scalar_def)
  have single: "unat c < 1114112" using unsigned_less [of c, where ?'a = nat] by simp
  show ?case
  proof (cases "unescaped c")
    case True
    then show ?thesis using 2 by auto
  next
    case nu: False
    show ?thesis
    proof (cases "is_lead c")
      case True
      then obtain d r e' where s: "s = d # r" "is_trail d" "encodeURIComponent r = Some e'"
        and e: "e = concat (map pct (utf8 (65536 + (unat c - 55296) * 1024 + (unat d - 56320)))) @ e'"
        using "2.prems"(1) nu by (auto split: list.splits if_splits)
      have "\<not> is_trail c" using "2.prems"(1) nu by auto
      then have "x \<in> set e' \<Longrightarrow> unescaped x \<or> x = 37" using "2.IH"(2) [OF nu _ True s(1,2,3)] by blast
      then show ?thesis using "2.prems"(2) e u [OF _ lead [OF True s(2)]] by (metis Un_iff set_append)
    next
      case False
      then obtain e' where s: "encodeURIComponent s = Some e'" and e: "e = concat (map pct (utf8 (unat c))) @ e'" and t: "\<not> is_trail c"
        using "2.prems"(1) nu by (auto split: if_splits)
      then show ?thesis using "2.prems"(2) "2.IH"(3) [OF nu t False s] u [OF _ single] by (metis Un_iff set_append)
    qed
  qed
qed simp

end
