(* ===== verification/Js_Doctools.thy ===== *)
theory Js_Doctools
  imports Js_Uri Js_Stemmer
begin

text \<open>
  The script \<open>doctools.js\<close>: query parameters, the highlighting of words in a page, translations, the index
  toggles, relative addresses and the navigation keys.

  A page is a tree of elements and texts. \<open>highlightText\<close> walks over the live list of the children of an element
  but up to the number of children it had before: \<open>hl_kids\<close> carries that number. A rectangle for a match
  inside an SVG drawing is inserted before the parent of the text when the walk is over; until then
  the element counts it in \<open>pending\<close>. Lower case is the parameter \<open>lc\<close>.
\<close>

section \<open>Query parameters\<close>

datatype page_error = URIError | TypeErr

definition urldecode :: "js_string \<Rightarrow> js_string option" where
  "urldecode x = map_option (replace_char 43 (J '' '')) (decodeURIComponent x)"

definition urlencode :: "js_string \<Rightarrow> js_string option" where
  "urlencode x = encodeURIComponent x"

text \<open>\<open>split('=', 2)\<close>: the first two parts, the second one undefined when there is no equals sign.\<close>

definition split_pair :: "js_string \<Rightarrow> js_string \<times> js_string" where
  "split_pair part =
     (case split_char 61 part of
        k # v # _ \<Rightarrow> (k, v)
      | [k] \<Rightarrow> (k, J ''undefined'')
      | [] \<Rightarrow> ([], J ''undefined''))"

fun params_loop :: "js_string list \<Rightarrow> js_string list js_obj \<Rightarrow> page_error + js_string list js_obj" where
  "params_loop [] result = Inr result"
| "params_loop (part # parts) result =
     (let tmp = split_pair part in
      case (urldecode (fst tmp), urldecode (snd tmp)) of
        (Some key, Some v) \<Rightarrow>
          (case obj_lookup result key of
             Own vs \<Rightarrow> params_loop parts (obj_put result key (vs @ [v]))
           | Absent \<Rightarrow> params_loop parts (obj_put result key [v])
           | Inherited \<Rightarrow> Inl TypeErr)
      | _ \<Rightarrow> Inl URIError)"

definition getQueryParameters :: "js_string \<Rightarrow> page_error + js_string list js_obj" where
  "getQueryParameters s = params_loop (split_char 38 (substr1 s (indexOf s (J ''?'') + 1))) []"

section \<open>The page\<close>

record elem =
  tag :: js_string
  el_id :: js_string
  classes :: "js_string list"
  href :: js_string
  el_title :: js_string
  pending :: nat

datatype dom = Text js_string | Elem elem "dom list"

definition new_elem :: "string \<Rightarrow> elem" where
  "new_elem name = \<lparr>tag = J name, el_id = [], classes = [], href = [], el_title = [], pending = 0\<rparr>"

fun text_of :: "dom \<Rightarrow> js_string" where
  "text_of (Text t) = t"
| "text_of (Elem e kids) = concat (map text_of kids)"

section \<open>Highlighting\<close>

definition elem_hasClass :: "elem \<Rightarrow> js_string \<Rightarrow> bool" where
  "elem_hasClass e c \<longleftrightarrow> c \<in> set (classes e)"

text \<open>The nearest of the elements body, svg and foreignObject around a node decides whether it is in a drawing.\<close>

definition enter :: "elem \<Rightarrow> bool \<Rightarrow> bool" where
  "enter e svg = (if tag e = J ''svg'' then True
     else if tag e = J ''body'' \<or> tag e = J ''foreignObject'' then False else svg)"

definition hl_span :: "bool \<Rightarrow> js_string \<Rightarrow> elem" where
  "hl_span svg className = (if svg then new_elem ''tspan'' else (new_elem ''span'')\<lparr>classes := [className]\<rparr>)"

text \<open>The match in a text node below an element: what stands before it, the match, what follows.\<close>

definition hl_match ::
    "(js_string \<Rightarrow> js_string) \<Rightarrow> js_string \<Rightarrow> js_string \<Rightarrow> elem \<Rightarrow> js_string \<Rightarrow> (js_string \<times> js_string \<times> js_string) option" where
  "hl_match lc text className parent val =
     (case js_find text (lc val) of
        None \<Rightarrow> None
      | Some pos \<Rightarrow>
          if \<not> elem_hasClass parent className \<and> \<not> elem_hasClass parent (J ''nohighlight'')
          then Some (take pos val, substr val (int pos) (int (length text)), substr1 val (int (pos + length text)))
          else None)"

text \<open>The visit of the span that was just inserted: only its text is below it.\<close>

definition hl_new_span ::
    "(js_string \<Rightarrow> js_string) \<Rightarrow> js_string \<Rightarrow> js_string \<Rightarrow> bool \<Rightarrow> js_string \<Rightarrow> dom" where
  "hl_new_span lc text className svg mid =
     (let span = hl_span svg className in
      case hl_match lc text className span mid of
        None \<Rightarrow> Elem span [Text mid]
      | Some (a, m, b) \<Rightarrow>
          Elem (if svg then span\<lparr>pending := 1\<rparr> else span) [Text a, Elem (hl_span svg className) [Text m], Text b])"

text \<open>Elements, for the termination of the walk: inserted text nodes do not count.\<close>

fun elems :: "dom \<Rightarrow> nat" where
  "elems (Text t) = 0"
| "elems (Elem e kids) = Suc (sum_list (map elems kids))"

function (sequential) hl_node :: "(js_string \<Rightarrow> js_string) \<Rightarrow> js_string \<Rightarrow> js_string \<Rightarrow> bool \<Rightarrow> dom \<Rightarrow> dom"
  and hl_kids :: "(js_string \<Rightarrow> js_string) \<Rightarrow> js_string \<Rightarrow> js_string \<Rightarrow> bool \<Rightarrow> elem \<Rightarrow> nat \<Rightarrow> dom list \<Rightarrow> nat \<times> dom list" where
  "hl_node lc text className svg (Text t) = Text t"
| "hl_node lc text className svg (Elem e kids) =
     (if tag e \<in> {J ''button'', J ''select'', J ''textarea''} then Elem e kids
      else let (n, kids') = hl_kids lc text className (enter e svg) e (length kids) kids
           in Elem (e\<lparr>pending := pending e + n\<rparr>) kids')"
| "hl_kids lc text className svg parent 0 kids = (0, kids)"
| "hl_kids lc text className svg parent n [] = (0, [])"
| "hl_kids lc text className svg parent (Suc n) (Text val # kids) =
     (case hl_match lc text className parent val of
        None \<Rightarrow> (let (r, kids') = hl_kids lc text className svg parent n kids in (r, Text val # kids'))
      | Some (a, m, b) \<Rightarrow>
          (let count = (if svg then 1 else 0) in
           case n of
             0 \<Rightarrow> (count, Text a # Elem (hl_span svg className) [Text m] # Text b # kids)
           | Suc n' \<Rightarrow>
               (let (r, kids') = hl_kids lc text className svg parent n' (Text b # kids)
                in (count + r, Text a # hl_new_span lc text className svg m # kids'))))"
| "hl_kids lc text className svg parent (Suc n) (Elem e ks # kids) =
     (let (r, kids') = hl_kids lc text className svg parent n kids
      in (r, hl_node lc text className svg (Elem e ks) # kids'))"
  by pat_completeness auto
termination
  by (relation "(\<lambda>x. case x of Inl (_, _, _, _, d) \<Rightarrow> elems d | Inr (_, _, _, _, _, _, ks) \<Rightarrow> sum_list (map elems ks))
     <*mlex*> (\<lambda>x. case x of Inl _ \<Rightarrow> 0 | Inr (_, _, _, _, _, n, _) \<Rightarrow> n) <*mlex*> {}")
     (auto simp: mlex_prod_def intro!: wf_mlex)

text \<open>The rectangles are put before their elements at the end.\<close>

definition rect :: "js_string \<Rightarrow> dom" where
  "rect className = Elem ((new_elem ''rect'')\<lparr>classes := [className]\<rparr>) []"

fun place_rects :: "js_string \<Rightarrow> dom \<Rightarrow> dom list" where
  "place_rects className (Text t) = [Text t]"
| "place_rects className (Elem e kids) =
     replicate (pending e) (rect className) @
     [Elem (e\<lparr>pending := 0\<rparr>) (concat (map (place_rects className) kids))]"

definition highlightText :: "(js_string \<Rightarrow> js_string) \<Rightarrow> js_string \<Rightarrow> js_string \<Rightarrow> bool \<Rightarrow> dom list \<Rightarrow> dom list" where
  "highlightText lc text className svg nodes =
     concat (map (place_rects className) (map (hl_node lc text className svg) nodes))"

section \<open>Browser detection\<close>

definition is_word_dot :: "js_char \<Rightarrow> bool" where
  "is_word_dot c \<longleftrightarrow> (65 \<le> c \<and> c \<le> 90) \<or> (97 \<le> c \<and> c \<le> 122) \<or> is_digit_char c \<or> c = 95 \<or> c = 46"

text \<open>The leftmost position at which a pattern matches.\<close>

fun find_at :: "(js_string \<Rightarrow> 'a option) \<Rightarrow> js_string \<Rightarrow> 'a option" where
  "find_at m [] = m []"
| "find_at m (c # s) = (case m (c # s) of Some r \<Rightarrow> Some r | None \<Rightarrow> find_at m s)"

definition word_run :: "js_string \<Rightarrow> js_string option" where
  "word_run s = (let v = takeWhile is_word_dot s in if v = [] then None else Some v)"

text \<open>\<open>[ \/]([\w.]+)\<close>\<close>

definition sep_version :: "js_string \<Rightarrow> js_string option" where
  "sep_version s = (case s of c # r \<Rightarrow> if c = 32 \<or> c = 47 then word_run r else None | [] \<Rightarrow> None)"

definition name_version :: "string \<Rightarrow> (js_string \<Rightarrow> js_string option) \<Rightarrow> js_string \<Rightarrow> js_string option" where
  "name_version name version ua =
     find_at (\<lambda>s. if prefix (J name) s then version (drop (length name) s) else None) ua"

text \<open>\<open>(?:.*version|)[ \/]([\w.]+)\<close>: the greedy alternative tries the last occurrence first.\<close>

definition opera_version :: "js_string \<Rightarrow> js_string option" where
  "opera_version s =
     (let line = takeWhile is_dot s;
          greedy = map (\<lambda>k. if prefix (J ''version'') (drop k s) then sep_version (drop (k + 7) s) else None)
                     (rev [0..<Suc (length line)])
      in case filter (\<lambda>r. r \<noteq> None) greedy of r # _ \<Rightarrow> r | [] \<Rightarrow> sep_version s)"

text \<open>\<open>(?:.*? rv:([\w.]+)|)\<close>: the lazy alternative tries the first occurrence first; without one there is no version.\<close>

definition mozilla_version :: "js_string \<Rightarrow> js_string option" where
  "mozilla_version s =
     (let line = takeWhile is_dot s;
          lazy = map (\<lambda>k. if prefix (J '' rv:'') (drop k s) then word_run (drop (k + 4) s) else None)
                   [0..<Suc (length line)]
      in case filter (\<lambda>r. r \<noteq> None) lazy of r # _ \<Rightarrow> r | [] \<Rightarrow> Some [])"

definition uaMatch :: "(js_string \<Rightarrow> js_string) \<Rightarrow> js_string \<Rightarrow> js_string \<times> js_string" where
  "uaMatch lc ua0 =
     (let ua = lc ua0;
          version = (\<lambda>v. if v = [] then J ''0'' else v)
      in case name_version ''chrome'' sep_version ua of Some v \<Rightarrow> (J ''chrome'', version v)
       | None \<Rightarrow> (case name_version ''webkit'' sep_version ua of Some v \<Rightarrow> (J ''webkit'', version v)
       | None \<Rightarrow> (case name_version ''opera'' opera_version ua of Some v \<Rightarrow> (J ''opera'', version v)
       | None \<Rightarrow> (case name_version ''msie'' (\<lambda>s. case s of c # r \<Rightarrow> if c = 32 then word_run r else None | [] \<Rightarrow> None) ua of
                    Some v \<Rightarrow> (J ''msie'', version v)
       | None \<Rightarrow> if indexOf ua (J ''compatible'') < 0
                then (case name_version ''mozilla'' mozilla_version ua of
                        Some v \<Rightarrow> (J ''mozilla'', version v) | None \<Rightarrow> ([], J ''0''))
                else ([], J ''0'')))))"

section \<open>Translations\<close>

datatype translation = TString js_string | TForms "js_string list"

record documentation =
  TRANSLATIONS :: "translation js_obj"
  PLURAL_EXPR :: "int \<Rightarrow> int"
  LOCALE :: js_string

record catalog =
  messages :: "translation js_obj"
  plural_expr :: "int \<Rightarrow> int"
  locale_name :: js_string

definition Documentation0 :: documentation where
  "Documentation0 = \<lparr>TRANSLATIONS = [], PLURAL_EXPR = (\<lambda>n. if n = 1 then 0 else 1), LOCALE = J ''unknown''\<rparr>"

text \<open>None is undefined: an inherited function has no element 0.\<close>

definition gettext :: "documentation \<Rightarrow> js_string \<Rightarrow> js_string option" where
  "gettext doc string =
     (case obj_lookup (TRANSLATIONS doc) string of
        Absent \<Rightarrow> Some string
      | Own (TString t) \<Rightarrow> Some t
      | Own (TForms ts) \<Rightarrow> (if ts = [] then None else Some (hd ts))
      | Inherited \<Rightarrow> None)"

text \<open>The property \<open>PLURALEXPR\<close> does not exist: the call throws.\<close>

definition ngettext :: "documentation \<Rightarrow> js_string \<Rightarrow> js_string \<Rightarrow> int \<Rightarrow> page_error + js_string" where
  "ngettext doc singular plural n =
     (case obj_lookup (TRANSLATIONS doc) singular of
        Absent \<Rightarrow> Inr (if n = 1 then singular else plural)
      | _ \<Rightarrow> Inl TypeErr)"

definition addTranslations :: "catalog \<Rightarrow> documentation \<Rightarrow> documentation" where
  "addTranslations cat doc =
     doc\<lparr>TRANSLATIONS := fold (\<lambda>(k, t) trs. obj_put trs k t) (messages cat) (TRANSLATIONS doc),
         PLURAL_EXPR := plural_expr cat, LOCALE := locale_name cat\<rparr>"

section \<open>Links\<close>

definition headerlink :: "js_string \<Rightarrow> js_string \<Rightarrow> dom" where
  "headerlink ident title =
     Elem ((new_elem ''a'')\<lparr>classes := [J ''headerlink''], href := J ''#'' @ ident, el_title := title\<rparr>) [Text [0xB6]]"

definition is_header :: "elem \<Rightarrow> bool" where
  "is_header e \<longleftrightarrow> tag e \<in> J ` {''h1'', ''h2'', ''h3'', ''h4'', ''h5'', ''h6''}"

text \<open>The first header, in document order, that is a child of a division with an identifier; the flag says
  that it has been found.\<close>

fun link_header :: "js_string \<Rightarrow> bool \<Rightarrow> bool \<Rightarrow> dom \<Rightarrow> bool \<times> dom"
  and link_headers :: "js_string \<Rightarrow> bool \<Rightarrow> bool \<Rightarrow> dom list \<Rightarrow> bool \<times> dom list" where
  "link_header title in_div found (Text t) = (found, Text t)"
| "link_header title in_div found (Elem e kids) =
     (let hit = (\<not> found \<and> in_div \<and> is_header e);
          (found', kids') = link_headers title (tag e = J ''div'' \<and> el_id e \<noteq> []) (found \<or> hit) kids
      in (found', Elem e (if hit then kids' @ [headerlink (el_id e) title] else kids')))"
| "link_headers title in_div found [] = (found, [])"
| "link_headers title in_div found (d # ds) =
     (let (f1, d') = link_header title in_div found d;
          (f2, ds') = link_headers title in_div f1 ds
      in (f2, d' # ds'))"

fun link_definitions :: "js_string \<Rightarrow> dom \<Rightarrow> dom" where
  "link_definitions title (Text t) = Text t"
| "link_definitions title (Elem e kids) =
     Elem e (map (link_definitions title) kids @
       (if tag e = J ''dt'' \<and> el_id e \<noteq> [] then [headerlink (el_id e) title] else []))"

definition addContextElements :: "(js_string \<Rightarrow> js_string) \<Rightarrow> dom \<Rightarrow> dom" where
  "addContextElements tr page =
     link_definitions (tr (J ''Permalink to this definition''))
       (snd (link_header (tr (J ''Permalink to this headline'')) False False page))"

section \<open>Search words\<close>

text \<open>Apply a function to the elements of a class, or to the body.\<close>

fun map_bodies :: "(dom \<Rightarrow> dom list) \<Rightarrow> (elem \<Rightarrow> bool) \<Rightarrow> dom \<Rightarrow> dom list" where
  "map_bodies f sel (Text t) = [Text t]"
| "map_bodies f sel (Elem e kids) =
     (if sel e then f (Elem e kids) else [Elem e (concat (map (map_bodies f sel) kids))])"

fun exists_elem :: "(elem \<Rightarrow> bool) \<Rightarrow> dom \<Rightarrow> bool" where
  "exists_elem sel (Text t) = False"
| "exists_elem sel (Elem e kids) = (sel e \<or> (\<exists>k \<in> set kids. exists_elem sel k))"

definition is_body_div :: "elem \<Rightarrow> bool" where
  "is_body_div e \<longleftrightarrow> tag e = J ''div'' \<and> J ''body'' \<in> set (classes e)"

definition highlight_link :: "js_string \<Rightarrow> dom" where
  "highlight_link label =
     Elem ((new_elem ''p'')\<lparr>classes := [J ''highlight-link'']\<rparr>)
       [Elem ((new_elem ''a'')\<lparr>href := J ''javascript:Documentation.hideSearchWords()''\<rparr>) [Text label]]"

fun append_to :: "(elem \<Rightarrow> bool) \<Rightarrow> dom \<Rightarrow> dom \<Rightarrow> dom" where
  "append_to sel new (Text t) = Text t"
| "append_to sel new (Elem e kids) = Elem e (map (append_to sel new) kids @ (if sel e then [new] else []))"

definition highlight_terms :: "js_string list js_obj \<Rightarrow> js_string list" where
  "highlight_terms params =
     (case map_of params (J ''highlight'') of Some (q # _) \<Rightarrow> split_ws q | _ \<Rightarrow> [])"

text \<open>The link is added at once, the words are marked when the timer fires; \<open>search\<close> is the query of the address.\<close>

definition highlightSearchWords ::
    "(js_string \<Rightarrow> js_string) \<Rightarrow> (js_string \<Rightarrow> js_string) \<Rightarrow> js_string \<Rightarrow> dom \<Rightarrow> page_error + dom list" where
  "highlightSearchWords lc tr search page =
     (case getQueryParameters search of
        Inl err \<Rightarrow> Inl err
      | Inr params \<Rightarrow>
          (let terms = highlight_terms params in
           if terms = [] then Inr [page]
           else let sel = (if exists_elem is_body_div page then is_body_div else (\<lambda>e. tag e = J ''body''));
                    page' = append_to (\<lambda>e. el_id e = J ''searchbox'') (highlight_link (tr (J ''Hide Search Matches''))) page
                in Inr (fold (\<lambda>w pages. concat (map (map_bodies (\<lambda>d. highlightText lc (lc w) (J ''highlighted'') False [d]) sel) pages))
                          terms [page'])))"

fun hideSearchWords :: "dom \<Rightarrow> dom" where
  "hideSearchWords (Text t) = Text t"
| "hideSearchWords (Elem e kids) =
     Elem (if tag e = J ''span'' then e\<lparr>classes := filter (\<lambda>c. c \<noteq> J ''highlighted'') (classes e)\<rparr> else e)
       (map hideSearchWords kids)"

section \<open>Index toggles\<close>

text \<open>A toggler: its image, and the rows of its group that are shown.\<close>

record toggler =
  src :: js_string
  toggler_id :: js_string

definition toggle_click :: "toggler \<times> js_string set \<Rightarrow> toggler \<times> js_string set" where
  "toggle_click = (\<lambda>(t, hidden).
     let s = src t;
         idnum = substr1 (toggler_id t) 7;
         hidden' = (if idnum \<in> hidden then hidden - {idnum} else insert idnum hidden);
         s' = (if substr1 s (-9) = J ''minus.png''
               then substr s 0 (int (length s) - 9) @ J ''plus.png''
               else substr s 0 (int (length s) - 8) @ J ''minus.png'')
     in (t\<lparr>src := s'\<rparr>, hidden'))"

definition initIndexTable :: "doc_options \<Rightarrow> toggler list \<Rightarrow> toggler list \<times> js_string set" where
  "initIndexTable opts ts =
     (if COLLAPSE_INDEX opts
      then fold (\<lambda>t (ts', hidden). let (t', h') = toggle_click (t, hidden) in (ts' @ [t'], h')) ts ([], {})
      else (ts, {}))"

section \<open>Addresses and keys\<close>

definition makeURL :: "doc_options \<Rightarrow> js_string \<Rightarrow> js_string" where
  "makeURL opts relativeURL = URL_ROOT opts @ J ''/'' @ relativeURL"

text \<open>In the callback \<open>this\<close> is a String object, which is never \<open>===\<close> to a string: no part is dropped.\<close>

definition string_object_is :: "js_string \<Rightarrow> js_string \<Rightarrow> bool" where
  "string_object_is obj lit = False"

definition getCurrentURL :: "doc_options \<Rightarrow> js_string \<Rightarrow> js_string" where
  "getCurrentURL opts path =
     (let parts = split_char 47 path;
          parts' = fold (\<lambda>this ps. if string_object_is this (J ''..'') then butlast ps else ps) (split_char 47 (URL_ROOT opts)) parts;
          url = js_join (J ''/'') parts'
      in substring path (lastIndexOf_char url 47 + 1) (int (length path) - 1))"

text \<open>The key handler: the address it goes to, if any. The case of the left key falls through to the right key.\<close>

definition on_keyup :: "js_string \<Rightarrow> int \<Rightarrow> js_string \<Rightarrow> js_string \<Rightarrow> js_string option" where
  "on_keyup activeElementType keyCode prevHref nextHref =
     (if activeElementType \<notin> {J ''TEXTAREA'', J ''INPUT'', J ''SELECT''} then
        (let right = (if nextHref \<noteq> [] then Some nextHref else None)
         in if keyCode = 37 then (if prevHref \<noteq> [] then Some prevHref else right)
            else if keyCode = 39 then right
            else None)
      else None)"

definition fixFirefoxAnchorBug :: "js_string \<Rightarrow> js_string \<Rightarrow> bool" where
  "fixFirefoxAnchorBug hash browser \<longleftrightarrow> hash \<noteq> [] \<and> browser = J ''mozilla''"

text \<open>The start of a page: whether the anchor is visited again, the page, the togglers and whether keys navigate.\<close>

definition Documentation_init ::
    "(js_string \<Rightarrow> js_string) \<Rightarrow> (js_string \<Rightarrow> js_string) \<Rightarrow> doc_options \<Rightarrow> js_string \<Rightarrow> js_string \<Rightarrow> js_string
       \<Rightarrow> toggler list \<Rightarrow> dom \<Rightarrow> page_error + bool \<times> dom list \<times> (toggler list \<times> js_string set) \<times> bool" where
  "Documentation_init lc tr opts browser hash search ts page =
     (case highlightSearchWords lc tr search page of
        Inl err \<Rightarrow> Inl err
      | Inr pages \<Rightarrow> Inr (fixFirefoxAnchorBug hash browser, pages, initIndexTable opts ts, NAVIGATION_WITH_KEYS opts))"

end
