(* ===== verification/Js_Page.thy ===== *)
theory Js_Page
  imports Js_Doctools
begin

text \<open>
  What the page script guarantees: marking and unmarking search words never changes the text of a page, an
  encoded query parameter arrives unchanged, and an index toggle undoes itself. The theorems at the end show
  where the script does not do what it means to.
\<close>

section \<open>The text of a page\<close>

lemma hl_match_text: "hl_match lc text c parent val = Some (a, m, b) \<Longrightarrow> a @ m @ b = val"
proof -
  have split: "take p val @ take n (drop p val) @ drop (p + n) val = val" for p n
    by (metis append_take_drop_id drop_drop add.commute)
  assume "hl_match lc text c parent val = Some (a, m, b)"
  then obtain p where "a = take p val" "m = take (length text) (drop p val)" "b = drop (p + length text) val"
    by (auto simp: hl_match_def substr_def substr1_def from_end_def nat_add_distrib split: option.splits if_splits)
  then show ?thesis using split [of p "length text"] by simp
qed

lemma hl_new_span_text: "text_of (hl_new_span lc text c svg mid) = mid"
  by (auto simp: hl_new_span_def Let_def dest: hl_match_text split: option.splits)

lemma hl_text:
  "text_of (hl_node lc w c svg d) = text_of d"
  "concat (map text_of (snd (hl_kids lc w c svg parent n kids))) = concat (map text_of kids)"
proof (induction lc w c svg d and lc w c svg parent n kids rule: hl_node_hl_kids.induct)
  case (2 lc w c svg e kids)
  then show ?case by (auto simp: split_def Let_def)
next
  case (5 lc w c svg parent n val kids)
  show ?case
  proof (cases "hl_match lc w c parent val")
    case None
    then show ?thesis using 5 by (simp add: split_def Let_def)
  next
    case (Some p)
    obtain a m b where p: "p = (a, m, b)" by (cases p)
    have amb: "a @ m @ b = val" using Some p hl_match_text by simp
    show ?thesis
    proof (cases n)
      case 0
      then show ?thesis using Some p amb by (simp add: Let_def)
    next
      case (Suc n')
      have "concat (map text_of (snd (hl_kids lc w c svg parent n' (Text b # kids)))) = b @ concat (map text_of kids)"
        using 5(2) [OF Some p [symmetric] refl refl Suc] by simp
      then show ?thesis using Some p Suc amb by (simp add: Let_def split_def hl_new_span_text)
    qed
  qed
next
  case (6 lc w c svg parent n e ks kids)
  have "text_of (hl_node lc w c svg (Elem e ks)) = text_of (Elem e ks)"
    using 6(2) [OF refl prod.collapse] .
  then show ?case using 6(1) by (simp add: split_def Let_def del: hl_node.simps)
qed simp_all

lemma place_rects_text: "concat (map text_of (place_rects c d)) = text_of d"
proof (induction d)
  case (Elem e kids)
  have "concat (map text_of (concat (map (place_rects c) kids))) = concat (map text_of kids)"
    using Elem by (induction kids) auto
  then show ?case by (simp add: rect_def map_replicate_const concat_replicate_trivial)
qed simp

lemma highlightText_text: "concat (map text_of (highlightText lc text c svg nodes)) = concat (map text_of nodes)"
  by (induction nodes) (simp_all add: highlightText_def place_rects_text hl_text)

lemma hideSearchWords_text: "text_of (hideSearchWords d) = text_of d"
proof (induction d)
  case (Elem e kids)
  then show ?case by (induction kids) simp_all
qed simp

text \<open>No element is marked any more.\<close>

fun marked :: "dom \<Rightarrow> bool" where
  "marked (Text t) = False"
| "marked (Elem e kids) = ((tag e = J ''span'' \<and> J ''highlighted'' \<in> set (classes e)) \<or> (\<exists>k \<in> set kids. marked k))"

lemma hideSearchWords_unmarked: "\<not> marked (hideSearchWords d)"
  by (induction d) auto

section \<open>Parameters\<close>

lemma split_char_none: "c \<notin> set s \<Longrightarrow> split_char c s = [s]"
  by (induction s) auto

lemma split_char_append: "c \<notin> set s \<Longrightarrow> split_char c (s @ c # t) = s # split_char c t"
  by (induction s) auto

lemma replace_char_none: "c \<notin> set s \<Longrightarrow> replace_char c r s = s"
  by (induction s) (auto simp: replace_char_def)

lemma decode_plain: "37 \<notin> set s \<Longrightarrow> decodeURIComponent s = Some s"
  by (induction s) auto

lemma encoded_plain:
  assumes "encodeURIComponent s = Some e"
  shows "38 \<notin> set e" and "61 \<notin> set e" and "63 \<notin> set e"
  using encode_chars [OF assms, of 38] encode_chars [OF assms, of 61] encode_chars [OF assms, of 63]
  by (auto simp: unescaped_def is_digit_char_def)

lemma substr_after_question: "63 \<notin> set t \<Longrightarrow> substr1 (63 # t) (indexOf (63 # t) (J ''?'') + 1) = t"
  by (simp add: substr1_def indexOf_def from_end_def)

text \<open>What the page reads for a word that was encoded into its address.\<close>

lemma encoded_parameter:
  assumes "well_formed s" and "43 \<notin> set s"
  shows "\<exists>e. urlencode s = Some e \<and> getQueryParameters (J ''?highlight='' @ e) = Inr [(J ''highlight'', [s])]"
proof -
  obtain e where e: "encodeURIComponent s = Some e" "decodeURIComponent e = Some s" using encode_some [OF assms(1)] by blast
  note p = encoded_plain [OF e(1)]
  let ?h = "J ''highlight''"
  have "split_char 38 (?h @ 61 # e) = [?h @ 61 # e]" using p by (intro split_char_none) simp
  moreover have "split_pair (?h @ 61 # e) = (?h, e)"
    using p by (simp add: split_pair_def split_char_append [of 61 ?h, simplified] split_char_none)
  moreover have "urldecode ?h = Some ?h" by (simp add: urldecode_def decode_plain replace_char_none)
  moreover have "urldecode e = Some s" using e assms(2) by (simp add: urldecode_def replace_char_none)
  moreover have "obj_lookup ([] :: js_string list js_obj) ?h = Absent" by (simp add: obj_lookup_def proto_keys_def)
  moreover have "substr1 (63 # ?h @ 61 # e) (indexOf (63 # ?h @ 61 # e) (J ''?'') + 1) = ?h @ 61 # e"
    by (rule substr_after_question) (use p in simp)
  ultimately have "getQueryParameters (J ''?highlight='' @ e) = Inr [(?h, [s])]"
    by (simp add: getQueryParameters_def)
  then show ?thesis using e by (auto simp: urlencode_def)
qed

section \<open>Properties\<close>

text \<open>
  Claim C28. Marking search words never changes the text: whatever word is highlighted in whatever page, SVG
  drawings included, the text of the page stays the same, and after the marks are hidden again no element is marked.\<close>

theorem highlight_keeps_text:
  "concat (map text_of (highlightText lc text className svg nodes)) = concat (map text_of nodes)
   \<and> concat (map text_of (map hideSearchWords (highlightText lc text className svg nodes))) = concat (map text_of nodes)
   \<and> (\<forall>d. \<not> marked (hideSearchWords d))"
  by (simp add: highlightText_text hideSearchWords_unmarked comp_def hideSearchWords_text)

text \<open>
  A query parameter survives its journey: a well-formed string without a plus sign that a script
  encodes into an address is what \<open>getQueryParameters\<close> reads on the page.\<close>

theorem parameter_roundtrip:
  assumes "well_formed s" and "43 \<notin> set s"
  shows "\<exists>e. urlencode s = Some e \<and> getQueryParameters (J ''?highlight='' @ e) = Inr [(J ''highlight'', [s])]"
  using assms by (rule encoded_parameter)

theorem parameter_roundtrip_witness:
  "\<exists>e. urlencode (J ''a b&c'' @ [0x20AC]) = Some e \<and>
     getQueryParameters (J ''?highlight='' @ e) = Inr [(J ''highlight'', [J ''a b&c'' @ [0x20AC]])]"
  by (rule parameter_roundtrip) (simp_all add: is_trail_def is_lead_def)

section \<open>Where the script errs\<close>

text \<open>A plus sign in a value is read as a space, because the replacement comes after the decoding.\<close>

theorem plus_becomes_space:
  "urlencode (J ''+'') = Some (J ''%2B'') \<and> urldecode (J ''%2B'') = Some (J '' '')"
  by (simp add: urlencode_def urldecode_def unescaped_def is_digit_char_def is_trail_def is_lead_def utf8_def pct_def
      hex_digit_def hex_byte_def hex_val_def replace_char_def)

text \<open>A parameter with the name of an inherited property makes the parser throw.\<close>

theorem inherited_parameter_throws: "getQueryParameters (J ''?constructor=1'') = Inl TypeErr"
  by (simp add: getQueryParameters_def substr1_def indexOf_def from_end_def split_pair_def urldecode_def
      replace_char_def obj_lookup_def proto_keys_def Let_def)

text \<open>A plural form is never translated: the function throws as soon as there is a translation.\<close>

theorem ngettext_never_translates:
  "map_of (TRANSLATIONS doc) singular \<noteq> None \<Longrightarrow> ngettext doc singular plural n = Inl TypeErr"
  by (auto simp: ngettext_def obj_lookup_def)

text \<open>The left key goes to the next page where there is no previous one.\<close>

theorem left_key_goes_right: "on_keyup (J ''BODY'') 37 [] (J ''next.html'') = Some (J ''next.html'')"
  by (simp add: on_keyup_def Let_def)

text \<open>Only the first occurrence in the only text of an element is marked.\<close>

theorem second_occurrence_missed:
  "hl_node (\<lambda>s. s) (J ''a'') (J ''hl'') False (Elem (new_elem ''p'') [Text (J ''a-a'')]) =
     Elem (new_elem ''p'') [Text [], Elem ((new_elem ''span'')\<lparr>classes := [J ''hl'']\<rparr>) [Text (J ''a'')], Text (J ''-a'')]"
  by (simp add: hl_match_def elem_hasClass_def new_elem_def hl_span_def substr_def substr1_def from_end_def enter_def)

end
