(* ===== verification/Js_Search.thy ===== *)
theory Js_Search
  imports Js_Page
begin

text \<open>
  The script \<open>searchtools.js\<close>: the scorer, the object \<open>Search\<close> with its index, its queued query and its pulse, and the
  search itself. The search index is a parameter of the right shape. Lower case is the parameter \<open>lc\<close>, the translation
  of a message the parameter \<open>tr\<close>. The asynchronous display of the results is a function from what the server answers for
  a source file to the list of items shown, in order.
\<close>

section \<open>Scorer and index\<close>

record result_row =
  r_docname :: "js_string option"
  r_title :: "js_string option"
  r_anchor :: js_string
  r_descr :: "js_string option"
  r_score :: int
  r_filename :: "js_string option"

record scorer =
  custom_score :: "(result_row \<Rightarrow> int) option"
  objNameMatch :: int
  objPartialMatch :: int
  objPrio :: "(nat \<times> int) list"
  objPrioDefault :: int
  title_score :: int
  term_score :: int

definition Scorer :: scorer where
  "Scorer = \<lparr>
     custom_score = None,
     objNameMatch = 11,
     objPartialMatch = 6,
     objPrio = [(0, 15), (1, 5), (2, -5)],
     objPrioDefault = 0,
     title_score = 15,
     term_score = 5\<rparr>"

text \<open>The files of a word: one number, or an array of numbers. An object is listed with its document, its type, its
  priority and its anchor.\<close>

datatype posting = One nat | Many "nat list"

record obj_match =
  m_doc :: nat
  m_type :: nat
  m_prio :: nat
  m_anchor :: js_string

record search_index =
  terms :: "posting js_obj"
  titleterms :: "posting js_obj"
  docnames :: "js_string list"
  filenames :: "js_string list"
  titles :: "js_string list"
  objects :: "(js_string \<times> (js_string \<times> obj_match) list) list"
  objnames :: "(nat \<times> js_string \<times> js_string \<times> js_string) list"

text \<open>An array read beyond its end is undefined, and reads as that word in a concatenation.\<close>

definition nth_opt :: "'a list \<Rightarrow> nat \<Rightarrow> 'a option" where
  "nth_opt xs i = (if i < length xs then Some (xs ! i) else None)"

definition show_opt :: "js_string option \<Rightarrow> js_string" where
  "show_opt v = (case v of Some s \<Rightarrow> s | None \<Rightarrow> J ''undefined'')"

section \<open>Object search\<close>

definition object_score :: "scorer \<Rightarrow> js_string \<Rightarrow> js_string \<Rightarrow> int" where
  "object_score sc object fullname =
     (let lastpart = last (split_char 46 fullname)
      in if fullname = object \<or> lastpart = object then objNameMatch sc
         else if indexOf lastpart object > -1 then objPartialMatch sc
         else 0)"

definition object_row ::
    "(js_string \<Rightarrow> js_string) \<Rightarrow> (js_string \<Rightarrow> js_string) \<Rightarrow> scorer \<Rightarrow> search_index \<Rightarrow> js_string \<Rightarrow> js_string list
       \<Rightarrow> js_string \<Rightarrow> js_string \<Rightarrow> obj_match \<Rightarrow> page_error + result_row option" where
  "object_row lc tr sc idx object otherterms pre name match =
     (let fullname = (if pre \<noteq> [] then pre @ J ''.'' else []) @ name in
      if \<not> indexOf (lc fullname) object > -1 then Inr None
      else case map_of (objnames idx) (m_type match) of
        None \<Rightarrow> Inl TypeErr
      | Some (domain, type, objname) \<Rightarrow>
          (let title = nth_opt (titles idx) (m_doc match);
               haystack = lc (pre @ J '' '' @ name @ J '' '' @ objname @ J '' '' @ show_opt title)
           in if \<not> list_all (\<lambda>w. indexOf haystack w \<noteq> -1) otherterms then Inr None
              else
                let descr = objname @ tr (J '', in '') @ show_opt title;
                    anchor = (if m_anchor match = [] then fullname
                              else if m_anchor match = J ''-'' then type @ J ''-'' @ fullname
                              else m_anchor match);
                    prio = (case map_of (objPrio sc) (m_prio match) of Some p \<Rightarrow> p | None \<Rightarrow> objPrioDefault sc)
                in Inr (Some \<lparr>r_docname = nth_opt (docnames idx) (m_doc match), r_title = Some fullname,
                     r_anchor = J ''#'' @ anchor, r_descr = Some descr,
                     r_score = object_score sc object fullname + prio,
                     r_filename = nth_opt (filenames idx) (m_doc match)\<rparr>)))"

fun collect_rows :: "('x \<Rightarrow> page_error + result_row option) \<Rightarrow> 'x list \<Rightarrow> page_error + result_row list" where
  "collect_rows f [] = Inr []"
| "collect_rows f (x # xs) =
     (case f x of
        Inl err \<Rightarrow> Inl err
      | Inr r \<Rightarrow> (case collect_rows f xs of Inl err \<Rightarrow> Inl err | Inr rs \<Rightarrow> Inr (case r of Some q \<Rightarrow> q # rs | None \<Rightarrow> rs)))"

definition performObjectSearch ::
    "(js_string \<Rightarrow> js_string) \<Rightarrow> (js_string \<Rightarrow> js_string) \<Rightarrow> scorer \<Rightarrow> search_index \<Rightarrow> js_string \<Rightarrow> js_string list
       \<Rightarrow> page_error + result_row list" where
  "performObjectSearch lc tr sc idx object otherterms =
     collect_rows (\<lambda>(pre, name, match). object_row lc tr sc idx object otherterms pre name match)
       (concat (map (\<lambda>(pre, ms). map (\<lambda>(name, match). (pre, name, match)) ms) (objects idx)))"

section \<open>Full-text search\<close>

text \<open>
  The keys of the maps \<open>fileMap\<close> and \<open>scoreMap\<close>: a file, or the string that an inherited property is converted to when a
  search word is its name.
\<close>

datatype file_key = File nat | Weird js_string

definition files_of :: "posting js_obj \<Rightarrow> js_string \<Rightarrow> file_key list option" where
  "files_of tab word =
     (case obj_lookup tab word of
        Absent \<Rightarrow> None
      | Own (One n) \<Rightarrow> Some [File n]
      | Own (Many ns) \<Rightarrow> Some (map File ns)
      | Inherited \<Rightarrow> Some [Weird word])"

type_synonym file_map = "(file_key \<times> js_string list) list"
type_synonym score_map = "file_key \<times> js_string \<rightharpoonup> int"

fun file_push :: "file_map \<Rightarrow> file_key \<Rightarrow> js_string \<Rightarrow> file_map" where
  "file_push [] f word = [(f, [word])]"
| "file_push ((g, ws) # fm) f word = (if g = f then (g, ws @ [word]) # fm else (g, ws) # file_push fm f word)"

text \<open>Only an inherited object, not a function, gets a score: a function has no elements.\<close>

definition scored :: "file_key \<Rightarrow> bool" where
  "scored f = (case f of File n \<Rightarrow> True | Weird w \<Rightarrow> w = J ''__proto__'')"

definition set_scores :: "js_string \<Rightarrow> int \<Rightarrow> file_key list \<Rightarrow> score_map \<Rightarrow> score_map" where
  "set_scores word score files sm = fold (\<lambda>f m. m((f, word) \<mapsto> score)) (filter scored files) sm"

definition word_step :: "scorer \<Rightarrow> search_index \<Rightarrow> js_string \<Rightarrow> file_map \<times> score_map \<Rightarrow> (file_map \<times> score_map) option" where
  "word_step sc idx word = (\<lambda>(fm, sm).
     case (files_of (terms idx) word, files_of (titleterms idx) word) of
       (None, None) \<Rightarrow> None
     | (a, b) \<Rightarrow>
         (let fa = (case a of Some fs \<Rightarrow> fs | None \<Rightarrow> []);
              fb = (case b of Some fs \<Rightarrow> fs | None \<Rightarrow> [])
          in Some (fold (\<lambda>f m. file_push m f word) (fa @ fb) fm,
                   set_scores word (title_score sc) fb (set_scores word (term_score sc) fa sm))))"

text \<open>The loop ends at the first word that is in no document.\<close>

fun terms_loop :: "scorer \<Rightarrow> search_index \<Rightarrow> js_string list \<Rightarrow> file_map \<times> score_map \<Rightarrow> file_map \<times> score_map" where
  "terms_loop sc idx [] s = s"
| "terms_loop sc idx (word # ws) s =
     (case word_step sc idx word s of None \<Rightarrow> s | Some s' \<Rightarrow> terms_loop sc idx ws s')"

text \<open>
  The key of \<open>fileMap\<close> is a string: it is \<open>==\<close> to a number and to an array of that one number, and \<open>contains\<close>,
  which compares with \<open>===\<close>, finds it in no array of numbers.
\<close>

definition excluded_hit :: "posting js_obj \<Rightarrow> js_string \<Rightarrow> file_key \<Rightarrow> bool" where
  "excluded_hit tab word f =
     (case (obj_lookup tab word, f) of
        (Own (One m), File n) \<Rightarrow> m = n
      | (Own (Many ms), File n) \<Rightarrow> ms = [n]
      | _ \<Rightarrow> False)"

definition is_excluded :: "search_index \<Rightarrow> js_string list \<Rightarrow> file_key \<Rightarrow> bool" where
  "is_excluded idx excluded f \<longleftrightarrow>
     (\<exists>w \<in> set excluded. excluded_hit (terms idx) w f \<or> excluded_hit (titleterms idx) w f)"

definition file_row :: "search_index \<Rightarrow> score_map \<Rightarrow> file_key \<Rightarrow> js_string list \<Rightarrow> page_error + result_row" where
  "file_row idx sm f ws =
     (if \<not> scored f then Inl TypeErr
      else
        let scores = map (\<lambda>w. case sm (f, w) of Some s \<Rightarrow> s | None \<Rightarrow> 0) ws;
            look = (\<lambda>xs. case f of File n \<Rightarrow> nth_opt xs n | Weird _ \<Rightarrow> None)
        in Inr \<lparr>r_docname = look (docnames idx), r_title = look (titles idx), r_anchor = [], r_descr = None,
             r_score = Max (set scores), r_filename = look (filenames idx)\<rparr>)"

text \<open>\<open>for in\<close> visits the numbers first, in ascending order.\<close>

definition file_order :: "file_map \<Rightarrow> file_key list" where
  "file_order fm = map File (sort (concat (map (\<lambda>(f, _). case f of File n \<Rightarrow> [n] | Weird _ \<Rightarrow> []) fm))) @
     filter (\<lambda>f. case f of File n \<Rightarrow> False | Weird _ \<Rightarrow> True) (map fst fm)"

definition performTermsSearch ::
    "scorer \<Rightarrow> search_index \<Rightarrow> js_string list \<Rightarrow> js_string list \<Rightarrow> page_error + result_row list" where
  "performTermsSearch sc idx searchterms excluded =
     (let (fm, sm) = terms_loop sc idx searchterms ([], Map.empty)
      in collect_rows (\<lambda>f.
           let ws = the (map_of fm f)
           in if length ws \<noteq> length searchterms \<or> is_excluded idx excluded f then Inr None
              else (case file_row idx sm f ws of Inl err \<Rightarrow> Inl err | Inr r \<Rightarrow> Inr (Some r)))
         (file_order fm))"

section \<open>The query\<close>

record query_terms =
  searchterms :: "js_string list"
  excluded :: "js_string list"
  hlterms :: "js_string list"
  objectterms :: "js_string list"

definition add_new :: "js_string list \<Rightarrow> js_string \<Rightarrow> js_string list" where
  "add_new xs w = (if w \<in> set xs then xs else xs @ [w])"

definition is_number_word :: "js_string \<Rightarrow> bool" where
  "is_number_word w \<longleftrightarrow> w \<noteq> [] \<and> list_all is_digit_char w"

definition query_step :: "(js_string \<Rightarrow> js_string) \<Rightarrow> js_string list \<Rightarrow> js_string \<Rightarrow> query_terms \<Rightarrow> query_terms" where
  "query_step lc stopwords tmp q0 =
     (let q = (if tmp \<noteq> [] then q0\<lparr>objectterms := objectterms q0 @ [lc tmp]\<rparr> else q0) in
      if lc tmp \<in> set stopwords \<or> is_number_word tmp \<or> tmp = [] then q
      else
        let stem = stemWord (lc tmp);
            word = (if length stem < 3 \<and> length tmp \<ge> 3 then tmp else stem)
        in if charAt word 0 = J ''-''
           then q\<lparr>excluded := add_new (excluded q) (substr1 word 1)\<rparr>
           else q\<lparr>hlterms := hlterms q @ [lc tmp], searchterms := add_new (searchterms q) word\<rparr>)"

definition query_terms_of :: "(js_string \<Rightarrow> js_string) \<Rightarrow> js_string list \<Rightarrow> js_string \<Rightarrow> query_terms" where
  "query_terms_of lc stopwords query =
     fold (query_step lc stopwords) (splitQuery query) \<lparr>searchterms = [], excluded = [], hlterms = [], objectterms = []\<rparr>"

text \<open>Descending when read from the end: by score, then by title; an undefined title does not occur among
  the rows of a complete index.\<close>

definition row_cmp :: "(js_string \<Rightarrow> js_string) \<Rightarrow> result_row \<Rightarrow> result_row \<Rightarrow> int" where
  "row_cmp lc a b =
     (if r_score a > r_score b then 1
      else if r_score a < r_score b then -1
      else let left = lc (show_opt (r_title a)); right = lc (show_opt (r_title b))
           in if js_less right left then -1 else if js_less left right then 1 else 0)"

definition highlightstring :: "query_terms \<Rightarrow> js_string option" where
  "highlightstring q = map_option (\<lambda>e. J ''?highlight='' @ e) (urlencode (js_join (J '' '') (hlterms q)))"

fun object_results ::
    "(js_string \<Rightarrow> js_string list \<Rightarrow> page_error + result_row list) \<Rightarrow> js_string list \<Rightarrow> js_string list
       \<Rightarrow> page_error + result_row list" where
  "object_results search before [] = Inr []"
| "object_results search before (w # ws) =
     (case search w (before @ ws) of
        Inl err \<Rightarrow> Inl err
      | Inr rs \<Rightarrow> (case object_results search (before @ [w]) ws of Inl err \<Rightarrow> Inl err | Inr rs' \<Rightarrow> Inr (rs @ rs')))"

definition query_results ::
    "(js_string \<Rightarrow> js_string) \<Rightarrow> (js_string \<Rightarrow> js_string) \<Rightarrow> scorer \<Rightarrow> search_index \<Rightarrow> query_terms
       \<Rightarrow> page_error + result_row list" where
  "query_results lc tr sc idx q =
     (case object_results (performObjectSearch lc tr sc idx) [] (objectterms q) of
        Inl err \<Rightarrow> Inl err
      | Inr objs \<Rightarrow>
          (case performTermsSearch sc idx (searchterms q) (excluded q) of
             Inl err \<Rightarrow> Inl err
           | Inr rows \<Rightarrow>
               (let results = objs @ rows;
                    results' = (case custom_score sc of
                                  Some f \<Rightarrow> map (\<lambda>r. r\<lparr>r_score := f r\<rparr>) results | None \<Rightarrow> results)
                in Inr (js_sort (row_cmp lc) results'))))"

section \<open>Summary and display\<close>

definition summary_start :: "(js_string \<Rightarrow> js_string) \<Rightarrow> js_string \<Rightarrow> js_string list \<Rightarrow> int" where
  "summary_start lc txt keywords =
     max (fold (\<lambda>w start. let i = indexOf (lc txt) (lc w) in if i > -1 then i else start) keywords 0 - 120) 0"

definition summary_excerpt :: "(js_string \<Rightarrow> js_string) \<Rightarrow> js_string \<Rightarrow> js_string list \<Rightarrow> js_string" where
  "summary_excerpt lc txt keywords =
     (let start = summary_start lc txt keywords
      in (if start > 0 then J ''...'' else []) @ trim (substr txt start 240) @
         (if start + 240 - int (length txt) \<noteq> 0 then J ''...'' else []))"

definition makeSearchSummary :: "(js_string \<Rightarrow> js_string) \<Rightarrow> js_string \<Rightarrow> js_string list \<Rightarrow> js_string list \<Rightarrow> dom list" where
  "makeSearchSummary lc txt keywords hlwords =
     fold (\<lambda>w rv. highlightText lc w (J ''highlighted'') False rv) hlwords
       [Elem ((new_elem ''div'')\<lparr>classes := [J ''context'']\<rparr>) [Text (summary_excerpt lc txt keywords)]]"

record shown_item =
  item_href :: js_string
  item_html :: "js_string option"
  item_descr :: "js_string option"
  item_summary :: "dom list"

definition item_address :: "doc_options \<Rightarrow> js_string \<Rightarrow> result_row \<Rightarrow> js_string" where
  "item_address opts hl item =
     (if FILE_SUFFIX opts = [] then
        (let dirname = show_opt (r_docname item) @ J ''/'';
             dirname' = (if endsWith dirname (J ''/index/'') then substring dirname 0 (int (length dirname) - 6)
                         else if dirname = J ''index/'' then [] else dirname)
         in URL_ROOT opts @ dirname' @ hl @ r_anchor item)
      else show_opt (r_docname item) @ FILE_SUFFIX opts @ hl @ r_anchor item)"

definition source_address :: "doc_options \<Rightarrow> js_string \<Rightarrow> js_string" where
  "source_address opts file =
     (let suff = SOURCELINK_SUFFIX opts
      in URL_ROOT opts @ J ''_sources/'' @ file @
         (if js_slice1 file (- int (length suff)) = suff then [] else suff))"

text \<open>\<open>fetch\<close> is what the server answers for an address; an empty answer or none makes no summary.\<close>

definition display_item ::
    "(js_string \<Rightarrow> js_string) \<Rightarrow> doc_options \<Rightarrow> (js_string \<Rightarrow> js_string option) \<Rightarrow> js_string \<Rightarrow> query_terms \<Rightarrow> result_row
       \<Rightarrow> page_error + shown_item" where
  "display_item lc opts fetch hl q item =
     (let base = \<lparr>item_href = item_address opts hl item, item_html = r_title item, item_descr = None, item_summary = []\<rparr>
      in case r_descr item of
           Some (c # d) \<Rightarrow> Inr (base\<lparr>item_descr := Some (c # d)\<rparr>)
         | _ \<Rightarrow>
             if HAS_SOURCE opts then
               (case r_filename item of
                  None \<Rightarrow> Inl TypeErr
                | Some file \<Rightarrow>
                    (case fetch (source_address opts file) of
                       Some (c # data) \<Rightarrow>
                         Inr (base\<lparr>item_summary := makeSearchSummary lc (c # data) (searchterms q) (hlterms q)\<rparr>)
                     | _ \<Rightarrow> Inr base))
             else Inr base)"

text \<open>The items are popped from the end of the results; each one is displayed when the one before is.\<close>

fun display :: "(result_row \<Rightarrow> page_error + shown_item) \<Rightarrow> result_row list \<Rightarrow> shown_item list \<times> page_error option" where
  "display show [] = ([], None)"
| "display show (r # rs) =
     (case show r of
        Inl err \<Rightarrow> ([], Some err)
      | Inr i \<Rightarrow> (let (is, e) = display show rs in (i # is, e)))"

definition displayNextItem :: "(result_row \<Rightarrow> page_error + shown_item) \<Rightarrow> result_row list \<Rightarrow> shown_item list \<times> page_error option" where
  "displayNextItem show results = display show (rev results)"

definition finish_status :: "(js_string \<Rightarrow> js_string) \<Rightarrow> nat \<Rightarrow> js_string" where
  "finish_status tr resultCount =
     (if resultCount = 0
      then tr (J ''Your search did not match any documents. Please make sure that all words are spelled correctly and that you'' @
               [39] @ J ''ve selected enough categories.'')
      else let msg = tr (J ''Search finished, found %s page(s) matching the search query.'')
           in case js_find (J ''%s'') msg of
                Some k \<Rightarrow> take k msg @ show_nat resultCount @ drop (k + 2) msg
              | None \<Rightarrow> msg)"

text \<open>The whole query on a loaded index: the items shown, the error that ends the display early, and the status shown
  at its end.\<close>

definition Search_query ::
    "(js_string \<Rightarrow> js_string) \<Rightarrow> (js_string \<Rightarrow> js_string) \<Rightarrow> doc_options \<Rightarrow> scorer \<Rightarrow> (js_string \<Rightarrow> js_string option)
       \<Rightarrow> search_index \<Rightarrow> js_string \<Rightarrow> page_error + shown_item list \<times> (page_error + js_string)" where
  "Search_query lc tr opts sc fetch idx query =
     (let q = query_terms_of lc (SEARCH_LANGUAGE_STOP_WORDS opts) query in
      case highlightstring q of
        None \<Rightarrow> Inl URIError
      | Some hl \<Rightarrow>
          (case query_results lc tr sc idx q of
             Inl err \<Rightarrow> Inl err
           | Inr results \<Rightarrow>
               (case displayNextItem (display_item lc opts fetch hl q) results of
                  (shown, Some err) \<Rightarrow> Inr (shown, Inl err)
                | (shown, None) \<Rightarrow> Inr (shown, Inr (finish_status tr (length results))))))"

text \<open>The splitter of the script itself, for pages that bring none along.\<close>

definition splitQuery_fallback :: "js_string \<Rightarrow> js_string list" where
  "splitQuery_fallback query = split_ws query"

section \<open>The search object\<close>

text \<open>The state of \<open>Search\<close>: the index, the queued query, the status of the pulse, the pulses that are due, and the
  queries that have been run.\<close>

record search_state =
  s_index :: "search_index option"
  s_queued_query :: "js_string option"
  s_pulse_status :: int
  s_pulse_timers :: nat
  s_dots :: js_string
  s_ran :: "(search_index \<times> js_string) list"

definition Search0 :: search_state where
  "Search0 = \<lparr>s_index = None, s_queued_query = None, s_pulse_status = -1, s_pulse_timers = 0, s_dots = [], s_ran = []\<rparr>"

definition hasIndex :: "search_state \<Rightarrow> bool" where
  "hasIndex s \<longleftrightarrow> s_index s \<noteq> None"

definition run_query :: "js_string \<Rightarrow> search_state \<Rightarrow> search_state" where
  "run_query q s = (case s_index s of Some idx \<Rightarrow> s\<lparr>s_ran := s_ran s @ [(idx, q)]\<rparr> | None \<Rightarrow> s)"

definition setIndex :: "search_index \<Rightarrow> search_state \<Rightarrow> search_state" where
  "setIndex idx s0 =
     (let s = s0\<lparr>s_index := Some idx\<rparr> in
      case s_queued_query s of
        Some q \<Rightarrow> run_query q (s\<lparr>s_queued_query := None\<rparr>)
      | None \<Rightarrow> s)"

definition deferQuery :: "js_string \<Rightarrow> search_state \<Rightarrow> search_state" where
  "deferQuery q s = s\<lparr>s_queued_query := Some q\<rparr>"

definition stopPulse :: "search_state \<Rightarrow> search_state" where
  "stopPulse s = s\<lparr>s_pulse_status := 0\<rparr>"

definition pulse :: "search_state \<Rightarrow> search_state" where
  "pulse s0 =
     (let status = (s_pulse_status s0 + 1) mod 4;
          s = s0\<lparr>s_pulse_status := status, s_dots := replicate (nat status) 46\<rparr>
      in if status > -1 then s\<lparr>s_pulse_timers := Suc (s_pulse_timers s)\<rparr> else s)"

definition startPulse :: "search_state \<Rightarrow> search_state" where
  "startPulse s = (if s_pulse_status s \<ge> 0 then s else pulse s)"

definition performSearch :: "js_string \<Rightarrow> search_state \<Rightarrow> search_state" where
  "performSearch q s0 =
     (let s = startPulse s0 in if hasIndex s then run_query q s else deferQuery q s)"

text \<open>The start of the page: the query is the parameter \<open>q\<close> of the address.\<close>

definition Search_init :: "js_string \<Rightarrow> search_state \<Rightarrow> page_error + search_state" where
  "Search_init search s =
     (case getQueryParameters search of
        Inl err \<Rightarrow> Inl err
      | Inr params \<Rightarrow> Inr (case map_of params (J ''q'') of Some (q # _) \<Rightarrow> performSearch q s | _ \<Rightarrow> s))"

text \<open>When the request for the index fails, the address is loaded by the script element of the page.\<close>

definition loadIndex :: "js_string \<Rightarrow> js_string \<Rightarrow> js_string option" where
  "loadIndex url textstatus = (if textstatus \<noteq> J ''success'' then Some url else None)"

text \<open>What can happen to the object: a search, the arrival of the index, a pulse that is due, the end of the display of a
  query that was run.\<close>

inductive search_step :: "search_state \<Rightarrow> search_state \<Rightarrow> bool" where
  step_search: "search_step s (performSearch q s)"
| step_index: "search_step s (setIndex idx s)"
| step_pulse: "s_pulse_timers s = Suc n \<Longrightarrow> search_step s (pulse (s\<lparr>s_pulse_timers := n\<rparr>))"
| step_done: "s_ran s \<noteq> [] \<Longrightarrow> search_step s (stopPulse s)"

end
