(* ===== verification/Se_Properties.thy ===== *)
theory Se_Properties
  imports Js_Search
begin

text \<open>
  What the full-text search of \<open>searchtools.js\<close> returns, against a reference definition over the sets of files of the
  words, and what becomes of the pulse that shows that a search is running.
\<close>

section \<open>Reference\<close>

text \<open>The files of a word in one of the two tables of the index, and in both.\<close>

definition own_files :: "posting js_obj \<Rightarrow> js_string \<Rightarrow> nat list" where
  "own_files tab word = (case map_of tab word of None \<Rightarrow> [] | Some (One n) \<Rightarrow> [n] | Some (Many ns) \<Rightarrow> ns)"

definition word_files :: "search_index \<Rightarrow> js_string \<Rightarrow> nat list" where
  "word_files idx word = own_files (terms idx) word @ own_files (titleterms idx) word"

text \<open>
  The index lists a file for a word once: in the table of titles when the word is in the title, in the other table
  otherwise. The names of inherited properties are not words.
\<close>

definition clean_word :: "search_index \<Rightarrow> js_string \<Rightarrow> bool" where
  "clean_word idx w \<longleftrightarrow> w \<notin> set proto_keys \<and> distinct (word_files idx w)"

definition matching_files :: "search_index \<Rightarrow> js_string list \<Rightarrow> nat list" where
  "matching_files idx ws =
     filter (\<lambda>n. list_all (\<lambda>w. n \<in> set (word_files idx w)) ws) (sort (remdups (word_files idx (hd ws))))"

definition word_score :: "scorer \<Rightarrow> search_index \<Rightarrow> nat \<Rightarrow> js_string \<Rightarrow> int" where
  "word_score sc idx n w = (if n \<in> set (own_files (titleterms idx) w) then title_score sc else term_score sc)"

definition doc_row :: "scorer \<Rightarrow> search_index \<Rightarrow> js_string list \<Rightarrow> nat \<Rightarrow> result_row" where
  "doc_row sc idx ws n = \<lparr>r_docname = nth_opt (docnames idx) n, r_title = nth_opt (titles idx) n, r_anchor = [], r_descr = None,
     r_score = Max (set (map (word_score sc idx n) ws)), r_filename = nth_opt (filenames idx) n\<rparr>"

section \<open>Words of files\<close>

definition pushed :: "file_map \<Rightarrow> file_key \<Rightarrow> js_string list" where
  "pushed fm f = (case map_of fm f of Some ws \<Rightarrow> ws | None \<Rightarrow> [])"

definition file_keys :: "file_map \<Rightarrow> bool" where
  "file_keys fm \<longleftrightarrow> distinct (map fst fm) \<and> (\<forall>(f, ws) \<in> set fm. ws \<noteq> [] \<and> (\<exists>n. f = File n))"

lemma pushed_file_push [simp]: "pushed (file_push fm f w) g = pushed fm g @ (if g = f then [w] else [])"
  by (induction fm f w rule: file_push.induct) (auto simp: pushed_def)

lemma file_push_keys: "fst ` set (file_push fm f w) = insert f (fst ` set fm)"
  by (induction fm f w rule: file_push.induct) auto

lemma file_push_ok: "file_keys fm \<Longrightarrow> file_keys (file_push fm (File n) w)"
  by (induction fm "File n" w rule: file_push.induct) (auto simp: file_keys_def file_push_keys image_iff)

lemma push_all:
  assumes "distinct ns"
  shows "pushed (fold (\<lambda>f m. file_push m f w) (map File ns) fm) (File n) = pushed fm (File n) @ (if n \<in> set ns then [w] else [])"
  using assms by (induction ns arbitrary: fm) auto

lemma push_all_ok: "file_keys fm \<Longrightarrow> file_keys (fold (\<lambda>f m. file_push m f w) (map File ns) fm)"
  by (induction ns arbitrary: fm) (auto intro: file_push_ok)

lemma set_scores_files: "set_scores w x (map File ns) sm (File n, v) = (if v = w \<and> n \<in> set ns then Some x else sm (File n, v))"
proof -
  have "filter scored (map File ns) = map File ns" by (induction ns) (auto simp: scored_def)
  moreover have "fold (\<lambda>f m. m((f, w) \<mapsto> x)) (map File ns) sm (File n, v) = (if v = w \<and> n \<in> set ns then Some x else sm (File n, v))"
    by (induction ns arbitrary: sm) auto
  ultimately show ?thesis by (simp add: set_scores_def)
qed

lemma files_of_clean:
  "w \<notin> set proto_keys \<Longrightarrow> files_of tab w = (if map_of tab w = None then None else Some (map File (own_files tab w)))"
  by (auto simp: files_of_def obj_lookup_def own_files_def split: option.splits posting.splits)

lemma word_step_clean:
  assumes "w \<notin> set proto_keys"
  shows "word_step sc idx w (fm, sm) = (if map_of (terms idx) w = None \<and> map_of (titleterms idx) w = None then None
    else Some (fold (\<lambda>f m. file_push m f w) (map File (word_files idx w)) fm,
      set_scores w (title_score sc) (map File (own_files (titleterms idx) w))
        (set_scores w (term_score sc) (map File (own_files (terms idx) w)) sm)))"
  using assms by (auto simp: word_step_def files_of_clean word_files_def own_files_def Let_def split: option.splits)

section \<open>The loop over the words\<close>

lemma terms_loop_ok:
  assumes "list_all (clean_word idx) ws" and "file_keys fm"
  shows "file_keys (fst (terms_loop sc idx ws (fm, sm)))"
  using assms
  by (induction ws arbitrary: fm sm) (auto simp: word_step_clean clean_word_def push_all_ok split: option.splits if_splits)

lemma terms_loop_words:
  assumes "list_all (clean_word idx) ws"
  shows "\<exists>vs. pushed (fst (terms_loop sc idx ws (fm, sm))) (File n) = pushed fm (File n) @ vs \<and> length vs \<le> length ws \<and>
    (length vs = length ws \<longleftrightarrow> (\<forall>w \<in> set ws. n \<in> set (word_files idx w))) \<and> (length vs = length ws \<longrightarrow> vs = ws)"
  using assms
proof (induction ws arbitrary: fm sm)
  case (Cons w ws)
  have w: "w \<notin> set proto_keys" "distinct (word_files idx w)" using Cons.prems by (auto simp: clean_word_def)
  show ?case
  proof (cases "word_step sc idx w (fm, sm)")
    case None
    then have "word_files idx w = []" using w by (simp add: word_step_clean word_files_def own_files_def split: if_splits)
    then show ?thesis using None by simp
  next
    case (Some s)
    then have s: "fst s = fold (\<lambda>f m. file_push m f w) (map File (word_files idx w)) fm" using w by (auto simp: word_step_clean split: if_splits)
    obtain vs where vs: "pushed (fst (terms_loop sc idx ws (fst s, snd s))) (File n) = pushed (fst s) (File n) @ vs" "length vs \<le> length ws"
      "length vs = length ws \<longleftrightarrow> (\<forall>w \<in> set ws. n \<in> set (word_files idx w))" "length vs = length ws \<longrightarrow> vs = ws"
      using Cons.IH [of "fst s" "snd s"] Cons.prems by auto
    have "pushed (fst s) (File n) = pushed fm (File n) @ (if n \<in> set (word_files idx w) then [w] else [])"
      unfolding s by (rule push_all [OF w(2)])
    then show ?thesis using vs Some by (intro exI [of _ "(if n \<in> set (word_files idx w) then [w] else []) @ vs"]) auto
  qed
qed simp

lemma terms_loop_other:
  assumes "list_all (clean_word idx) ws" and "v \<notin> set ws"
  shows "snd (terms_loop sc idx ws (fm, sm)) (File n, v) = sm (File n, v)"
  using assms
  by (induction ws arbitrary: fm sm) (auto simp: word_step_clean clean_word_def set_scores_files split: option.splits if_splits)

lemma terms_loop_scores:
  assumes "list_all (clean_word idx) ws" and "distinct ws" and "\<forall>w \<in> set ws. n \<in> set (word_files idx w)" and "v \<in> set ws"
  shows "snd (terms_loop sc idx ws (fm, sm)) (File n, v) = Some (word_score sc idx n v)"
  using assms
proof (induction ws arbitrary: fm sm)
  case (Cons w ws)
  have w: "w \<notin> set proto_keys" "n \<in> set (word_files idx w)" using Cons.prems by (auto simp: clean_word_def)
  then have "\<not> (map_of (terms idx) w = None \<and> map_of (titleterms idx) w = None)" by (auto simp: word_files_def own_files_def)
  then obtain s where s: "word_step sc idx w (fm, sm) = Some s" "snd s (File n, w) = Some (word_score sc idx n w)"
    using w by (auto simp: word_step_clean set_scores_files word_score_def word_files_def)
  show ?case
  proof (cases "v = w")
    case True
    then show ?thesis using s Cons.prems terms_loop_other [of idx ws w sc "fst s" "snd s" n] by simp
  next
    case False
    then show ?thesis using s(1) Cons.prems Cons.IH [of "fst s" "snd s"] by simp
  qed
qed simp


section \<open>The search\<close>

lemma collect_rows_files:
  assumes "\<And>n. n \<in> set ns \<Longrightarrow> f (File n) = Inr (if P n then Some (g n) else None)"
  shows "collect_rows f (map File ns) = Inr (map g (filter P ns))"
  using assms by (induction ns) auto

lemma file_order_keys:
  assumes "file_keys fm"
  shows "\<exists>ns. file_order fm = map File ns \<and> sorted ns \<and> distinct ns \<and> (\<forall>n. n \<in> set ns \<longleftrightarrow> pushed fm (File n) \<noteq> [])"
proof -
  let ?ns = "concat (map (\<lambda>(f, _). case f of File n \<Rightarrow> [n] | Weird _ \<Rightarrow> []) fm)"
  have keys: "map fst fm = map File ?ns" and none: "filter (\<lambda>f. case f of File n \<Rightarrow> False | Weird _ \<Rightarrow> True) (map fst fm) = []"
    using assms by (induction fm) (auto simp: file_keys_def)
  have d: "distinct ?ns" using assms keys by (simp add: file_keys_def distinct_map)
  have "n \<in> set ?ns \<longleftrightarrow> pushed fm (File n) \<noteq> []" for n
  proof -
    have "n \<in> set ?ns \<longleftrightarrow> File n \<in> set (map fst fm)" unfolding keys by auto
    also have "\<dots> \<longleftrightarrow> map_of fm (File n) \<noteq> None" by (simp add: map_of_eq_None_iff)
    also have "\<dots> \<longleftrightarrow> pushed fm (File n) \<noteq> []"
      using assms by (auto simp: pushed_def file_keys_def dest: map_of_SomeD split: option.splits)
    finally show ?thesis .
  qed
  then show ?thesis using d none by (intro exI [of _ "sort ?ns"]) (simp add: file_order_def)
qed

lemma matching_files_unique:
  assumes "sorted ns" and "distinct ns" and "ws \<noteq> []" and "\<And>n. n \<in> set ns \<longleftrightarrow> (\<forall>w \<in> set ws. n \<in> set (word_files idx w))"
  shows "ns = matching_files idx ws"
proof (rule sorted_distinct_set_unique)
  show "set ns = set (matching_files idx ws)"
    using assms(3,4) by (auto simp: matching_files_def list_all_iff)
qed (use assms in \<open>auto simp: matching_files_def sorted_wrt_filter\<close>)

lemma performTermsSearch_clean:
  assumes "list_all (clean_word idx) ws" and "distinct ws" and "ws \<noteq> []"
  shows "performTermsSearch sc idx ws excl =
    Inr (map (doc_row sc idx ws) (filter (\<lambda>n. \<not> is_excluded idx excl (File n)) (matching_files idx ws)))"
proof -
  obtain fm sm where loop: "terms_loop sc idx ws ([], Map.empty) = (fm, sm)" by force
  have ok: "file_keys fm" using terms_loop_ok [OF assms(1), of "[]" sc Map.empty] loop by (simp add: file_keys_def)
  have words: "length (pushed fm (File n)) = length ws \<longleftrightarrow> (\<forall>w \<in> set ws. n \<in> set (word_files idx w))"
      "length (pushed fm (File n)) = length ws \<Longrightarrow> pushed fm (File n) = ws" for n
    using terms_loop_words [OF assms(1), of sc "[]" Map.empty n] loop by (auto simp: pushed_def)
  obtain ns where ns: "file_order fm = map File ns" "sorted ns" "distinct ns" "\<And>n. n \<in> set ns \<longleftrightarrow> pushed fm (File n) \<noteq> []"
    using file_order_keys [OF ok] by blast
  let ?P = "\<lambda>n. length (pushed fm (File n)) = length ws" and ?E = "\<lambda>n. is_excluded idx excl (File n)"
  let ?row = "\<lambda>f. let ws' = the (map_of fm f) in if length ws' \<noteq> length ws \<or> is_excluded idx excl f then Inr None
    else (case file_row idx sm f ws' of Inl err \<Rightarrow> Inl err | Inr r \<Rightarrow> Inr (Some r))"
  have look: "the (map_of fm (File n)) = pushed fm (File n)" if "n \<in> set ns" for n
    using that ns(4) by (auto simp: pushed_def split: option.splits)
  have row: "file_row idx sm (File n) ws = Inr (doc_row sc idx ws n)" if "?P n" for n
  proof -
    have "sm (File n, w) = Some (word_score sc idx n w)" if "w \<in> set ws" for w
      using terms_loop_scores [OF assms(1,2) _ that, of n sc "[]" Map.empty] loop words(1) \<open>?P n\<close> by simp
    then show ?thesis by (simp add: file_row_def scored_def doc_row_def cong: map_cong)
  qed
  have "?row (File n) = Inr (if ?P n \<and> \<not> ?E n then Some (doc_row sc idx ws n) else None)" if "n \<in> set ns" for n
    using look [OF that] row [of n] words(2) [of n] by (cases "?P n") (simp_all add: Let_def)
  then have "collect_rows ?row (map File ns) = Inr (map (doc_row sc idx ws) (filter (\<lambda>n. ?P n \<and> \<not> ?E n) ns))"
    by (rule collect_rows_files)
  moreover have "filter ?P ns = matching_files idx ws"
    using ns words assms(3) by (intro matching_files_unique) (auto simp: sorted_wrt_filter)
  then have "filter (\<lambda>n. ?P n \<and> \<not> ?E n) ns = filter (\<lambda>n. \<not> ?E n) (matching_files idx ws)"
    by (metis (no_types, lifting) filter_cong filter_filter)
  ultimately show ?thesis using loop ns(1) by (simp add: performTermsSearch_def)
qed

section \<open>The words of a query\<close>

lemma query_step_keeps:
  assumes "distinct (searchterms q)" and "excluded q = []" and "w \<noteq> []" and "hd w \<noteq> 45" and "lc w \<noteq> []" and "hd (lc w) \<noteq> 45"
  shows "distinct (searchterms (query_step lc stop w q)) \<and> excluded (query_step lc stop w q) = []"
proof -
  have "stemWord (lc w) \<noteq> [] \<and> hd (stemWord (lc w)) = hd (lc w)" using stemWord_shortens [of "lc w"] assms by (simp add: shortens_def)
  then have "charAt (if length (stemWord (lc w)) < 3 \<and> 3 \<le> length w then w else stemWord (lc w)) 0 \<noteq> J ''-''"
    using assms by (cases w; cases "stemWord (lc w)") (auto simp: charAt_def J_def)
  then show ?thesis using assms by (auto simp: query_step_def Let_def add_new_def)
qed

text \<open>Lower case makes no hyphen of a letter and leaves no word empty.\<close>

definition lower_case :: "(js_string \<Rightarrow> js_string) \<Rightarrow> bool" where
  "lower_case lc \<longleftrightarrow> (\<forall>w. w \<noteq> [] \<longrightarrow> hd w \<noteq> 45 \<longrightarrow> lc w \<noteq> [] \<and> hd (lc w) \<noteq> 45)"

lemma query_terms_ok:
  assumes "lower_case lc"
  shows "distinct (searchterms (query_terms_of lc stop query)) \<and> excluded (query_terms_of lc stop query) = []"
proof -
  have "splitChars 45" by (simp add: splitChars_def split_ranges_def)
  then have w: "w \<noteq> [] \<and> hd w \<noteq> 45" if "w \<in> set (splitQuery query)" for w
    using words_of_parts [of w splitChars query] that by (auto simp: splitQuery_words dest: hd_in_set)
  have "distinct (searchterms (fold (query_step lc stop) ws q)) \<and> excluded (fold (query_step lc stop) ws q) = []"
    if "\<forall>w \<in> set ws. w \<noteq> [] \<and> hd w \<noteq> 45" "distinct (searchterms q)" "excluded q = []" for ws q
    using that
  proof (induction ws arbitrary: q)
    case (Cons w ws)
    then show ?case using assms query_step_keeps [of q w lc stop] by (simp add: lower_case_def)
  qed simp
  then show ?thesis using w by (simp add: query_terms_of_def)
qed

section \<open>Properties\<close>


definition sample_index :: search_index where
  "sample_index = \<lparr>terms = [(J ''relai'', Many [0, 2]), (J ''nonc'', One 2)], titleterms = [(J ''relai'', One 1), (J ''nonc'', Many [1, 3])],
     docnames = map J [''a'', ''b'', ''c'', ''d''], filenames = map J [''a'', ''b'', ''c'', ''d''], titles = map J [''A'', ''B'', ''C'', ''D''],
     objects = [], objnames = []\<rparr>"

lemma letters_are_no_separators: "97 \<le> unat c \<Longrightarrow> unat c \<le> 122 \<Longrightarrow> \<not> splitChars c"
  by (auto simp: splitChars_def split_singles_def split_ranges_def)

lemma sample_words: "splitQuery (J ''nonce relay'') = [J ''nonce'', J ''relay'']"
proof -
  have "splitChars 32" by (simp add: splitChars_def split_ranges_def)
  then show ?thesis by (simp add: splitQuery_words words_of_def letters_are_no_separators)
qed


text \<open>A word that begins with a hyphen is meant to exclude documents. The query is split at hyphens, so that no query excludes anything.\<close>

theorem hyphen_never_excludes: "lower_case lc \<Longrightarrow> excluded (query_terms_of lc stop query) = []"
  by (simp add: query_terms_ok)

text \<open>A document that has one word both in its text and in its title counts twice: in an index that lists it in both tables it is found without the
  other word.\<close>

theorem twice_listed_word_counts_twice:
  "map_sum id (map r_docname) (performTermsSearch Scorer (sample_index\<lparr>terms := [(J ''relai'', One 0), (J ''nonc'', One 2)],
     titleterms := [(J ''relai'', One 0)]\<rparr>) [J ''relai'', J ''nonc''] []) = (Inr [Some (J ''a'')] :: page_error + js_string option list)"
  by code_simp

text \<open>Once a search has begun the pulse is never over: no query is queued or was run before the first pulse, and from then on there is always one timer for the
  next pulse, also after \<open>stopPulse\<close>.\<close>

theorem pulse_never_stops:
  assumes "search_step\<^sup>*\<^sup>* Search0 s"
  shows "if s_pulse_status s = -1 then s_pulse_timers s = 0 \<and> s_queued_query s = None \<and> s_ran s = []
    else 0 \<le> s_pulse_status s \<and> s_pulse_timers s = 1"
  using assms
proof (induction rule: rtranclp_induct)
  case (step s t)
  from step(2,3) show ?case
    by (cases rule: search_step.cases)
      (auto simp: performSearch_def startPulse_def pulse_def setIndex_def run_query_def deferQuery_def stopPulse_def Let_def split: option.splits if_splits)
qed (simp add: Search0_def)

end
