(* ===== verification/Ws_Comments.thy ===== *)
theory Ws_Comments
  imports Js_Page
begin

text \<open>
  The script \<open>websupport.js\<close>: the comments of a page. The page is a record of what the script reads and writes: which
  elements are hidden, which forms are disabled, the values of the text areas, the lists of comments, the messages
  shown and the requests sent. An animation is its final state. A request is answered later by one of
  the handlers \<open>..._success\<close> and \<open>..._error\<close>. The markup of a comment is its template, rendered by \<open>renderTemplate\<close>.
\<close>

section \<open>Growing text areas\<close>

text \<open>Math.ceil of the quotient, or 1 where that is 0 or not a number.\<close>

definition line_rows :: "nat \<Rightarrow> nat \<Rightarrow> nat" where
  "line_rows len columns = (let n = (if columns = 0 then 0 else (len + columns - 1) div columns) in if n = 0 then 1 else n)"

definition autogrow_resize :: "nat \<Rightarrow> nat \<Rightarrow> js_string \<Rightarrow> nat" where
  "autogrow_resize lineHeight columns val =
     (let lineCount = sum_list (map (\<lambda>l. line_rows (length l) columns) (split_char 10 val))
      in lineHeight * (lineCount + 1))"

text \<open>The text area is measured at once and then every half second while it has the focus.\<close>

record area =
  area_lineHeight :: nat
  area_cols :: nat
  area_text :: js_string
  area_height :: nat
  area_interval :: bool

definition area_resize :: "area \<Rightarrow> area" where
  "area_resize a = a\<lparr>area_height := autogrow_resize (area_lineHeight a) (area_cols a) (area_text a)\<rparr>"

definition autogrow :: "area list \<Rightarrow> area list" where
  "autogrow areas = map area_resize areas"

definition area_focus :: "area \<Rightarrow> area" where
  "area_focus a = a\<lparr>area_interval := True\<rparr>"

definition area_blur :: "area \<Rightarrow> area" where
  "area_blur a = a\<lparr>area_interval := False\<rparr>"

definition area_tick :: "area \<Rightarrow> area" where
  "area_tick a = (if area_interval a then area_resize a else a)"

section \<open>Comments\<close>

record comment =
  c_id :: js_string
  c_node :: js_string
  c_parent :: js_string
  c_text :: js_string
  c_username :: js_string
  c_rating :: int
  c_age :: int
  c_vote :: int
  c_displayed :: bool
  c_proposal_diff :: js_string
  c_delta :: js_string
  pretty_rating :: js_string
  css_class :: js_string

text \<open>The comments as the server sends them, and the items of a list on the page: a comment with its list of
  replies, or the notice that stands for a comment that awaits approval.\<close>

datatype ctree = CNode comment "ctree list"

datatype item = Shown comment "item list" | Moderated

record ws_opts =
  processVoteURL :: js_string
  addCommentURL :: js_string
  getCommentsURL :: js_string
  acceptCommentURL :: js_string
  deleteCommentURL :: js_string
  commentImage :: js_string
  closeCommentImage :: js_string
  loadingImage :: js_string
  commentBrightImage :: js_string
  upArrow :: js_string
  downArrow :: js_string
  upArrowPressed :: js_string
  downArrowPressed :: js_string
  voting :: bool
  moderator :: bool
  username :: "js_string option"

definition opts0 :: ws_opts where
  "opts0 = \<lparr>
     processVoteURL = J ''/_process_vote'',
     addCommentURL = J ''/_add_comment'',
     getCommentsURL = J ''/_get_comments'',
     acceptCommentURL = J ''/_accept_comment'',
     deleteCommentURL = J ''/_delete_comment'',
     commentImage = J ''/static/_static/comment.png'',
     closeCommentImage = J ''/static/_static/comment-close.png'',
     loadingImage = J ''/static/_static/ajax-loader.gif'',
     commentBrightImage = J ''/static/_static/comment-bright.png'',
     upArrow = J ''/static/_static/up.png'',
     downArrow = J ''/static/_static/down.png'',
     upArrowPressed = J ''/static/_static/up-pressed.png'',
     downArrowPressed = J ''/static/_static/down-pressed.png'',
     voting = False,
     moderator = False,
     username = None\<rparr>"

text \<open>The options of the page override the defaults.\<close>

definition configure :: "(ws_opts \<Rightarrow> ws_opts) option \<Rightarrow> ws_opts" where
  "configure COMMENT_OPTIONS = (case COMMENT_OPTIONS of Some override \<Rightarrow> override opts0 | None \<Rightarrow> opts0)"

section \<open>Comparison\<close>

text \<open>Ascending by a property fixed when the comparator is made, or descending by the property \<open>by\<close> names when it
  is called. The difference of properties that are no numbers is not a number: None.\<close>

datatype comparator = Asc js_string | Desc

definition comment_num :: "js_string \<Rightarrow> comment \<Rightarrow> int option" where
  "comment_num key c = (if key = J ''rating'' then Some (c_rating c)
     else if key = J ''age'' then Some (c_age c)
     else if key = J ''vote'' then Some (c_vote c) else None)"

definition num_diff :: "int option \<Rightarrow> int option \<Rightarrow> int option" where
  "num_diff a b = (case (a, b) of (Some x, Some y) \<Rightarrow> Some (x - y) | _ \<Rightarrow> None)"

definition comp_of :: "js_string \<Rightarrow> comparator \<Rightarrow> comment \<Rightarrow> comment \<Rightarrow> int option" where
  "comp_of by cmpr a b =
     (case cmpr of
        Asc i \<Rightarrow> num_diff (comment_num i a) (comment_num i b)
      | Desc \<Rightarrow> num_diff (comment_num by b) (comment_num by a))"

text \<open>\<open>sort\<close> takes an answer that is not a number for 0.\<close>

definition sort_cmp :: "(comment \<Rightarrow> comment \<Rightarrow> int option) \<Rightarrow> ctree \<Rightarrow> ctree \<Rightarrow> int" where
  "sort_cmp cmpr s t = (case (s, t) of (CNode a _, CNode b _) \<Rightarrow> (case cmpr a b of Some d \<Rightarrow> d | None \<Rightarrow> 0))"

fun tree_children :: "ctree \<Rightarrow> ctree list" where
  "tree_children (CNode c ts) = ts"

fun sortComment :: "(comment \<Rightarrow> comment \<Rightarrow> int option) \<Rightarrow> ctree \<Rightarrow> ctree" where
  "sortComment cmpr (CNode c ts) = CNode c (js_sort (sort_cmp cmpr) (map (sortComment cmpr) ts))"

text \<open>The list is sorted before its members' lists are, which the comparison does not look at.\<close>

definition sortComments :: "(comment \<Rightarrow> comment \<Rightarrow> int option) \<Rightarrow> ctree list \<Rightarrow> ctree list" where
  "sortComments cmpr comments = map (sortComment cmpr) (js_sort (sort_cmp cmpr) comments)"

section \<open>The page\<close>

datatype request =
    GetComments js_string
  | AddComment js_string js_string js_string js_string
  | AcceptComment js_string
  | DeleteComment js_string
  | ProcessVote js_string int

record page =
  sort_by :: js_string
  cmpr :: comparator
  cookie :: js_string
  selected :: js_string
  hidden :: "js_string set"
  removed :: "js_string set"
  disabled :: "js_string set"
  field :: "js_string \<Rightarrow> js_string"
  proposal_source :: "js_string \<Rightarrow> js_string"
  lists :: "(js_string \<times> item list) list"
  empty_lists :: "js_string set"
  messages_shown :: "js_string list"
  requests :: "request list"
  bright :: "js_string set"
  no_moderation :: "js_string set"
  focus :: "js_string option"

definition hide_el :: "string \<Rightarrow> js_string \<Rightarrow> page \<Rightarrow> page" where
  "hide_el pre i p = p\<lparr>hidden := insert (J pre @ i) (hidden p)\<rparr>"

definition show_el :: "string \<Rightarrow> js_string \<Rightarrow> page \<Rightarrow> page" where
  "show_el pre i p = p\<lparr>hidden := hidden p - {J pre @ i}\<rparr>"

definition remove_el :: "string \<Rightarrow> js_string \<Rightarrow> page \<Rightarrow> page" where
  "remove_el pre i p = p\<lparr>removed := insert (J pre @ i) (removed p)\<rparr>"

definition insert_el :: "string \<Rightarrow> js_string \<Rightarrow> page \<Rightarrow> page" where
  "insert_el pre i p = p\<lparr>removed := removed p - {J pre @ i}\<rparr>"

definition showError :: "js_string \<Rightarrow> page \<Rightarrow> page" where
  "showError message p = p\<lparr>messages_shown := messages_shown p @ [message]\<rparr>"

definition send :: "request \<Rightarrow> page \<Rightarrow> page" where
  "send r p = p\<lparr>requests := requests p @ [r]\<rparr>"

section \<open>Sorting order\<close>

definition setComparator :: "page \<Rightarrow> page" where
  "setComparator p =
     p\<lparr>cmpr := (if substring (sort_by p) 0 3 = J ''asc'' then Asc (substring1 (sort_by p) 3) else Desc),
       selected := sort_by p\<rparr>"

text \<open>\<open>unescape_uri\<close> is the standard function \<open>unescape\<close>, and \<open>escape_uri\<close> the function \<open>escape\<close>.\<close>

definition initComparator :: "(js_string \<Rightarrow> js_string) \<Rightarrow> page \<Rightarrow> page" where
  "initComparator unescape_uri p0 =
     (let p = p0\<lparr>sort_by := J ''rating''\<rparr>;
          start0 = indexOf (cookie p) (J ''sortBy='')
      in setComparator
           (if length (cookie p) > 0 \<and> start0 \<noteq> -1 then
              (let start = start0 + 7; stop = indexOf_from (cookie p) (J '';'') (nat start)
               in if stop = -1
                  then p\<lparr>sort_by := unescape_uri (substring (cookie p) start (int (length (cookie p))))\<rparr>
                  else p)
            else p))"

section \<open>Templates\<close>

text \<open>The strings of the source, with a tilde for each quotation mark.\<close>

definition tmpl :: "string list \<Rightarrow> js_string" where
  "tmpl ls = J (map (\<lambda>c. if c = CHR ''~'' then CHR 0x22 else c) (concat ls))"

definition popupTemplate :: js_string where
  "popupTemplate = tmpl [
     ''    <div class=~sphinx-comments~ id=~sc<%id%>~>'',
     ''      <p class=~sort-options~>'',
     ''        Sort by:'',
     ''        <a href=~#~ class=~sort-option byrating~>best rated</a>'',
     ''        <a href=~#~ class=~sort-option byascage~>newest</a>'',
     ''        <a href=~#~ class=~sort-option byage~>oldest</a>'',
     ''      </p>'',
     ''      <div class=~comment-header~>Comments</div>'',
     ''      <div class=~comment-loading~ id=~cn<%id%>~>'',
     ''        loading comments... <img src=~<%loadingImage%>~ alt=~~ /></div>'',
     ''      <ul id=~cl<%id%>~ class=~comment-ul~></ul>'',
     ''      <div id=~ca<%id%>~>'',
     ''      <p class=~add-a-comment~>Add a comment'',
     ''        (<a href=~#~ class=~comment-markup~ id=~ab<%id%>~>markup</a>):</p>'',
     ''      <div class=~comment-markup-box~ id=~mb<%id%>~>'',
     ''        reStructured text markup: <i>*emph*</i>, <b>**strong**</b>, '',
     ''        <code>``code``</code>, '',
     ''        code blocks: <code>::</code> and an indented block after blank line</div>'',
     ''      <form method=~post~ id=~cf<%id%>~ class=~comment-form~ action=~~>'',
     ''        <textarea name=~comment~ cols=~80~></textarea>'',
     ''        <p class=~propose-button~>'',
     ''          <a href=~#~ id=~pc<%id%>~ class=~show-propose-change~>'',
     ''            Propose a change &#9657;'',
     ''          </a>'',
     ''          <a href=~#~ id=~hc<%id%>~ class=~hide-propose-change~>'',
     ''            Propose a change &#9663;'',
     ''          </a>'',
     ''        </p>'',
     ''        <textarea name=~proposal~ id=~pt<%id%>~ cols=~80~'',
     ''                  spellcheck=~false~></textarea>'',
     ''        <input type=~submit~ value=~Add comment~ />'',
     ''        <input type=~hidden~ name=~node~ value=~<%id%>~ />'',
     ''        <input type=~hidden~ name=~parent~ value=~~ />'',
     ''      </form>'',
     ''      </div>'',
     ''    </div>'']"

definition commentTemplate :: js_string where
  "commentTemplate = tmpl [
     ''    <div id=~cd<%id%>~ class=~sphinx-comment<%css_class%>~>'',
     ''      <div class=~vote~>'',
     ''        <div class=~arrow~>'',
     ''          <a href=~#~ id=~uv<%id%>~ class=~vote~ title=~vote up~>'',
     ''            <img src=~<%upArrow%>~ />'',
     ''          </a>'',
     ''          <a href=~#~ id=~uu<%id%>~ class=~un vote~ title=~vote up~>'',
     ''            <img src=~<%upArrowPressed%>~ />'',
     ''          </a>'',
     ''        </div>'',
     ''        <div class=~arrow~>'',
     ''          <a href=~#~ id=~dv<%id%>~ class=~vote~ title=~vote down~>'',
     ''            <img src=~<%downArrow%>~ id=~da<%id%>~ />'',
     ''          </a>'',
     ''          <a href=~#~ id=~du<%id%>~ class=~un vote~ title=~vote down~>'',
     ''            <img src=~<%downArrowPressed%>~ />'',
     ''          </a>'',
     ''        </div>'',
     ''      </div>'',
     ''      <div class=~comment-content~>'',
     ''        <p class=~tagline comment~>'',
     ''          <span class=~user-id~><%username%></span>'',
     ''          <span class=~rating~><%pretty_rating%></span>'',
     ''          <span class=~delta~><%time.delta%></span>'',
     ''        </p>'',
     ''        <div class=~comment-text comment~><#text#></div>'',
     ''        <p class=~comment-opts comment~>'',
     ''          <a href=~#~ class=~reply hidden~ id=~rl<%id%>~>reply &#9657;</a>'',
     ''          <a href=~#~ class=~close-reply~ id=~cr<%id%>~>reply &#9663;</a>'',
     ''          <a href=~#~ id=~sp<%id%>~ class=~show-proposal~>proposal &#9657;</a>'',
     ''          <a href=~#~ id=~hp<%id%>~ class=~hide-proposal~>proposal &#9663;</a>'',
     ''          <a href=~#~ id=~dc<%id%>~ class=~delete-comment hidden~>delete</a>'',
     ''          <span id=~cm<%id%>~ class=~moderation hidden~>'',
     ''            <a href=~#~ id=~ac<%id%>~ class=~accept-comment~>accept</a>'',
     ''          </span>'',
     ''        </p>'',
     ''        <pre class=~proposal~ id=~pr<%id%>~>'',
     ''<#proposal_diff#>'',
     ''        </pre>'',
     ''          <ul class=~comment-children~ id=~cl<%id%>~></ul>'',
     ''        </div>'',
     ''        <div class=~clearleft~></div>'',
     ''      </div>'',
     ''    </div>'']"

definition replyTemplate :: js_string where
  "replyTemplate = tmpl [
     ''    <li>'',
     ''      <div class=~reply-div~ id=~rd<%id%>~>'',
     ''        <form id=~rf<%id%>~>'',
     ''          <textarea name=~comment~ cols=~80~></textarea>'',
     ''          <input type=~submit~ value=~Add reply~ />'',
     ''          <input type=~button~ value=~Cancel~ />'',
     ''          <input type=~hidden~ name=~parent~ value=~<%id%>~ />'',
     ''          <input type=~hidden~ name=~node~ value=~~ />'',
     ''        </form>'',
     ''      </div>'',
     ''    </li>'']"

text \<open>The values a placeholder can name.\<close>

datatype ctx = VUndef | VStr js_string | VNum int | VBool bool | VObj "(js_string \<times> ctx) list"

text \<open>A property read: undefined has none, a primitive has none of the names used.\<close>

definition ctx_get :: "ctx \<Rightarrow> js_string \<Rightarrow> page_error + ctx" where
  "ctx_get v k = (case v of
     VUndef \<Rightarrow> Inl TypeErr
   | VObj ps \<Rightarrow> Inr (case map_of ps k of Some w \<Rightarrow> w | None \<Rightarrow> VUndef)
   | _ \<Rightarrow> Inr VUndef)"

fun ctx_path :: "ctx \<Rightarrow> js_string list \<Rightarrow> page_error + ctx" where
  "ctx_path v [] = Inr v"
| "ctx_path v (k # ks) = (case ctx_get v k of Inl e \<Rightarrow> Inl e | Inr w \<Rightarrow> ctx_path w ks)"

definition ctx_string :: "ctx \<Rightarrow> js_string" where
  "ctx_string v = (case v of VUndef \<Rightarrow> J ''undefined'' | VStr s \<Rightarrow> s | VNum n \<Rightarrow> show_int n
     | VBool b \<Rightarrow> (if b then J ''true'' else J ''false'') | VObj _ \<Rightarrow> J ''[object Object]'')"

definition ctx_truthy :: "ctx \<Rightarrow> bool" where
  "ctx_truthy v = (case v of VUndef \<Rightarrow> False | VStr s \<Rightarrow> s \<noteq> [] | VNum n \<Rightarrow> n \<noteq> 0 | VBool b \<Rightarrow> b | VObj _ \<Rightarrow> True)"

text \<open>The markup of a text node.\<close>

definition html_escape :: "js_string \<Rightarrow> js_string" where
  "html_escape s = concat (map (\<lambda>c. if c = 38 then J ''&amp;'' else if c = 60 then J ''&lt;''
     else if c = 62 then J ''&gt;'' else if c = 160 then J ''&nbsp;'' else [c]) s)"

definition handle_placeholder :: "ctx \<Rightarrow> js_string \<Rightarrow> bool \<Rightarrow> page_error + js_string" where
  "handle_placeholder context ph esc =
     (case ctx_path context (split_char 46 ph) of
        Inl e \<Rightarrow> Inl e
      | Inr cur \<Rightarrow> Inr (if esc then html_escape (if ctx_truthy cur then ctx_string cur else []) else ctx_string cur))"

text \<open>A placeholder at the front of the text: its kind, its name and the rest.\<close>

definition placeholder :: "js_string \<Rightarrow> (js_char \<times> js_string \<times> js_string) option" where
  "placeholder s =
     (case s of
        lt # k # r \<Rightarrow>
          if lt = 60 \<and> (k = 37 \<or> k = 35) then
            (let name = takeWhile is_word_dot r; r' = dropWhile is_word_dot r
             in case r' of
                  k' # gt # rest \<Rightarrow> if k' = k \<and> gt = 62 then Some (k, name, rest) else None
                | _ \<Rightarrow> None)
          else None
      | _ \<Rightarrow> None)"

lemma placeholder_length: "placeholder s = Some (k, name, r) \<Longrightarrow> length r < length s"
proof -
  assume a: "placeholder s = Some (k, name, r)"
  then obtain x y t where s: "s = x # y # t" by (auto simp: placeholder_def split: list.splits)
  then obtain a b where "dropWhile is_word_dot t = a # b # r"
    using a by (auto simp: placeholder_def Let_def split: list.splits if_splits)
  then show ?thesis using s length_dropWhile_le [of is_word_dot t] by simp
qed

function renderTemplate :: "js_string \<Rightarrow> ctx \<Rightarrow> page_error + js_string" where
  "renderTemplate [] context = Inr []"
| "renderTemplate (c # s) context =
     (case placeholder (c # s) of
        Some (k, name, r) \<Rightarrow>
          (case handle_placeholder context name (k = 37) of
             Inl e \<Rightarrow> Inl e
           | Inr v \<Rightarrow> (case renderTemplate r context of Inl e \<Rightarrow> Inl e | Inr rest \<Rightarrow> Inr (v @ rest)))
      | None \<Rightarrow> (case renderTemplate s context of Inl e \<Rightarrow> Inl e | Inr rest \<Rightarrow> Inr (c # rest)))"
  by pat_completeness auto
termination
  by (relation "measure (\<lambda>(s, _). length s)") (auto dest: placeholder_length)

definition opts_context :: "ws_opts \<Rightarrow> (js_string \<times> ctx) list" where
  "opts_context opts = [
     (J ''processVoteURL'', VStr (processVoteURL opts)), (J ''addCommentURL'', VStr (addCommentURL opts)),
     (J ''getCommentsURL'', VStr (getCommentsURL opts)), (J ''acceptCommentURL'', VStr (acceptCommentURL opts)),
     (J ''deleteCommentURL'', VStr (deleteCommentURL opts)), (J ''commentImage'', VStr (commentImage opts)),
     (J ''closeCommentImage'', VStr (closeCommentImage opts)), (J ''loadingImage'', VStr (loadingImage opts)),
     (J ''commentBrightImage'', VStr (commentBrightImage opts)), (J ''upArrow'', VStr (upArrow opts)),
     (J ''downArrow'', VStr (downArrow opts)), (J ''upArrowPressed'', VStr (upArrowPressed opts)),
     (J ''downArrowPressed'', VStr (downArrowPressed opts)), (J ''voting'', VBool (voting opts)),
     (J ''moderator'', VBool (moderator opts))]"

definition comment_context :: "comment \<Rightarrow> (js_string \<times> ctx) list" where
  "comment_context c = [
     (J ''id'', VStr (c_id c)), (J ''username'', VStr (c_username c)), (J ''text'', VStr (c_text c)),
     (J ''rating'', VNum (c_rating c)), (J ''pretty_rating'', VStr (pretty_rating c)), (J ''css_class'', VStr (css_class c)),
     (J ''time'', VObj [(J ''delta'', VStr (c_delta c))]), (J ''proposal_diff'', VStr (c_proposal_diff c))]"

text \<open>\<open>$.extend({}, opts, comment)\<close>: the properties of the comment come last and win.\<close>

definition comment_html :: "ws_opts \<Rightarrow> comment \<Rightarrow> page_error + js_string" where
  "comment_html opts c = renderTemplate commentTemplate (VObj (comment_context c @ opts_context opts))"

section \<open>Comment elements\<close>

definition points :: "int \<Rightarrow> js_string" where
  "points rating = show_int rating @ J '' point'' @ (if rating = 1 then [] else J ''s'')"

definition prepare :: "comment \<Rightarrow> comment" where
  "prepare c = c\<lparr>pretty_rating := points (c_rating c), css_class := (if c_displayed c then [] else J '' moderate'')\<rparr>"

text \<open>The links of a new element that are hidden by the style sheet.\<close>

definition initially_hidden :: "js_string \<Rightarrow> js_string set" where
  "initially_hidden i = (\<lambda>pre. J pre @ i) ` {''rl'', ''cr'', ''sp'', ''hp'', ''dc'', ''cm'', ''uu'', ''du'', ''pr''}"

definition show_vote :: "comment \<Rightarrow> page \<Rightarrow> page" where
  "show_vote c p =
     (if c_vote c \<noteq> 0 then
        (let direction = (if c_vote c = 1 then ''u'' else ''d'')
         in show_el (direction @ ''u'') (c_id c) (hide_el (direction @ ''v'') (c_id c) p))
      else p)"

definition show_options :: "ws_opts \<Rightarrow> comment \<Rightarrow> page \<Rightarrow> page" where
  "show_options opts c p =
     (if moderator opts \<or> c_text c \<noteq> J ''[deleted]'' then
        (let p1 = show_el ''rl'' (c_id c) p;
             p2 = (if c_proposal_diff c \<noteq> [] then show_el ''sp'' (c_id c) p1 else p1);
             p3 = (if moderator opts \<and> \<not> c_displayed c then show_el ''cm'' (c_id c) p2 else p2)
         in if moderator opts \<or> username opts = Some (c_username c) then show_el ''dc'' (c_id c) p3 else p3)
      else p)"

definition createCommentDiv :: "ws_opts \<Rightarrow> comment \<Rightarrow> page \<Rightarrow> comment option \<times> page" where
  "createCommentDiv opts c p =
     (if \<not> c_displayed c \<and> \<not> moderator opts then (None, p)
      else
        (Some (prepare c),
         show_options opts c (show_vote c
           (p\<lparr>hidden := (hidden p - {J ''uv'' @ c_id c, J ''dv'' @ c_id c}) \<union> initially_hidden (c_id c),
              removed := removed p - {J ''cd'' @ c_id c}\<rparr>))))"

fun appendComment :: "ws_opts \<Rightarrow> ctree \<Rightarrow> page \<Rightarrow> item \<times> page"
  and appendComments :: "ws_opts \<Rightarrow> ctree list \<Rightarrow> page \<Rightarrow> item list \<times> page" where
  "appendComment opts (CNode c ts) p =
     (case createCommentDiv opts c p of
        (None, p') \<Rightarrow> (Moderated, snd (appendComments opts ts p'))
      | (Some c', p') \<Rightarrow> (let (items, p'') = appendComments opts ts p' in (Shown c' items, p'')))"
| "appendComments opts [] p = ([], p)"
| "appendComments opts (t # ts) p =
     (let (i, p1) = appendComment opts t p; (is, p2) = appendComments opts ts p1 in (i # is, p2))"

text \<open>The comments of the elements of a list, with or without their replies.\<close>

fun getChildren :: "bool \<Rightarrow> item list \<Rightarrow> ctree list" where
  "getChildren recursive [] = []"
| "getChildren recursive (Moderated # is) = getChildren recursive is"
| "getChildren recursive (Shown c ks # is) =
     CNode c (if recursive then getChildren True ks else []) # getChildren recursive is"

section \<open>Inserting\<close>

text \<open>The place of a new element: before the first comment that the new one is not after.\<close>

fun insert_item :: "(comment \<Rightarrow> int option) \<Rightarrow> item \<Rightarrow> item list \<Rightarrow> item list" where
  "insert_item cmp new [] = [new]"
| "insert_item cmp new (Moderated # is) = Moderated # insert_item cmp new is"
| "insert_item cmp new (Shown c ks # is) =
     (if (case cmp c of Some d \<Rightarrow> d \<le> 0 | None \<Rightarrow> False) then new # Shown c ks # is
      else Shown c ks # insert_item cmp new is)"

text \<open>Change the list of replies of a comment, wherever it is.\<close>

fun update_replies :: "js_string \<Rightarrow> (item list \<Rightarrow> item list) \<Rightarrow> item \<Rightarrow> item" where
  "update_replies i f Moderated = Moderated"
| "update_replies i f (Shown c ks) = Shown c (if c_id c = i then f ks else map (update_replies i f) ks)"

definition update_list :: "js_string \<Rightarrow> (item list \<Rightarrow> item list) \<Rightarrow> page \<Rightarrow> page" where
  "update_list i f p =
     p\<lparr>lists := map (\<lambda>(n, items). (n, if n = i then f items else map (update_replies i f) items)) (lists p)\<rparr>"

definition insertComment :: "ws_opts \<Rightarrow> comment \<Rightarrow> page \<Rightarrow> page" where
  "insertComment opts c p0 =
     (let (d, p) = createCommentDiv opts c p0;
          target = (if c_node c \<noteq> [] then c_node c else c_parent c);
          new = (case d of Some c' \<Rightarrow> Shown c' [] | None \<Rightarrow> Moderated)
      in update_list target (insert_item (\<lambda>s. comp_of (sort_by p) (cmpr p) c s) new) p)"

section \<open>Handlers\<close>

definition resort_list :: "ws_opts \<Rightarrow> item list \<Rightarrow> page \<Rightarrow> item list \<times> page" where
  "resort_list opts items p =
     appendComments opts (sortComments (comp_of (sort_by p) (cmpr p)) (getChildren True items)) p"

fun resort_all :: "ws_opts \<Rightarrow> (js_string \<times> item list) list \<Rightarrow> page \<Rightarrow> (js_string \<times> item list) list \<times> page" where
  "resort_all opts [] p = ([], p)"
| "resort_all opts ((n, items) # ls) p =
     (let (items', p1) = resort_list opts items p; (ls', p2) = resort_all opts ls p1 in ((n, items') # ls', p2))"

definition handleReSort :: "(js_string \<Rightarrow> js_string) \<Rightarrow> ws_opts \<Rightarrow> js_string \<Rightarrow> js_string \<Rightarrow> page \<Rightarrow> page" where
  "handleReSort escape_uri opts link_class expires p0 =
     (let p1 = fold (\<lambda>c p. if c \<noteq> J ''sort-option'' then p\<lparr>sort_by := substring1 c 2\<rparr> else p) (split_ws link_class) p0;
          p2 = setComparator p1;
          p3 = p2\<lparr>cookie := J ''sortBy='' @ escape_uri (sort_by p2) @ J '';expires='' @ expires\<rparr>;
          (ls, p4) = resort_all opts (lists p3) p3
      in p4\<lparr>lists := ls\<rparr>)"

definition show_popup :: "ws_opts \<Rightarrow> js_string \<Rightarrow> page \<Rightarrow> page" where
  "show_popup opts i p0 =
     (let p1 = show_el ''ah'' i (hide_el ''ao'' i p0);
          p2 = insert_el ''sc'' i (show_el ''sc'' i (hide_el ''pt'' i p1));
          p3 = p2\<lparr>lists := filter (\<lambda>(n, _). n \<noteq> i) (lists p2) @ [(i, [])], selected := sort_by p2\<rparr>
      in send (GetComments i) p3)"

definition hide_popup :: "js_string \<Rightarrow> page \<Rightarrow> page" where
  "hide_popup i p =
     (let p1 = remove_el ''sc'' i (show_el ''ao'' i (hide_el ''ah'' i p))
      in p1\<lparr>lists := filter (\<lambda>(n, _). n \<noteq> i) (lists p1)\<rparr>)"

definition getComments_success :: "ws_opts \<Rightarrow> js_string \<Rightarrow> js_string \<Rightarrow> ctree list \<Rightarrow> page \<Rightarrow> page" where
  "getComments_success opts i source comments p0 =
     (let p1 = p0\<lparr>proposal_source := (proposal_source p0)(i := source)\<rparr>;
          p2 = (if comments = [] then p1\<lparr>empty_lists := insert i (empty_lists p1)\<rparr>
                else let (items, p') = appendComments opts (sortComments (comp_of (sort_by p1) (cmpr p1)) comments) p1
                     in (update_list i (\<lambda>is. is @ items) p')\<lparr>empty_lists := empty_lists p' - {i}\<rparr>)
      in show_el ''cl'' i (hide_el ''cn'' i p2))"

definition getComments_error :: "page \<Rightarrow> page" where
  "getComments_error p = showError (J ''Oops, there was a problem retrieving the comments.'') p"

text \<open>A form: its identifier, and the values of its fields.\<close>

record form =
  form_id :: js_string
  form_node :: js_string
  form_parent :: js_string
  form_text :: js_string
  form_proposal :: js_string

definition addComment :: "form \<Rightarrow> page \<Rightarrow> page" where
  "addComment f p =
     (if form_text f = [] then showError (J ''Please enter a comment.'') p
      else send (AddComment (form_node f) (form_parent f) (form_text f) (form_proposal f))
             (p\<lparr>disabled := insert (form_id f) (disabled p)\<rparr>))"

definition hideProposeChange :: "js_string \<Rightarrow> page \<Rightarrow> page" where
  "hideProposeChange i p =
     (let p1 = show_el ''pc'' i (hide_el ''hc'' i p)
      in hide_el ''pt'' i (p1\<lparr>field := (field p1)(J ''pt'' @ i := []), disabled := disabled p1 - {J ''pt'' @ i}\<rparr>))"

definition addComment_success :: "ws_opts \<Rightarrow> form \<Rightarrow> comment \<Rightarrow> page \<Rightarrow> page" where
  "addComment_success opts f c p0 =
     (let node_id = form_node f;
          p1 = (if node_id \<noteq> [] then hideProposeChange node_id p0 else p0);
          p2 = p1\<lparr>field := (field p1)(form_id f := []), disabled := disabled p1 - {form_id f}\<rparr>;
          target = (if node_id \<noteq> [] then node_id else form_parent f);
          p3 = (if target \<in> empty_lists p2
                then (update_list target (\<lambda>_. []) p2)\<lparr>empty_lists := empty_lists p2 - {target}\<rparr> else p2);
          p4 = insertComment opts c p3;
          p5 = p4\<lparr>bright := insert (J ''ao'' @ node_id) (bright p4)\<rparr>
      in if node_id \<noteq> [] then hide_el ''ca'' node_id p5 else p5)"

definition addComment_error :: "form \<Rightarrow> page \<Rightarrow> page" where
  "addComment_error f p =
     showError (J ''Oops, there was a problem adding the comment.'') (p\<lparr>disabled := disabled p - {form_id f}\<rparr>)"

definition acceptComment :: "js_string \<Rightarrow> page \<Rightarrow> page" where
  "acceptComment i p = send (AcceptComment i) p"

definition acceptComment_success :: "js_string \<Rightarrow> page \<Rightarrow> page" where
  "acceptComment_success i p = (hide_el ''cm'' i p)\<lparr>no_moderation := insert i (no_moderation p)\<rparr>"

definition acceptComment_error :: "page \<Rightarrow> page" where
  "acceptComment_error p = showError (J ''Oops, there was a problem accepting the comment.'') p"

definition deleteComment :: "js_string \<Rightarrow> page \<Rightarrow> page" where
  "deleteComment i p = send (DeleteComment i) p"

text \<open>Change the comment of an element, or remove the element with its replies.\<close>

fun map_comment :: "js_string \<Rightarrow> (comment \<Rightarrow> comment) \<Rightarrow> item \<Rightarrow> item" where
  "map_comment i f Moderated = Moderated"
| "map_comment i f (Shown c ks) = Shown (if c_id c = i then f c else c) (map (map_comment i f) ks)"

fun drop_comment :: "js_string \<Rightarrow> item \<Rightarrow> item list" where
  "drop_comment i Moderated = [Moderated]"
| "drop_comment i (Shown c ks) = (if c_id c = i then [] else [Shown c (concat (map (drop_comment i) ks))])"

definition deleteComment_success :: "js_string \<Rightarrow> js_string \<Rightarrow> page \<Rightarrow> page" where
  "deleteComment_success i data p =
     (if data = J ''delete''
      then p\<lparr>lists := map (\<lambda>(n, items). (n, concat (map (drop_comment i) items))) (lists p),
             removed := insert (J ''cd'' @ i) (removed p)\<rparr>
      else
        p\<lparr>lists := map (\<lambda>(n, items). (n, map (map_comment i
              (\<lambda>c. c\<lparr>c_username := J ''[deleted]'', c_text := J ''[deleted]''\<rparr>)) items)) (lists p),
          removed := removed p \<union> (\<lambda>pre. J pre @ i) ` {''cm'', ''dc'', ''ac'', ''rc'', ''sp'', ''hp'', ''cr'', ''rl''}\<rparr>)"

definition deleteComment_error :: "page \<Rightarrow> page" where
  "deleteComment_error p = showError (J ''Oops, there was a problem deleting the comment.'') p"

definition showProposal :: "js_string \<Rightarrow> page \<Rightarrow> page" where
  "showProposal i p = show_el ''pr'' i (show_el ''hp'' i (hide_el ''sp'' i p))"

definition hideProposal :: "js_string \<Rightarrow> page \<Rightarrow> page" where
  "hideProposal i p = hide_el ''pr'' i (show_el ''sp'' i (hide_el ''hp'' i p))"

definition showProposeChange :: "js_string \<Rightarrow> page \<Rightarrow> page" where
  "showProposeChange i p =
     (let p1 = show_el ''hc'' i (hide_el ''pc'' i p)
      in show_el ''pt'' i (p1\<lparr>field := (field p1)(J ''pt'' @ i := proposal_source p1 i)\<rparr>))"

definition toggleCommentMarkupBox :: "js_string \<Rightarrow> page \<Rightarrow> page" where
  "toggleCommentMarkupBox i p = (if J ''mb'' @ i \<in> hidden p then show_el ''mb'' i p else hide_el ''mb'' i p)"

definition openReply :: "js_string \<Rightarrow> page \<Rightarrow> page" where
  "openReply i p =
     (let p1 = show_el ''cr'' i (hide_el ''rl'' i p)
      in (insert_el ''rd'' i p1)\<lparr>focus := Some (J ''rf'' @ i)\<rparr>)"

definition closeReply :: "js_string \<Rightarrow> page \<Rightarrow> page" where
  "closeReply i p = show_el ''rl'' i (hide_el ''cr'' i (remove_el ''rd'' i p))"

text \<open>The submission of a reply sends the comment and closes the form, also when the text was empty.\<close>

definition submitReply :: "form \<Rightarrow> js_string \<Rightarrow> page \<Rightarrow> page" where
  "submitReply f i p = closeReply i (addComment f p)"

section \<open>Votes\<close>

fun find_comment :: "js_string \<Rightarrow> item \<Rightarrow> comment list" where
  "find_comment i Moderated = []"
| "find_comment i (Shown c ks) = (if c_id c = i then [c] else []) @ concat (map (find_comment i) ks)"

definition lookup_comment :: "js_string \<Rightarrow> page \<Rightarrow> comment option" where
  "lookup_comment i p =
     (case concat (map (\<lambda>(n, items). concat (map (find_comment i) items)) (lists p)) of c # _ \<Rightarrow> Some c | [] \<Rightarrow> None)"

definition vote_value :: "js_string \<Rightarrow> int" where
  "vote_value link = (if charAt link 1 \<noteq> J ''u'' then (if charAt link 0 = J ''u'' then 1 else -1) else 0)"

definition cast_vote :: "int \<Rightarrow> comment \<Rightarrow> comment" where
  "cast_vote v c = c\<lparr>c_rating := c_rating c + (if c_vote c = 0 then v else v - c_vote c), c_vote := v,
     pretty_rating := points (c_rating c + (if c_vote c = 0 then v else v - c_vote c))\<rparr>"

definition handleVote :: "ws_opts \<Rightarrow> js_string \<Rightarrow> page \<Rightarrow> page_error + page" where
  "handleVote opts link p0 =
     (if \<not> voting opts then Inr (showError (J ''You'' @ [39] @ J ''ll need to login to vote.'') p0)
      else if link = [] then Inr p0
      else
        let v = vote_value link;
            i = substring1 link 2;
            p1 = p0\<lparr>hidden := insert link (hidden p0)\<rparr>;
            p2 = p1\<lparr>hidden := hidden p1 - {charAt link 0 @ (if charAt link 1 = J ''u'' then J ''v'' else J ''u'') @ i}\<rparr>
        in case lookup_comment i p2 of
             None \<Rightarrow> Inl TypeErr
           | Some c \<Rightarrow>
               (let other = (if v = 1 then ''d'' else ''u'');
                    p3 = (if v \<noteq> 0 \<and> c_vote c = - v
                          then show_el (other @ ''v'') i (hide_el (other @ ''u'') i p2) else p2);
                    p4 = p3\<lparr>lists := map (\<lambda>(n, items). (n, map (map_comment i (cast_vote v)) items)) (lists p3)\<rparr>
                in Inr (send (ProcessVote i v) p4)))"

definition handleVote_error :: "page \<Rightarrow> page" where
  "handleVote_error p = showError (J ''Oops, there was a problem casting that vote.'') p"

section \<open>Events\<close>

text \<open>The links of the page, by the class they are selected by, and what a click on one of them does; \<open>link_class\<close> is the whole
  class attribute and \<open>link\<close> the identifier.\<close>

definition on_click :: "ws_opts \<Rightarrow> (js_string \<Rightarrow> js_string) \<Rightarrow> js_string \<Rightarrow> string \<Rightarrow> js_string \<Rightarrow> js_string \<Rightarrow> page \<Rightarrow> page_error + page" where
  "on_click opts escape_uri expires cls link_class link p =
     (let i = substring1 link 2 in
      if cls = ''comment-close'' then Inr (hide_popup i p)
      else if cls = ''vote'' then handleVote opts link p
      else if cls = ''reply'' then Inr (openReply i p)
      else if cls = ''close-reply'' then Inr (closeReply i p)
      else if cls = ''sort-option'' then Inr (handleReSort escape_uri opts link_class expires p)
      else if cls = ''show-proposal'' then Inr (showProposal i p)
      else if cls = ''hide-proposal'' then Inr (hideProposal i p)
      else if cls = ''show-propose-change'' then Inr (showProposeChange i p)
      else if cls = ''hide-propose-change'' then Inr (hideProposeChange i p)
      else if cls = ''accept-comment'' then Inr (acceptComment i p)
      else if cls = ''delete-comment'' then Inr (deleteComment i p)
      else if cls = ''comment-markup'' then Inr (toggleCommentMarkupBox i p)
      else Inr p)"

definition ws_init :: "(js_string \<Rightarrow> js_string) \<Rightarrow> page \<Rightarrow> page" where
  "ws_init unescape_uri p = initComparator unescape_uri p"

section \<open>Opening\<close>

text \<open>The links a commentable paragraph gets; \<open>count\<close> is the number of its comments.\<close>

record comment_link =
  cl_class :: js_string
  cl_id :: js_string
  cl_image :: js_string
  cl_title :: js_string

definition comment_links :: "ws_opts \<Rightarrow> (js_string \<Rightarrow> nat) \<Rightarrow> js_string \<Rightarrow> comment_link list" where
  "comment_links opts metadata eid =
     (let i = substring1 eid 1;
          count = metadata i
      in [\<lparr>cl_class = J ''sphinx-comment-open'' @ (if count = 0 then J '' nocomment'' else []), cl_id = J ''ao'' @ i,
            cl_image = (if count > 0 then commentBrightImage opts else commentImage opts),
            cl_title = show_nat count @ J '' comment'' @ (if count = 1 then [] else J ''s'')\<rparr>,
          \<lparr>cl_class = J ''sphinx-comment-close hidden'', cl_id = J ''ah'' @ i,
            cl_image = closeCommentImage opts, cl_title = J ''close''\<rparr>])"

text \<open>The words of the query are marked in the search results.\<close>

definition mark_results :: "(js_string \<Rightarrow> js_string) \<Rightarrow> js_string \<Rightarrow> dom list \<Rightarrow> page_error + dom list" where
  "mark_results lc search contexts =
     (case getQueryParameters search of
        Inl e \<Rightarrow> Inl e
      | Inr params \<Rightarrow>
          (let terms = (case map_of params (J ''q'') of Some (q # _) \<Rightarrow> split_ws q | _ \<Rightarrow> [])
           in Inr (fold (\<lambda>w ds. highlightText lc (lc w) (J ''highlighted'') False ds) terms contexts)))"

text \<open>An address with an anchor for a comment opens its popup and moves to the paragraph.\<close>

definition open_anchor :: "ws_opts \<Rightarrow> js_string \<Rightarrow> page \<Rightarrow> js_string \<times> page" where
  "open_anchor opts anchor p =
     (if substring anchor 0 9 = J ''#comment-''
      then (J ''#s'' @ substring1 anchor 9, show_popup opts (substring1 anchor 9) p)
      else (anchor, p))"

end
