(* ===== verification/Ws_Properties.thy ===== *)
theory Ws_Properties
  imports Ws_Comments
begin

text \<open>
  What the comment script guarantees: voting moves the rating of a comment by exactly the change of the user's own vote, and
  the lists of comments stay in the chosen order when comments are loaded, inserted and sorted again. At the end,
  the places where the script errs.
\<close>

section \<open>The comments of a page\<close>

fun item_comments :: "item \<Rightarrow> comment list" where
  "item_comments Moderated = []"
| "item_comments (Shown c ks) = c # concat (map item_comments ks)"

definition page_comments :: "page \<Rightarrow> comment list" where
  "page_comments p = concat (map (\<lambda>(n, items). concat (map item_comments items)) (lists p))"

lemma map_comment_comments:
  "item_comments (map_comment i f it) = map (\<lambda>c. if c_id c = i then f c else c) (item_comments it)"
proof (induction it)
  case (Shown c ks)
  then have "concat (map item_comments (map (map_comment i f) ks))
      = map (\<lambda>c. if c_id c = i then f c else c) (concat (map item_comments ks))"
    by (induction ks) simp_all
  then show ?case by simp
qed simp

lemma mapped_page_comments:
  assumes "lists p' = map (\<lambda>(n, items). (n, map (map_comment i f) items)) (lists p)"
  shows "page_comments p' = map (\<lambda>c. if c_id c = i then f c else c) (page_comments p)"
proof -
  have items: "concat (map item_comments (map (map_comment i f) items))
      = map (\<lambda>c. if c_id c = i then f c else c) (concat (map item_comments items))" for items
    by (induction items) (simp_all add: map_comment_comments)
  have "concat (map (\<lambda>(n, items). concat (map item_comments items)) (map (\<lambda>(n, items). (n, map (map_comment i f) items)) ls))
      = map (\<lambda>c. if c_id c = i then f c else c) (concat (map (\<lambda>(n, items). concat (map item_comments items)) ls))"
    for ls :: "(js_string \<times> item list) list"
  proof (induction ls)
    case (Cons l ls)
    obtain n its where "l = (n, its)" by (cases l)
    then show ?case using Cons items [of its] by (simp del: map_map)
  qed simp
  then show ?thesis by (simp add: page_comments_def assms)
qed

section \<open>Votes\<close>

lemma vote_value_range: "vote_value link \<in> {-1, 0, 1}"
  by (simp add: vote_value_def)

lemma cast_vote_base: "c_rating (cast_vote v c) - c_vote (cast_vote v c) = c_rating c - c_vote c"
  by (simp add: cast_vote_def)

lemma cast_vote_id: "c_id (cast_vote v c) = c_id c"
  by (simp add: cast_vote_def)

text \<open>What voting never changes of a comment: its identity, and its rating without the user's own vote.\<close>

definition vote_base :: "page \<Rightarrow> (js_string \<times> int) list" where
  "vote_base p = map (\<lambda>c. (c_id c, c_rating c - c_vote c)) (page_comments p)"

definition votes_ok :: "page \<Rightarrow> bool" where
  "votes_ok p \<longleftrightarrow> (\<forall>c \<in> set (page_comments p). c_vote c \<in> {-1, 0, 1} \<and> pretty_rating c = points (c_rating c))"

lemma page_comments_simps [simp]:
  "page_comments (p\<lparr>hidden := h\<rparr>) = page_comments p" "page_comments (send r p) = page_comments p"
  "page_comments (showError m p) = page_comments p"
  "page_comments (hide_el pre i p) = page_comments p" "page_comments (show_el pre i p) = page_comments p"
  by (simp_all add: page_comments_def send_def showError_def hide_el_def show_el_def)

lemma lists_simps [simp]:
  "lists (hide_el pre i p) = lists p" "lists (show_el pre i p) = lists p"
  "lists (send r p) = lists p" "lists (showError m p) = lists p"
  by (simp_all add: send_def showError_def hide_el_def show_el_def)

lemma handleVote_cases:
  assumes "handleVote opts link p = Inr p'"
  shows "page_comments p' = page_comments p \<or>
    page_comments p' = map (\<lambda>c. if c_id c = substring1 link 2 then cast_vote (vote_value link) c else c) (page_comments p)"
proof (cases "voting opts \<and> link \<noteq> []")
  case True
  let ?v = "vote_value link" and ?i = "substring1 link 2"
  have "lists p' = map (\<lambda>(n, items). (n, map (map_comment ?i (cast_vote ?v)) items)) (lists p)"
    using assms True unfolding handleVote_def Let_def by (auto split: option.splits)
  then show ?thesis using mapped_page_comments by blast
next
  case False
  have "handleVote opts link p = Inr p \<or> (\<exists>m. handleVote opts link p = Inr (showError m p))"
  proof (cases "voting opts")
    case True
    then have "handleVote opts link p = Inr p" using False by (simp add: handleVote_def)
    then show ?thesis ..
  next
    case False
    then have "\<exists>m. handleVote opts link p = Inr (showError m p)" unfolding handleVote_def by (simp only: not_False_eq_True if_True) blast
    then show ?thesis ..
  qed
  then show ?thesis using assms by auto
qed

lemma vote_step_base:
  assumes "handleVote opts link p = Inr p'"
  shows "vote_base p' = vote_base p"
  using handleVote_cases [OF assms]
  by (elim disjE) (simp_all add: vote_base_def cast_vote_base cast_vote_id)

lemma vote_step_ok: "handleVote opts link p = Inr p' \<Longrightarrow> votes_ok p \<Longrightarrow> votes_ok p'"
  using handleVote_cases [of opts link p p'] vote_value_range [of link]
  by (auto simp: votes_ok_def cast_vote_def)

text \<open>A run of clicks on the arrows; a click that throws leaves no page.\<close>

fun votes :: "ws_opts \<Rightarrow> js_string list \<Rightarrow> page \<Rightarrow> page_error + page" where
  "votes opts [] p = Inr p"
| "votes opts (l # ls) p = (case handleVote opts l p of Inl e \<Rightarrow> Inl e | Inr p' \<Rightarrow> votes opts ls p')"

lemma votes_keep:
  "votes opts ls p = Inr p' \<Longrightarrow> votes_ok p \<Longrightarrow> vote_base p' = vote_base p \<and> votes_ok p'"
proof (induction ls arbitrary: p)
  case (Cons l ls)
  then obtain q where q: "handleVote opts l p = Inr q" "votes opts ls q = Inr p'" by (auto split: sum.splits)
  then show ?case using Cons.IH [OF q(2)] vote_step_base [OF q(1)] vote_step_ok [OF q(1)] Cons.prems(2) by simp
qed simp

section \<open>Order\<close>

text \<open>The order in force is numeric when there is a number by which comments ascend.\<close>

definition order_key :: "page \<Rightarrow> (comment \<Rightarrow> int) \<Rightarrow> bool" where
  "order_key p k \<longleftrightarrow> (\<forall>a b. comp_of (sort_by p) (cmpr p) a b = Some (k a - k b)) \<and> (\<forall>c. k (prepare c) = k c)"

fun shown :: "item list \<Rightarrow> comment list" where
  "shown [] = []"
| "shown (Moderated # is) = shown is"
| "shown (Shown c ks # is) = c # shown is"

fun item_sorted :: "(comment \<Rightarrow> int) \<Rightarrow> item \<Rightarrow> bool" where
  "item_sorted k Moderated = True"
| "item_sorted k (Shown c ks) = (sorted (map k (shown ks)) \<and> list_all (item_sorted k) ks)"

definition items_sorted :: "(comment \<Rightarrow> int) \<Rightarrow> item list \<Rightarrow> bool" where
  "items_sorted k items \<longleftrightarrow> sorted (map k (shown items)) \<and> list_all (item_sorted k) items"

definition page_sorted :: "(comment \<Rightarrow> int) \<Rightarrow> page \<Rightarrow> bool" where
  "page_sorted k p \<longleftrightarrow> list_all (\<lambda>(n, items). items_sorted k items) (lists p)"

lemma shown_append: "shown (xs @ ys) = shown xs @ shown ys"
  by (induction xs rule: shown.induct) auto

lemma set_shown_insert: "set (shown (insert_item f new items)) = set (shown [new]) \<union> set (shown items)"
proof (induction f new items rule: insert_item.induct)
  case (3 f new c ks "is")
  then show ?case by (cases new) auto
qed auto

lemma insert_item_sorted:
  assumes "item_sorted k new" and "\<And>c. new = Shown c ks' \<Longrightarrow> k c = m"
    and "ks' = (case new of Shown _ ks \<Rightarrow> ks | Moderated \<Rightarrow> [])"
  shows "items_sorted k items \<Longrightarrow> items_sorted k (insert_item (\<lambda>s. Some (m - k s)) new items)"
proof (induction items rule: shown.induct)
  case 1
  then show ?case using assms(1) by (cases new) (auto simp: items_sorted_def)
next
  case (2 "is")
  then show ?case by (simp add: items_sorted_def)
next
  case (3 c ks "is")
  have tail: "items_sorted k is" "item_sorted k (Shown c ks)" "\<forall>x \<in> set (shown is). k c \<le> k x"
    using "3.prems" by (auto simp: items_sorted_def)
  show ?case
  proof (cases "m \<le> k c")
    case True
    then show ?thesis using "3.prems" assms by (cases new) (auto simp: items_sorted_def)
  next
    case False
    have "\<forall>x \<in> set (shown [new]). k c \<le> k x" using False assms(2,3) by (cases new) auto
    then show ?thesis
      using False "3.IH" [OF tail(1)] tail by (auto simp: items_sorted_def set_shown_insert simp del: shown.simps(3)) (auto simp: set_shown_insert)
  qed
qed

text \<open>Changing one list somewhere keeps the order of the others.\<close>

lemma shown_update_replies: "shown (map (update_replies i f) items) = map (\<lambda>c. c) (shown items)"
  by (induction items rule: shown.induct) auto

lemma update_replies_sorted:
  assumes "\<And>ks. items_sorted k ks \<Longrightarrow> items_sorted k (f ks)"
  shows "item_sorted k it \<Longrightarrow> item_sorted k (update_replies i f it)"
proof (induction it)
  case (Shown c ks)
  show ?case
  proof (cases "c_id c = i")
    case True
    then show ?thesis using assms [of ks] Shown.prems by (simp add: items_sorted_def)
  next
    case False
    then show ?thesis using Shown by (auto simp: shown_update_replies list_all_iff)
  qed
qed simp

lemma update_list_sorted:
  assumes "\<And>ks. items_sorted k ks \<Longrightarrow> items_sorted k (f ks)" and "page_sorted k p"
  shows "page_sorted k (update_list i f p)"
proof -
  have "items_sorted k (map (update_replies i f) items)" if "items_sorted k items" for items
    using that update_replies_sorted [of k f _ i] assms(1)
    by (auto simp: items_sorted_def shown_update_replies list_all_iff)
  then show ?thesis using assms by (auto simp: page_sorted_def update_list_def list_all_iff)
qed

lemma el_simps [simp]:
  "sort_by (show_el pre i p) = sort_by p" "cmpr (show_el pre i p) = cmpr p"
  "sort_by (hide_el pre i p) = sort_by p" "cmpr (hide_el pre i p) = cmpr p"
  by (simp_all add: show_el_def hide_el_def)

lemma show_vote_simps [simp]:
  "sort_by (show_vote c p) = sort_by p" "cmpr (show_vote c p) = cmpr p" "lists (show_vote c p) = lists p"
  by (simp_all add: show_vote_def Let_def)

lemma show_options_simps [simp]:
  "sort_by (show_options opts c p) = sort_by p" "cmpr (show_options opts c p) = cmpr p" "lists (show_options opts c p) = lists p"
  by (simp_all add: show_options_def Let_def)

lemma createCommentDiv_page:
  "createCommentDiv opts c p = (d, p') \<Longrightarrow> sort_by p' = sort_by p \<and> cmpr p' = cmpr p \<and> lists p' = lists p \<and>
     (d = None \<or> d = Some (prepare c))"
  by (cases "\<not> c_displayed c \<and> \<not> moderator opts") (simp_all add: createCommentDiv_def del: J_simps, auto)

lemma insertComment_sorted:
  assumes "order_key p k" and "page_sorted k p"
  shows "page_sorted k (insertComment opts c p)"
proof -
  obtain d p1 where d: "createCommentDiv opts c p = (d, p1)" by (cases "createCommentDiv opts c p")
  note P = createCommentDiv_page [OF d]
  let ?new = "case d of Some c' \<Rightarrow> Shown c' [] | None \<Rightarrow> Moderated"
  have cmp: "(\<lambda>s. comp_of (sort_by p1) (cmpr p1) c s) = (\<lambda>s. Some (k c - k s))"
    using assms(1) P by (simp add: order_key_def)
  have "items_sorted k (insert_item (\<lambda>s. Some (k c - k s)) ?new items)" if "items_sorted k items" for items
    by (rule insert_item_sorted [where ks' = "[]", OF _ _ _ that])
      (use P assms(1) in \<open>auto simp: order_key_def split: option.splits\<close>)
  moreover have "page_sorted k p1" using assms(2) P by (simp add: page_sorted_def)
  ultimately show ?thesis
    by (simp add: insertComment_def d Let_def cmp update_list_sorted)
qed

text \<open>Sorting trees of comments.\<close>

fun root :: "ctree \<Rightarrow> comment" where
  "root (CNode c ts) = c"

fun tree_sorted :: "(comment \<Rightarrow> int) \<Rightarrow> ctree \<Rightarrow> bool" where
  "tree_sorted k (CNode c ts) = (sorted (map (k \<circ> root) ts) \<and> list_all (tree_sorted k) ts)"

lemma root_sortComment [simp]: "root (sortComment f t) = root t"
  by (cases t) simp

lemma sort_cmp_key: "f = (\<lambda>a b. Some (k a - k b)) \<Longrightarrow> sort_cmp f s t = k (root s) - k (root t)"
  by (cases s; cases t) (simp add: sort_cmp_def)

lemma js_sort_key:
  assumes f: "f = (\<lambda>a b. Some (k a - k b))"
  shows "sorted (map (k \<circ> root) (js_sort (sort_cmp f) ts))"
proof -
  have "consistent (sort_cmp f)" by (simp add: consistent_def sort_cmp_key [OF f])
  from sorted_js_sort [OF this, of ts]
  show ?thesis by (simp add: sort_cmp_key [OF f] sorted_wrt_map)
qed

lemma sortComment_sorted: "f = (\<lambda>a b. Some (k a - k b)) \<Longrightarrow> tree_sorted k (sortComment f t)"
proof (induction t)
  case (CNode c ts)
  then show ?case using js_sort_key [of f k] by (auto simp: list_all_iff)
qed

lemma sortComments_sorted:
  assumes f: "f = (\<lambda>a b. Some (k a - k b))"
  shows "sorted (map (k \<circ> root) (sortComments f ts)) \<and> list_all (tree_sorted k) (sortComments f ts)"
  using js_sort_key [OF f, of ts] sortComment_sorted [OF f]
  by (simp add: sortComments_def list_all_iff comp_def)

text \<open>The elements made of sorted comments are sorted; notices take no place in the order.\<close>

lemma appendComment_page:
  "sort_by (snd (appendComment opts t p)) = sort_by p \<and> cmpr (snd (appendComment opts t p)) = cmpr p"
  "sort_by (snd (appendComments opts ts p)) = sort_by p \<and> cmpr (snd (appendComments opts ts p)) = cmpr p"
proof (induction opts t p and opts ts p rule: appendComment_appendComments.induct)
  case (1 opts c ts p)
  obtain d p1 where d: "createCommentDiv opts c p = (d, p1)" by (cases "createCommentDiv opts c p")
  show ?case
    using 1 createCommentDiv_page [OF d] d by (cases d) (simp_all add: Let_def split_def)
next
  case (3 opts t ts p)
  then show ?case using "3.IH"(2) [OF refl prod.collapse] by (simp add: Let_def split_def)
qed simp

lemma appendComments_sorted:
  assumes k: "\<And>c. k (prepare c) = k c"
  shows "tree_sorted k t \<Longrightarrow> item_sorted k (fst (appendComment opts t p)) \<and>
      (fst (appendComment opts t p) = Moderated \<or> (\<exists>c ks. fst (appendComment opts t p) = Shown c ks \<and> k c = k (root t)))"
    and "list_all (tree_sorted k) ts \<Longrightarrow> sorted (map (k \<circ> root) ts) \<Longrightarrow>
      items_sorted k (fst (appendComments opts ts p)) \<and> k ` set (shown (fst (appendComments opts ts p))) \<subseteq> (k \<circ> root) ` set ts"
proof (induction opts t p and opts ts p rule: appendComment_appendComments.induct)
  case (1 opts c ts p)
  obtain d p1 where d: "createCommentDiv opts c p = (d, p1)" by (cases "createCommentDiv opts c p")
  show ?case
  proof (cases d)
    case (Some c')
    have "items_sorted k (fst (appendComments opts ts p1))"
      using "1.IH"(2) [OF d [symmetric] Some] "1.prems" by (simp add: comp_def)
    then show ?thesis
      using Some d createCommentDiv_page [OF d] k by (auto simp: Let_def split_def items_sorted_def)
  qed (simp add: d)
next
  case (3 opts t ts p)
  let ?r = "appendComment opts t p" and ?rs = "appendComments opts ts (snd (appendComment opts t p))"
  have t: "item_sorted k (fst ?r)" "fst ?r = Moderated \<or> (\<exists>c ks. fst ?r = Shown c ks \<and> k c = k (root t))"
    using 3 by auto
  have ts: "items_sorted k (fst ?rs)" "k ` set (shown (fst ?rs)) \<subseteq> (k \<circ> root) ` set ts"
    using "3.IH"(2) [OF refl prod.collapse] "3.prems" by auto
  have r: "fst (appendComments opts (t # ts) p) = fst ?r # fst ?rs" by (simp add: Let_def split_def)
  show ?case
    unfolding r using t ts "3.prems" by (elim disjE exE conjE) (auto simp: items_sorted_def)
qed (simp add: items_sorted_def)

lemma resort_all_sorted:
  assumes "order_key p k"
  shows "list_all (\<lambda>(n, items). items_sorted k items) (fst (resort_all opts ls p))
    \<and> sort_by (snd (resort_all opts ls p)) = sort_by p \<and> cmpr (snd (resort_all opts ls p)) = cmpr p"
  using assms
proof (induction ls arbitrary: p)
  case (Cons l ls)
  obtain n items where l: "l = (n, items)" by (cases l)
  let ?f = "comp_of (sort_by p) (cmpr p)"
  have f: "?f = (\<lambda>a b. Some (k a - k b))" and k: "\<And>c. k (prepare c) = k c"
    using Cons.prems by (auto simp: order_key_def)
  let ?ts = "sortComments ?f (getChildren True items)"
  have s: "items_sorted k (fst (appendComments opts ?ts p))"
    using appendComments_sorted(2) [where k = k and ts = ?ts and opts = opts and p = p, OF k] sortComments_sorted [OF f, of "getChildren True items"] by simp
  have pg: "sort_by (snd (appendComments opts ?ts p)) = sort_by p" "cmpr (snd (appendComments opts ?ts p)) = cmpr p"
    using appendComment_page(2) by blast+
  then have "order_key (snd (appendComments opts ?ts p)) k" using Cons.prems by (simp add: order_key_def)
  from Cons.IH [OF this] show ?case
    using s pg by (simp add: l resort_list_def Let_def split_def)
qed simp

section \<open>Properties\<close>

text \<open>
  Claim C29. Voting is honest: after any clicks on the arrows, every comment of the page has the rating it had plus the change
  of the user's own vote, the vote is -1, 0 or 1, and the rating shown is the rating.\<close>

theorem votes_honest:
  assumes "votes opts links p = Inr p'" and "votes_ok p"
  shows "map (\<lambda>c. (c_id c, c_rating c - c_vote c)) (page_comments p') = map (\<lambda>c. (c_id c, c_rating c - c_vote c)) (page_comments p)
    \<and> votes_ok p'"
  using votes_keep [OF assms] by (simp add: vote_base_def)

definition sample_comment :: comment where
  "sample_comment = \<lparr>c_id = J ''7'', c_node = J ''1'', c_parent = [], c_text = J ''hi'', c_username = J ''u'', c_rating = 3,
     c_age = 0, c_vote = 0, c_displayed = True, c_proposal_diff = [], c_delta = [], pretty_rating = points 3, css_class = []\<rparr>"

definition sample_page :: page where
  "sample_page = \<lparr>sort_by = J ''rating'', cmpr = Desc, cookie = [], selected = [], hidden = {}, removed = {}, disabled = {},
     field = (\<lambda>_. []), proposal_source = (\<lambda>_. []), lists = [(J ''1'', [Shown sample_comment []])], empty_lists = {},
     messages_shown = [], requests = [], bright = {}, no_moderation = {}, focus = None\<rparr>"

theorem votes_honest_witness:
  "\<exists>p'. votes (opts0\<lparr>voting := True\<rparr>) [J ''uv7'', J ''dv7''] sample_page = Inr p' \<and> votes_ok p'"
proof -
  have ok: "votes_ok sample_page"
    by (simp add: votes_ok_def page_comments_def sample_page_def sample_comment_def)
  have "\<exists>p'. votes (opts0\<lparr>voting := True\<rparr>) [J ''uv7'', J ''dv7''] sample_page = Inr p'"
    by (simp add: handleVote_def opts0_def sample_page_def sample_comment_def lookup_comment_def substring1_def clamp_def
        Let_def vote_value_def charAt_def cast_vote_def send_def show_el_def hide_el_def)
  then show ?thesis using votes_honest ok by blast
qed

text \<open>
  Claim C30. The comments stay in order: with a numeric order in force, inserting a new comment keeps every list of
  the page sorted, replies included, wherever the comment belongs.\<close>

theorem comments_stay_sorted:
  assumes "order_key p k" and "page_sorted k p"
  shows "page_sorted k (insertComment opts c p)"
  using assms by (rule insertComment_sorted)

theorem comments_stay_sorted_witness:
  "page_sorted (\<lambda>c. - c_rating c) (insertComment opts0 (sample_comment\<lparr>c_id := J ''8'', c_rating := 5\<rparr>) sample_page)"
proof (rule comments_stay_sorted)
  show "order_key sample_page (\<lambda>c. - c_rating c)"
    by (simp add: order_key_def sample_page_def comp_of_def num_diff_def comment_num_def prepare_def)
  show "page_sorted (\<lambda>c. - c_rating c) sample_page"
    by (simp add: page_sorted_def sample_page_def items_sorted_def)
qed

section \<open>Where the script errs\<close>

text \<open>The cookie counts only when it is the last one.\<close>

theorem cookie_before_another_ignored:
  "sort_by (initComparator (\<lambda>s. s) (sample_page\<lparr>cookie := J ''sortBy=age; x=1''\<rparr>)) = J ''rating''
   \<and> sort_by (initComparator (\<lambda>s. s) (sample_page\<lparr>cookie := J ''x=1; sortBy=age''\<rparr>)) = J ''age''"
  by code_simp

text \<open>Sorting again removes the notices for comments that await approval.\<close>

theorem resort_drops_notices:
  "fst (resort_list opts [Moderated] p) = []"
  by (simp add: resort_list_def sortComments_def js_sort_def)

end
