(* ===== verification/Jq_Core.thy ===== *)
theory Jq_Core
  imports Us_Values
begin

text \<open>
  The core of \<open>jquery-3.2.1.js\<close>, lines 113 to 537: the matched set and its stack, \<open>extend\<close>, the type
  tests and the array helpers.

  The functions work on a heap. A reference is the index of an object in the heap; an object has its class (what
  \<open>Object.prototype.toString\<close> reports), its prototype, its own properties, each with its value
  and whether it is enumerable, and the length when it is an array. Index 0 is \<open>Object.prototype\<close>, whose accessor
  \<open>__proto__\<close> reads and changes the prototype of the receiver; index 1 is \<open>Array.prototype\<close>. Reading walks the prototype chain, assignment makes an
  own property, and \<open>for in\<close> lists the enumerable properties of the chain that are not shadowed.
\<close>

section \<open>Heap\<close>

record jq_object =
  cls :: js_string
  callable :: bool
  object_source :: bool
  proto_of :: "nat option"
  jprops :: "(js_key \<times> js_val \<times> bool) list"
  jlength :: nat

type_synonym jheap = "jq_object list"

definition blank :: jq_object where
  "blank = \<lparr>cls = J ''Object'', callable = False, object_source = False, proto_of = Some 0, jprops = [], jlength = 0\<rparr>"

definition hobj :: "jheap \<Rightarrow> nat \<Rightarrow> jq_object" where
  "hobj h r = (if r < length h then h ! r else blank)"

definition proto_key :: js_key where
  "proto_key = KStr (J ''__proto__'')"

definition length_key :: js_key where
  "length_key = KStr (J ''length'')"

definition is_array_obj :: "jq_object \<Rightarrow> bool" where
  "is_array_obj x \<longleftrightarrow> cls x = J ''Array''"

text \<open>An own property; the length of an array is one.\<close>

definition own_get :: "jheap \<Rightarrow> nat \<Rightarrow> js_key \<Rightarrow> js_val option" where
  "own_get h r k =
     (if is_array_obj (hobj h r) \<and> k = length_key then Some (JNum (Fin (int (jlength (hobj h r)))))
      else map_option fst (map_of (jprops (hobj h r)) k))"

definition proto_val :: "jheap \<Rightarrow> nat \<Rightarrow> js_val" where
  "proto_val h r = (case proto_of (hobj h r) of Some p \<Rightarrow> JRef p | None \<Rightarrow> JNull)"

text \<open>
  The chain from an object on. A chain is never cyclic, so it has at most as many objects as the heap.
\<close>

fun proto_chain :: "jheap \<Rightarrow> nat \<Rightarrow> nat option \<Rightarrow> nat list" where
  "proto_chain h 0 r = []"
| "proto_chain h (Suc n) None = []"
| "proto_chain h (Suc n) (Some r) = r # proto_chain h n (proto_of (hobj h r))"

definition chain_of :: "jheap \<Rightarrow> nat \<Rightarrow> nat list" where
  "chain_of h r = proto_chain h (Suc (length h)) (Some r)"

text \<open>The property found along a chain for the receiver \<open>r\<close>; \<open>None\<close> tells that \<open>k in o\<close> is false.\<close>

fun get_along :: "jheap \<Rightarrow> nat \<Rightarrow> js_key \<Rightarrow> nat list \<Rightarrow> js_val option" where
  "get_along h r k [] = None"
| "get_along h r k (p # ps) =
     (case own_get h p k of
        Some v \<Rightarrow> Some v
      | None \<Rightarrow> if p = 0 \<and> k = proto_key then Some (proto_val h r) else get_along h r k ps)"

definition jfind :: "jheap \<Rightarrow> nat \<Rightarrow> js_key \<Rightarrow> js_val option" where
  "jfind h r k = get_along h r k (chain_of h r)"

definition jget :: "jheap \<Rightarrow> nat \<Rightarrow> js_key \<Rightarrow> js_val" where
  "jget h r k = (case jfind h r k of Some v \<Rightarrow> v | None \<Rightarrow> JUndef)"

text \<open>
  An existing property keeps its place. A new one comes before the first that follows it: indices are listed first, in
  ascending order, then the other names in the order of their creation.
\<close>

fun key_before :: "js_key \<Rightarrow> js_key \<Rightarrow> bool" where
  "key_before (KIdx i) (KIdx j) = (i < j)"
| "key_before (KIdx i) (KStr _) = True"
| "key_before (KStr _) _ = False"

definition put_prop :: "(js_key \<times> 'v) list \<Rightarrow> js_key \<Rightarrow> 'v \<Rightarrow> (js_key \<times> 'v) list" where
  "put_prop ps k v =
     (if k \<in> fst ` set ps then map (\<lambda>(k', v'). if k' = k then (k, v) else (k', v')) ps
      else takeWhile (\<lambda>(k', _). \<not> key_before k k') ps @ (k, v) # dropWhile (\<lambda>(k', _). \<not> key_before k k') ps)"

definition own_put :: "jq_object \<Rightarrow> js_key \<Rightarrow> js_val \<Rightarrow> jq_object" where
  "own_put x k v =
     x\<lparr>jprops := put_prop (jprops x) k (v, case map_of (jprops x) k of Some (_, e) \<Rightarrow> e | None \<Rightarrow> True),
       jlength := (case k of KIdx i \<Rightarrow> max (jlength x) (Suc i) | KStr _ \<Rightarrow> jlength x)\<rparr>"

text \<open>Cutting or extending an array.\<close>

definition cut_length :: "jq_object \<Rightarrow> nat \<Rightarrow> jq_object" where
  "cut_length x n = x\<lparr>jprops := filter (\<lambda>(k, _). case k of KIdx i \<Rightarrow> i < n | KStr _ \<Rightarrow> True) (jprops x), jlength := n\<rparr>"

text \<open>The first holder of \<open>__proto__\<close> along the chain: the accessor, or an own property that hides it.\<close>

definition proto_accessor :: "jheap \<Rightarrow> nat \<Rightarrow> bool" where
  "proto_accessor h r = (case filter (\<lambda>p. p = 0 \<or> own_get h p proto_key \<noteq> None) (chain_of h r) of
     p # _ \<Rightarrow> own_get h p proto_key = None | [] \<Rightarrow> False)"

definition jput :: "jheap \<Rightarrow> nat \<Rightarrow> js_key \<Rightarrow> js_val \<Rightarrow> jheap" where
  "jput h r k v =
     (if k = proto_key \<and> proto_accessor h r then
        (case v of JRef p \<Rightarrow> h[r := (hobj h r)\<lparr>proto_of := Some p\<rparr>]
                 | JNull \<Rightarrow> h[r := (hobj h r)\<lparr>proto_of := None\<rparr>]
                 | _ \<Rightarrow> h)
      else if is_array_obj (hobj h r) \<and> k = length_key then
        (case v of JNum (Fin n) \<Rightarrow> h[r := cut_length (hobj h r) (nat n)] | _ \<Rightarrow> h)
      else h[r := own_put (hobj h r) k v])"

fun for_in_along :: "jheap \<Rightarrow> js_key list \<Rightarrow> nat list \<Rightarrow> js_key list" where
  "for_in_along h seen [] = []"
| "for_in_along h seen (p # ps) =
     map fst (filter (\<lambda>(k, _, e). e \<and> k \<notin> set seen) (jprops (hobj h p))) @
     for_in_along h (seen @ map fst (jprops (hobj h p))) ps"

definition for_in :: "jheap \<Rightarrow> nat \<Rightarrow> js_key list" where
  "for_in h r = for_in_along h [] (chain_of h r)"

text \<open>The same for a value that may be a string: its characters are its enumerable properties.\<close>

definition keys_in :: "jheap \<Rightarrow> js_val \<Rightarrow> js_key list" where
  "keys_in h v = (case v of JRef r \<Rightarrow> for_in h r | JStr s \<Rightarrow> map KIdx [0..<length s] | _ \<Rightarrow> [])"

definition get_in :: "jheap \<Rightarrow> js_val \<Rightarrow> js_key \<Rightarrow> js_val" where
  "get_in h v k = (case v of
     JRef r \<Rightarrow> jget h r k
   | JStr s \<Rightarrow> (case k of KIdx i \<Rightarrow> if i < length s then JStr [s ! i] else JUndef
                         | KStr _ \<Rightarrow> if k = length_key then JNum (Fin (int (length s))) else JUndef)
   | _ \<Rightarrow> JUndef)"

definition alloc :: "jheap \<Rightarrow> jq_object \<Rightarrow> nat \<times> jheap" where
  "alloc h x = (length h, h @ [x])"

section \<open>Type tests\<close>

definition typeof :: "jheap \<Rightarrow> js_val \<Rightarrow> js_string" where
  "typeof h v = (case v of
     JUndef \<Rightarrow> J ''undefined'' | JNull \<Rightarrow> J ''object'' | JBool _ \<Rightarrow> J ''boolean'' | JNum _ \<Rightarrow> J ''number''
   | JStr _ \<Rightarrow> J ''string'' | JRef r \<Rightarrow> if callable (hobj h r) then J ''function'' else J ''object'')"

text \<open>What \<open>Object.prototype.toString\<close> reports, without the brackets.\<close>

definition toString_class :: "jheap \<Rightarrow> js_val \<Rightarrow> js_string" where
  "toString_class h v = (case v of
     JUndef \<Rightarrow> J ''Undefined'' | JNull \<Rightarrow> J ''Null'' | JBool _ \<Rightarrow> J ''Boolean'' | JNum _ \<Rightarrow> J ''Number''
   | JStr _ \<Rightarrow> J ''String'' | JRef r \<Rightarrow> cls (hobj h r))"

definition class2type :: "(js_string \<times> js_string) list" where
  "class2type = map (\<lambda>(c, t). (J c, J t))
     [(''Boolean'', ''boolean''), (''Number'', ''number''), (''String'', ''string''), (''Function'', ''function''),
      (''Array'', ''array''), (''Date'', ''date''), (''RegExp'', ''regexp''), (''Object'', ''object''),
      (''Error'', ''error''), (''Symbol'', ''symbol'')]"

definition jq_type :: "jheap \<Rightarrow> js_val \<Rightarrow> js_string" where
  "jq_type h obj =
     (if obj = JUndef then J ''undefined'' else if obj = JNull then J ''null''
      else if typeof h obj \<in> {J ''object'', J ''function''}
      then (case map_of class2type (toString_class h obj) of Some t \<Rightarrow> t | None \<Rightarrow> J ''object'')
      else typeof h obj)"

definition isFunction_jq :: "jheap \<Rightarrow> js_val \<Rightarrow> bool" where
  "isFunction_jq h obj \<longleftrightarrow> jq_type h obj = J ''function''"

definition is_array :: "jheap \<Rightarrow> js_val \<Rightarrow> bool" where
  "is_array h v = (case v of JRef r \<Rightarrow> is_array_obj (hobj h r) | _ \<Rightarrow> False)"

definition isWindow :: "jheap \<Rightarrow> js_val \<Rightarrow> bool" where
  "isWindow h obj \<longleftrightarrow> obj \<notin> {JUndef, JNull} \<and> strict_eq obj (get_in h obj (KStr (J ''window'')))"

text \<open>\<open>num\<close> and \<open>parseFloat\<close> are the conversions of the language; the difference of two infinities is NaN.\<close>

definition num_minus :: "js_num \<Rightarrow> js_num \<Rightarrow> js_num" where
  "num_minus a b = (case (a, b) of
     (NaN, _) \<Rightarrow> NaN | (_, NaN) \<Rightarrow> NaN
   | (PInf, PInf) \<Rightarrow> NaN | (NInf, NInf) \<Rightarrow> NaN
   | (PInf, _) \<Rightarrow> PInf | (NInf, _) \<Rightarrow> NInf | (_, PInf) \<Rightarrow> NInf | (_, NInf) \<Rightarrow> PInf
   | (NZero, Fin n) \<Rightarrow> if n = 0 then NZero else Fin (- n) | (NZero, NZero) \<Rightarrow> Fin 0
   | (Fin m, NZero) \<Rightarrow> Fin m | (Fin m, Fin n) \<Rightarrow> Fin (m - n))"

definition isNumeric :: "(js_val \<Rightarrow> js_num) \<Rightarrow> (js_val \<Rightarrow> js_num) \<Rightarrow> jheap \<Rightarrow> js_val \<Rightarrow> bool" where
  "isNumeric num parseFloat h obj \<longleftrightarrow>
     jq_type h obj \<in> {J ''number'', J ''string''} \<and> num_minus (num obj) (parseFloat obj) \<noteq> NaN"

definition isPlainObject :: "jheap \<Rightarrow> js_val \<Rightarrow> bool" where
  "isPlainObject h obj =
     (case obj of
        JRef r \<Rightarrow>
          if cls (hobj h r) \<noteq> J ''Object'' then False
          else (case proto_of (hobj h r) of
                  None \<Rightarrow> True
                | Some p \<Rightarrow>
                    (case own_get h p (KStr (J ''constructor'')) of
                       Some (JRef c) \<Rightarrow> callable (hobj h c) \<and> object_source (hobj h c)
                     | _ \<Rightarrow> False))
      | _ \<Rightarrow> False)"

definition isEmptyObject :: "jheap \<Rightarrow> js_val \<Rightarrow> bool" where
  "isEmptyObject h obj \<longleftrightarrow> keys_in h obj = []"

text \<open>\<open>'length' in obj\<close> throws for a primitive that is true.\<close>

definition isArrayLike :: "jheap \<Rightarrow> js_val \<Rightarrow> js_err + bool" where
  "isArrayLike h obj =
     (case obj of
        JRef r \<Rightarrow>
          (let len = jfind h r length_key; type = jq_type h obj in
           if type = J ''function'' \<or> isWindow h obj then Inr False
           else Inr (type = J ''array'' \<or>
             (case len of
                Some (JNum n) \<Rightarrow> num_eq n (Fin 0) \<or>
                  (case n of Fin m \<Rightarrow> 0 < m \<and> jfind h r (KIdx (nat (m - 1))) \<noteq> None
                          | PInf \<Rightarrow> jfind h r (KStr (J ''Infinity'')) \<noteq> None | _ \<Rightarrow> False)
              | _ \<Rightarrow> False)))
      | _ \<Rightarrow> if truthy obj then Inl TypeError else Inr False)"

section \<open>extend\<close>

text \<open>
  The loop over the names of one source object. \<open>rec t o h\<close> is the recursive call
  \<open>jQuery.extend(deep, t, o)\<close>; its result is an exception or the heap, or \<open>None\<close> when it does not return.
\<close>

definition merge_target :: "jheap \<Rightarrow> js_val \<Rightarrow> js_val \<Rightarrow> nat \<times> jheap" where
  "merge_target h src copy =
     (if isPlainObject h copy then
        (case src of JRef s \<Rightarrow> if isPlainObject h src then (s, h) else alloc h blank | _ \<Rightarrow> alloc h blank)
      else
        (case src of JRef s \<Rightarrow> if is_array h src then (s, h) else alloc h (blank\<lparr>cls := J ''Array'', proto_of := Some 1\<rparr>)
                   | _ \<Rightarrow> alloc h (blank\<lparr>cls := J ''Array'', proto_of := Some 1\<rparr>)))"

text \<open>
  An assignment can throw: a chain may not become cyclic, and the length of an array is a 32-bit number, to which
  \<open>num\<close>, the conversion \<open>ToNumber\<close>, brings the value.
\<close>

definition array_length :: "js_num \<Rightarrow> bool" where
  "array_length n = (case n of Fin i \<Rightarrow> 0 \<le> i \<and> i < 2 ^ 32 | NZero \<Rightarrow> True | _ \<Rightarrow> False)"

definition checked_put :: "(js_val \<Rightarrow> js_num) \<Rightarrow> jheap \<Rightarrow> nat \<Rightarrow> js_key \<Rightarrow> js_val \<Rightarrow> js_err + jheap" where
  "checked_put num h r k v =
     (if k = proto_key \<and> proto_accessor h r then
        (case v of JRef p \<Rightarrow> if r = 0 \<or> r \<in> set (chain_of h p) then Inl TypeError else Inr (jput h r k v)
                 | _ \<Rightarrow> Inr (jput h r k v))
      else if is_array_obj (hobj h r) \<and> k = length_key then
        (if array_length (num v) then Inr (jput h r k (JNum (if num v = NZero then Fin 0 else num v))) else Inl RangeError)
      else Inr (jput h r k v))"

definition extend_name :: "(js_val \<Rightarrow> js_num) \<Rightarrow> (nat \<Rightarrow> js_val \<Rightarrow> jheap \<Rightarrow> (js_err + jheap) option)
    \<Rightarrow> bool \<Rightarrow> nat \<Rightarrow> js_val \<Rightarrow> js_key \<Rightarrow> jheap \<Rightarrow> (js_err + jheap) option" where
  "extend_name num rec deep target options name h =
     (let src = jget h target name; copy = get_in h options name in
      if copy = JRef target then Some (Inr h)
      else if deep \<and> (isPlainObject h copy \<or> is_array h copy) then
        (let (clone, h') = merge_target h src copy in
         case rec clone copy h' of
           Some (Inr h'') \<Rightarrow> Some (checked_put num h'' target name (JRef clone))
         | r \<Rightarrow> r)
      else if copy \<noteq> JUndef then Some (checked_put num h target name copy)
      else Some (Inr h))"

fun seq_opt :: "('a \<Rightarrow> 's \<Rightarrow> ('e + 's) option) \<Rightarrow> 'a list \<Rightarrow> 's \<Rightarrow> ('e + 's) option" where
  "seq_opt f [] s = Some (Inr s)"
| "seq_opt f (x # xs) s = (case f x s of Some (Inr s') \<Rightarrow> seq_opt f xs s' | r \<Rightarrow> r)"

definition extend_one :: "(js_val \<Rightarrow> js_num) \<Rightarrow> (nat \<Rightarrow> js_val \<Rightarrow> jheap \<Rightarrow> (js_err + jheap) option)
    \<Rightarrow> bool \<Rightarrow> nat \<Rightarrow> js_val \<Rightarrow> jheap \<Rightarrow> (js_err + jheap) option" where
  "extend_one num rec deep target options h = seq_opt (extend_name num rec deep target options) (keys_in h options) h"

text \<open>The depth of the recursion is bounded by \<open>fuel\<close>: a source that contains itself is copied without end.\<close>

fun extend_rec :: "(js_val \<Rightarrow> js_num) \<Rightarrow> nat \<Rightarrow> bool \<Rightarrow> nat \<Rightarrow> js_val \<Rightarrow> jheap \<Rightarrow> (js_err + jheap) option" where
  "extend_rec num 0 deep target options h = None"
| "extend_rec num (Suc fuel) deep target options h = extend_one num (extend_rec num fuel deep) deep target options h"

definition extend_into :: "(js_val \<Rightarrow> js_num) \<Rightarrow> nat \<Rightarrow> bool \<Rightarrow> nat \<Rightarrow> js_val list \<Rightarrow> jheap \<Rightarrow> (js_err + jheap) option" where
  "extend_into num fuel deep target = seq_opt (extend_rec num fuel deep target)"

text \<open>
  The arguments: an optional flag, the target, the sources. Only the flag true is recognised, since a first argument that
  is false is replaced by a new object before its type is tested. A target that is neither an object nor a function is replaced
  by a new object; with no source the receiver \<open>this\<close> is extended. The result is the target and the heap.
\<close>

definition extend_target :: "jheap \<Rightarrow> js_val \<Rightarrow> nat \<times> jheap" where
  "extend_target h v = (case v of
     JRef r \<Rightarrow> if callable (hobj h r) \<and> \<not> isFunction_jq h v then alloc h blank else (r, h)
   | _ \<Rightarrow> alloc h blank)"

definition with_target :: "nat \<Rightarrow> (js_err + jheap) option \<Rightarrow> (js_err + nat \<times> jheap) option" where
  "with_target t r = (case r of Some (Inr h) \<Rightarrow> Some (Inr (t, h)) | Some (Inl e) \<Rightarrow> Some (Inl e) | None \<Rightarrow> None)"

definition jq_extend :: "(js_val \<Rightarrow> js_num) \<Rightarrow> nat \<Rightarrow> nat \<Rightarrow> js_val list \<Rightarrow> jheap \<Rightarrow> (js_err + nat \<times> jheap) option" where
  "jq_extend num fuel this args h =
     (let (deep, rest) = (case args of JBool True # as \<Rightarrow> (True, as) | _ \<Rightarrow> (False, args)) in
      case rest of
        [] \<Rightarrow> Some (Inr (alloc h blank))
      | [v] \<Rightarrow> with_target this (extend_into num fuel deep this [v] (snd (extend_target h v)))
      | v # sources \<Rightarrow>
          with_target (fst (extend_target h v))
            (extend_into num fuel deep (fst (extend_target h v)) sources (snd (extend_target h v))))"

section \<open>Matched sets\<close>

text \<open>A set holds its elements and the set it was made from.\<close>

datatype jq_set = JqSet (items: "js_val list") (prevObject: "jq_set option")

definition toArray_jq :: "jq_set \<Rightarrow> js_val list" where
  "toArray_jq this = items this"

definition item_at :: "jq_set \<Rightarrow> int \<Rightarrow> js_val" where
  "item_at this i = (if 0 \<le> i \<and> i < int (length (items this)) then items this ! nat i else JUndef)"

definition get_nth :: "jq_set \<Rightarrow> int \<Rightarrow> js_val" where
  "get_nth this num = (if num < 0 then item_at this (num + int (length (items this))) else item_at this num)"

definition get_jq :: "jq_set \<Rightarrow> int option \<Rightarrow> js_val list + js_val" where
  "get_jq this num = (case num of None \<Rightarrow> Inl (items this) | Some n \<Rightarrow> Inr (get_nth this n))"

definition pushStack :: "jq_set \<Rightarrow> js_val list \<Rightarrow> jq_set" where
  "pushStack this elems = JqSet elems (Some this)"

definition slice_jq :: "jq_set \<Rightarrow> int \<Rightarrow> int option \<Rightarrow> jq_set" where
  "slice_jq this a b = pushStack this (case b of Some e \<Rightarrow> js_slice (items this) a e | None \<Rightarrow> js_slice1 (items this) a)"

definition eq_jq :: "jq_set \<Rightarrow> int \<Rightarrow> jq_set" where
  "eq_jq this i =
     (let len = int (length (items this)); j = i + (if i < 0 then len else 0)
      in pushStack this (if 0 \<le> j \<and> j < len then [item_at this j] else []))"

definition first_jq :: "jq_set \<Rightarrow> jq_set" where
  "first_jq this = eq_jq this 0"

definition last_jq :: "jq_set \<Rightarrow> jq_set" where
  "last_jq this = eq_jq this (-1)"

definition end_jq :: "jq_set \<Rightarrow> jq_set" where
  "end_jq this = (case prevObject this of Some p \<Rightarrow> p | None \<Rightarrow> JqSet [] None)"

section \<open>Loops\<close>

text \<open>The callback runs in a world that contains the heap; an element is read when its turn comes.\<close>

type_synonym ('w, 'a) hact = "(jheap \<times> 'w, 'a) act"

definition reading :: "(jheap \<Rightarrow> 'a) \<Rightarrow> ('w, 'a) hact" where
  "reading f = (\<lambda>(h, w). (Inr (f h), (h, w)))"

definition checked :: "(jheap \<Rightarrow> js_err + 'a) \<Rightarrow> ('w, 'a) hact" where
  "checked f = (\<lambda>(h, w). (f h, (h, w)))"

fun each_loop :: "js_val \<Rightarrow> (js_key \<Rightarrow> js_val \<Rightarrow> ('w, js_val) hact) \<Rightarrow> js_key list \<Rightarrow> ('w, unit) hact" where
  "each_loop obj callback [] = ret ()"
| "each_loop obj callback (i # is) =
     andThen (reading (\<lambda>h. get_in h obj i)) (\<lambda>v.
     andThen (callback i v) (\<lambda>r. if r = JBool False then ret () else each_loop obj callback is))"

text \<open>The length of an array-like object; it is a number that is not negative.\<close>

definition length_in :: "jheap \<Rightarrow> js_val \<Rightarrow> nat" where
  "length_in h obj = (case get_in h obj length_key of JNum (Fin n) \<Rightarrow> nat n | _ \<Rightarrow> 0)"

text \<open>The indices below the length, or the names of the properties, as they are at the start.\<close>

definition loop_keys :: "jheap \<Rightarrow> js_val \<Rightarrow> js_err + js_key list" where
  "loop_keys h obj =
     (case isArrayLike h obj of
        Inl e \<Rightarrow> Inl e
      | Inr True \<Rightarrow> Inr (map KIdx [0..<length_in h obj])
      | Inr False \<Rightarrow> Inr (keys_in h obj))"

definition each_jq :: "js_val \<Rightarrow> (js_key \<Rightarrow> js_val \<Rightarrow> ('w, js_val) hact) \<Rightarrow> ('w, js_val) hact" where
  "each_jq obj callback =
     andThen (checked (\<lambda>h. loop_keys h obj)) (\<lambda>ks. andThen (each_loop obj callback ks) (\<lambda>_. ret obj))"

fun grep_loop :: "js_val \<Rightarrow> (js_val \<Rightarrow> nat \<Rightarrow> ('w, js_val) hact) \<Rightarrow> bool \<Rightarrow> js_val list \<Rightarrow> nat list \<Rightarrow> ('w, js_val list) hact" where
  "grep_loop elems callback callbackExpect matches [] = ret matches"
| "grep_loop elems callback callbackExpect matches (i # is) =
     andThen (reading (\<lambda>h. get_in h elems (KIdx i))) (\<lambda>v.
     andThen (callback v i) (\<lambda>r.
     andThen (reading (\<lambda>h. get_in h elems (KIdx i))) (\<lambda>v'.
     grep_loop elems callback callbackExpect
       (if (\<not> truthy r) \<noteq> callbackExpect then matches @ [v'] else matches) is)))"

definition grep :: "js_val \<Rightarrow> (js_val \<Rightarrow> nat \<Rightarrow> ('w, js_val) hact) \<Rightarrow> bool \<Rightarrow> ('w, js_val list) hact" where
  "grep elems callback invert =
     andThen (reading (\<lambda>h. length_in h elems)) (\<lambda>len. grep_loop elems callback (\<not> invert) [] [0..<len])"

fun map_loop :: "js_val \<Rightarrow> (js_val \<Rightarrow> js_key \<Rightarrow> ('w, js_val) hact) \<Rightarrow> js_val list \<Rightarrow> js_key list \<Rightarrow> ('w, js_val list) hact" where
  "map_loop elems callback acc [] = ret acc"
| "map_loop elems callback acc (i # is) =
     andThen (reading (\<lambda>h. get_in h elems i)) (\<lambda>v.
     andThen (callback v i) (\<lambda>r.
     map_loop elems callback (if r \<in> {JUndef, JNull} then acc else acc @ [r]) is))"

text \<open>The elements of an array, a missing one as \<open>None\<close>.\<close>

definition array_elems :: "jheap \<Rightarrow> nat \<Rightarrow> js_array" where
  "array_elems h r = map (\<lambda>i. jfind h r (KIdx i)) [0..<jlength (hobj h r)]"

text \<open>\<open>concat.apply([], ret)\<close>: an array is replaced by its elements.\<close>

definition concat_vals :: "jheap \<Rightarrow> js_val list \<Rightarrow> js_array" where
  "concat_vals h vs = concat (map (\<lambda>v. case v of JRef r \<Rightarrow> if is_array h v then array_elems h r else [Some v] | _ \<Rightarrow> [Some v]) vs)"

definition map_jq :: "js_val \<Rightarrow> (js_val \<Rightarrow> js_key \<Rightarrow> ('w, js_val) hact) \<Rightarrow> ('w, js_array) hact" where
  "map_jq elems callback =
     andThen (checked (\<lambda>h. loop_keys h elems)) (\<lambda>ks.
     andThen (map_loop elems callback [] ks) (\<lambda>acc. reading (\<lambda>h. concat_vals h acc)))"

section \<open>Arrays and strings\<close>

text \<open>\<open>first[ i++ ] = second[ j ]\<close>, then the length; a string has no property to assign and is not used as \<open>first\<close>.\<close>

fun merge_loop :: "nat \<Rightarrow> js_val \<Rightarrow> nat \<Rightarrow> nat list \<Rightarrow> jheap \<Rightarrow> jheap" where
  "merge_loop first second i [] h = jput h first length_key (JNum (Fin (int i)))"
| "merge_loop first second i (j # js) h =
     merge_loop first second (Suc i) js (jput h first (KIdx i) (get_in h second (KIdx j)))"

definition merge :: "nat \<Rightarrow> js_val \<Rightarrow> jheap \<Rightarrow> jheap" where
  "merge first second h = merge_loop first second (length_in h (JRef first)) [0..<length_in h second] h"

text \<open>\<open>Object(arr)\<close> of a string, number or boolean is an object; only that of a string is array-like.\<close>

definition push_val :: "nat \<Rightarrow> js_val \<Rightarrow> jheap \<Rightarrow> jheap" where
  "push_val r v h = (let n = length_in h (JRef r) in jput (jput h r (KIdx n) v) r length_key (JNum (Fin (int (Suc n)))))"

definition makeArray :: "js_val \<Rightarrow> nat option \<Rightarrow> jheap \<Rightarrow> nat \<times> jheap" where
  "makeArray arr results h =
     (let (r, h') = (case results of Some r \<Rightarrow> (r, h) | None \<Rightarrow> alloc h (blank\<lparr>cls := J ''Array'', proto_of := Some 1\<rparr>)) in
      (r, case arr of
            JUndef \<Rightarrow> h'
          | JNull \<Rightarrow> h'
          | JStr s \<Rightarrow> push_val r arr h'
          | JRef a \<Rightarrow> if isArrayLike h' arr = Inr True then merge r arr h' else push_val r arr h'
          | _ \<Rightarrow> push_val r arr h'))"

text \<open>\<open>indexOf\<close> of an array from an index on; a negative one counts from the end.\<close>

definition inArray :: "js_val \<Rightarrow> js_val list \<Rightarrow> int \<Rightarrow> int" where
  "inArray elem arr i =
     (let start = (if i < 0 then nat (int (length arr) + i) else nat i) in
      case find (\<lambda>j. strict_eq (arr ! j) elem) [start..<length arr] of Some j \<Rightarrow> int j | None \<Rightarrow> -1)"

definition trim_jq :: "(js_val \<Rightarrow> js_string) \<Rightarrow> js_val \<Rightarrow> js_string" where
  "trim_jq str text = (if text \<in> {JUndef, JNull} then [] else trim (str text))"

definition is_lower :: "js_char \<Rightarrow> bool" where
  "is_lower c \<longleftrightarrow> 97 \<le> c \<and> c \<le> 122"

text \<open>\<open>replace(/-([a-z])/g, upper)\<close>.\<close>

fun dash_alpha :: "js_string \<Rightarrow> js_string" where
  "dash_alpha (a # b # s) = (if a = 45 \<and> is_lower b then (b - 32) # dash_alpha s else a # dash_alpha (b # s))"
| "dash_alpha s = s"

definition camelCase :: "js_string \<Rightarrow> js_string" where
  "camelCase s = dash_alpha (if prefix (J ''-ms-'') s then drop 1 s else s)"

section \<open>proxy\<close>

text \<open>The property key of a string: a canonical decimal number is an index.\<close>

definition digits_val :: "js_string \<Rightarrow> nat" where
  "digits_val s = fold (\<lambda>c n. 10 * n + (unat c - 48)) s 0"

definition key_of :: "js_string \<Rightarrow> js_key" where
  "key_of s = (if s \<noteq> [] \<and> list_all is_digit_char s \<and> (hd s \<noteq> 48 \<or> length s = 1) then KIdx (digits_val s) else KStr s)"

record jq_proxy =
  px_fn :: js_val
  px_context :: js_val
  px_args :: "js_val list"
  px_guid :: nat

record guids =
  next_guid :: nat
  guid_of :: "js_val \<rightharpoonup> nat"

text \<open>\<open>fn.guid = fn.guid || jQuery.guid++\<close>; \<open>None\<close> is the undefined result for what is no function.\<close>

definition take_guid :: "js_val \<Rightarrow> guids \<Rightarrow> nat \<times> guids" where
  "take_guid fn g = (case guid_of g fn of
     Some n \<Rightarrow> (n, g)
   | None \<Rightarrow> (next_guid g, g\<lparr>next_guid := Suc (next_guid g), guid_of := (guid_of g)(fn \<mapsto> next_guid g)\<rparr>))"

definition proxy :: "jheap \<Rightarrow> js_val \<Rightarrow> js_val \<Rightarrow> js_val list \<Rightarrow> guids \<Rightarrow> js_err + jq_proxy option \<times> guids" where
  "proxy h fn0 context0 args g =
     (if (case context0 of JStr _ \<Rightarrow> True | _ \<Rightarrow> False) \<and> fn0 \<in> {JUndef, JNull} then Inl TypeError
      else
        (let (fn, context) = (case context0 of JStr s \<Rightarrow> (get_in h fn0 (key_of s), fn0) | _ \<Rightarrow> (fn0, context0)) in
         if \<not> isFunction_jq h fn then Inr (None, g)
         else (let (n, g') = take_guid fn g
               in Inr (Some \<lparr>px_fn = fn, px_context = context, px_args = args, px_guid = n\<rparr>, g'))))"

text \<open>What a call of the proxy passes on: the function, its receiver and its arguments.\<close>

definition proxy_call :: "jq_proxy \<Rightarrow> js_val \<Rightarrow> js_val list \<Rightarrow> js_val \<times> js_val \<times> js_val list" where
  "proxy_call p this args = (px_fn p, if truthy (px_context p) then px_context p else this, px_args p @ args)"

end
