(* ===== verification/Jq_Extend.thy ===== *)
theory Jq_Extend
  imports Jq_Core
begin

text \<open>
  What \<open>jQuery.extend\<close> guarantees and what it does not: references and arrays stay well formed through every copy, a
  shallow copy has the contents its definition promises and touches nothing else, and a deep copy of an object that has
  an own property \<open>__proto__\<close> writes into the prototype that all objects share.
\<close>

section \<open>Well-formed heaps\<close>

definition val_ok :: "nat \<Rightarrow> js_val \<Rightarrow> bool" where
  "val_ok n v = (case v of JRef r \<Rightarrow> r < n | _ \<Rightarrow> True)"

text \<open>No dangling reference, no key twice, and no element of an array beyond its length.\<close>

definition obj_ok :: "nat \<Rightarrow> jq_object \<Rightarrow> bool" where
  "obj_ok n x \<longleftrightarrow>
     (case proto_of x of Some p \<Rightarrow> p < n | None \<Rightarrow> True) \<and>
     list_all (\<lambda>(k, v, _). val_ok n v \<and> (case k of KIdx i \<Rightarrow> i < jlength x | KStr _ \<Rightarrow> True)) (jprops x) \<and>
     distinct (map fst (jprops x))"

definition heap_ok :: "jheap \<Rightarrow> bool" where
  "heap_ok h \<longleftrightarrow> 2 \<le> length h \<and> list_all (obj_ok (length h)) h"

lemma val_ok_simps [simp]:
  "val_ok n JUndef" "val_ok n JNull" "val_ok n (JBool b)" "val_ok n (JNum m)" "val_ok n (JStr s)"
  "val_ok n (JRef r) \<longleftrightarrow> r < n"
  by (simp_all add: val_ok_def)

lemma val_ok_mono: "val_ok n v \<Longrightarrow> n \<le> m \<Longrightarrow> val_ok m v"
  by (cases v) auto

lemma obj_ok_mono: "obj_ok n x \<Longrightarrow> n \<le> m \<Longrightarrow> obj_ok m x"
  by (auto simp: obj_ok_def list_all_iff intro: val_ok_mono split: option.splits js_key.splits)

lemma obj_ok_blank: "2 \<le> n \<Longrightarrow> obj_ok n blank" "2 \<le> n \<Longrightarrow> obj_ok n (blank\<lparr>cls := c, proto_of := Some 1\<rparr>)"
  by (simp_all add: obj_ok_def blank_def)

lemma heap_ok_hobj: "heap_ok h \<Longrightarrow> obj_ok (length h) (hobj h r)"
  by (simp add: heap_ok_def hobj_def obj_ok_blank list_all_length)

lemma heap_ok_update: "heap_ok h \<Longrightarrow> obj_ok (length h) x \<Longrightarrow> heap_ok (h[r := x])"
  unfolding heap_ok_def list_all_iff by (auto dest: set_update_subset_insert [THEN subsetD])

lemma heap_ok_alloc: "heap_ok h \<Longrightarrow> obj_ok (length h) x \<Longrightarrow> heap_ok (h @ [x])"
  by (auto simp: heap_ok_def list_all_iff intro: obj_ok_mono)

lemma own_get_ok: "heap_ok h \<Longrightarrow> own_get h r k = Some v \<Longrightarrow> val_ok (length h) v"
  using heap_ok_hobj [of h r]
  by (fastforce simp: own_get_def obj_ok_def list_all_iff dest: map_of_SomeD split: if_splits)

lemma proto_val_ok: "heap_ok h \<Longrightarrow> val_ok (length h) (proto_val h r)"
  using heap_ok_hobj [of h r] by (auto simp: proto_val_def obj_ok_def split: option.splits)

lemma get_along_ok: "heap_ok h \<Longrightarrow> get_along h r k ps = Some v \<Longrightarrow> val_ok (length h) v"
  by (induction ps) (auto dest: own_get_ok simp: proto_val_ok split: option.splits if_splits)

lemma get_in_ok: "heap_ok h \<Longrightarrow> val_ok (length h) (get_in h v k)"
  by (auto simp: get_in_def jget_def jfind_def dest: get_along_ok split: js_val.splits option.splits js_key.splits)

lemma put_prop_set: "set (put_prop ps k v) \<subseteq> insert (k, v) (set ps)"
  by (auto simp: put_prop_def split: if_splits dest: set_takeWhileD set_dropWhileD)

lemma put_prop_distinct: "distinct (map fst ps) \<Longrightarrow> distinct (map fst (put_prop ps k v))"
proof (cases "k \<in> fst ` set ps")
  case True
  assume d: "distinct (map fst ps)"
  have "map fst (put_prop ps k v) = map fst ps" using True by (auto simp: put_prop_def)
  then show ?thesis using d by simp
next
  case False
  assume "distinct (map fst ps)"
  then have "distinct (map fst (takeWhile P ps @ dropWhile P ps))" for P by simp
  then have d: "distinct (map fst (takeWhile P ps) @ map fst (dropWhile P ps))" for P by (simp only: map_append)
  show ?thesis using d False by (auto simp: put_prop_def dest: set_takeWhileD set_dropWhileD)
qed

lemma map_of_put_prop: "map_of (put_prop ps k v) k' = (if k' = k then Some v else map_of ps k')"
proof (cases "k \<in> fst ` set ps")
  case True
  have "map_of (map (\<lambda>(k', v'). if k' = k then (k, v) else (k', v')) ps) k' =
      (if k' = k then (if k \<in> fst ` set ps then Some v else None) else map_of ps k')"
  proof (induction ps)
    case (Cons p ps)
    then show ?case by (cases p) (auto simp: image_iff; force)
  qed simp
  then show ?thesis using True by (simp add: put_prop_def)
next
  case False
  let ?P = "\<lambda>(k', _). \<not> key_before k k'"
  have "map_of (takeWhile ?P ps @ dropWhile ?P ps) k' = map_of ps k'" by simp
  then have s: "(map_of (dropWhile ?P ps) ++ map_of (takeWhile ?P ps)) k' = map_of ps k'" by (simp only: map_of_append)
  have "map_of (takeWhile ?P ps) k = None"
    using False by (auto simp: map_of_eq_None_iff dest: set_takeWhileD)
  then show ?thesis using False s by (auto simp: put_prop_def map_add_def split: option.splits)
qed

lemma own_put_ok: "obj_ok n x \<Longrightarrow> val_ok n v \<Longrightarrow> obj_ok n (own_put x k v)"
  using put_prop_set [of "jprops x" k]
  by (fastforce simp: obj_ok_def own_put_def put_prop_distinct list_all_iff split: js_key.splits option.splits)

lemma cut_length_ok: "obj_ok n x \<Longrightarrow> obj_ok n (cut_length x m)"
  by (auto simp: obj_ok_def cut_length_def list_all_iff distinct_map_filter split: js_key.splits)

lemma proto_update_ok: "obj_ok n x \<Longrightarrow> (case p of Some q \<Rightarrow> q < n | None \<Rightarrow> True) \<Longrightarrow> obj_ok n (x\<lparr>proto_of := p\<rparr>)"
  by (simp add: obj_ok_def cong: js_key.case_cong)

lemma jput_ok: "heap_ok h \<Longrightarrow> val_ok (length h) v \<Longrightarrow> heap_ok (jput h r k v) \<and> length (jput h r k v) = length h"
  using heap_ok_hobj [of h r]
  by (auto simp: jput_def intro!: heap_ok_update own_put_ok cut_length_ok proto_update_ok split: js_val.splits js_num.splits)

lemma checked_put_ok:
  "heap_ok h \<Longrightarrow> val_ok (length h) v \<Longrightarrow> checked_put num h r k v = Inr h' \<Longrightarrow> heap_ok h' \<and> length h' = length h"
  using jput_ok [of h v r k] jput_ok [of h "JNum m" r k for m]
  by (auto simp: checked_put_def split: if_splits js_val.splits)

lemma merge_target_ok:
  "heap_ok h \<Longrightarrow> val_ok (length h) src \<Longrightarrow> merge_target h src copy = (c, h') \<Longrightarrow>
   heap_ok h' \<and> c < length h' \<and> length h \<le> length h'"
  using heap_ok_alloc [OF _ obj_ok_blank(1), of h] heap_ok_alloc [OF _ obj_ok_blank(2), of h]
  by (auto simp: merge_target_def alloc_def heap_ok_def split: js_val.splits if_splits)

text \<open>A step that keeps the heap well formed and only adds objects.\<close>

definition grows_ok :: "jheap \<Rightarrow> (js_err + jheap) option \<Rightarrow> bool" where
  "grows_ok h r = (case r of Some (Inr h') \<Rightarrow> heap_ok h' \<and> length h \<le> length h' | _ \<Rightarrow> True)"

lemma seq_opt_ok:
  assumes "\<And>x h. x \<in> set xs \<Longrightarrow> heap_ok h \<Longrightarrow> n \<le> length h \<Longrightarrow> grows_ok h (f x h)"
  shows "heap_ok h \<Longrightarrow> n \<le> length h \<Longrightarrow> grows_ok h (seq_opt f xs h)"
  using assms
proof (induction xs arbitrary: h)
  case (Cons x xs)
  have 1: "grows_ok h (f x h)" using Cons by simp
  have 2: "heap_ok h1 \<Longrightarrow> n \<le> length h1 \<Longrightarrow> grows_ok h1 (seq_opt f xs h1)" for h1
    using Cons by simp
  show ?case
  proof (cases "f x h")
    case (Some r)
    then show ?thesis using 1 2 Cons.prems(2) by (cases r) (fastforce simp: grows_ok_def split: option.splits sum.splits)+
  qed (simp add: grows_ok_def)
qed (simp add: grows_ok_def)

lemma extend_name_ok:
  assumes rec: "\<And>t v h. heap_ok h \<Longrightarrow> t < length h \<Longrightarrow> val_ok (length h) v \<Longrightarrow> grows_ok h (rec t v h)"
    and h: "heap_ok h" "target < length h"
  shows "grows_ok h (extend_name num rec deep target options name h)"
proof -
  have src: "val_ok (length h) (jget h target name)"
    using get_in_ok [OF h(1), of "JRef target" name] by (simp add: get_in_def)
  have copy: "val_ok (length h) (get_in h options name)" by (rule get_in_ok [OF h(1)])
  obtain c h1 where c: "merge_target h (jget h target name) (get_in h options name) = (c, h1)" by fastforce
  note m = merge_target_ok [OF h(1) src c]
  have "grows_ok h1 (rec c (get_in h options name) h1)"
    using m copy by (intro rec) (auto intro: val_ok_mono)
  then have deep: "grows_ok h (case rec c (get_in h options name) h1 of
      Some (Inr h'') \<Rightarrow> Some (checked_put num h'' target name (JRef c)) | r \<Rightarrow> r)"
    using m by (fastforce simp: grows_ok_def dest: checked_put_ok [rotated 2] split: option.splits sum.splits)
  have "grows_ok h (Some (checked_put num h target name (get_in h options name)))"
    using checked_put_ok [OF h(1) copy] by (auto simp: grows_ok_def split: sum.splits)
  moreover have "grows_ok h (Some (Inr h))" using h by (simp add: grows_ok_def)
  ultimately show ?thesis using deep by (simp add: extend_name_def Let_def c)
qed

lemma extend_rec_ok:
  "heap_ok h \<Longrightarrow> target < length h \<Longrightarrow> grows_ok h (extend_rec num fuel deep target options h)"
proof (induction fuel arbitrary: target options h)
  case (Suc fuel)
  show ?case
    unfolding extend_rec.simps extend_one_def
    by (rule seq_opt_ok [where n = "Suc target"]) (use Suc in \<open>auto intro!: extend_name_ok\<close>)
qed (simp add: grows_ok_def)

lemma extend_target_ok:
  "heap_ok h \<Longrightarrow> val_ok (length h) v \<Longrightarrow> heap_ok (snd (extend_target h v)) \<and>
   fst (extend_target h v) < length (snd (extend_target h v)) \<and> length h \<le> length (snd (extend_target h v))"
  using heap_ok_alloc [OF _ obj_ok_blank(1), of h]
  by (auto simp: extend_target_def alloc_def heap_ok_def split: js_val.splits)

lemma extend_into_ok:
  "heap_ok h \<Longrightarrow> t < length h \<Longrightarrow> grows_ok h (extend_into num fuel deep t sources h)"
  unfolding extend_into_def by (rule seq_opt_ok [where n = "Suc t"]) (auto intro!: extend_rec_ok)

lemma with_target_ok: "grows_ok h r \<Longrightarrow> with_target t r = Some (Inr (t', h')) \<Longrightarrow> t' = t \<and> heap_ok h' \<and> length h \<le> length h'"
  by (auto simp: with_target_def grows_ok_def split: option.splits sum.splits)


section \<open>Shallow copies\<close>

text \<open>Assigning a property that is neither the prototype nor the length of an array.\<close>

definition plain_key :: "jheap \<Rightarrow> nat \<Rightarrow> js_key \<Rightarrow> bool" where
  "plain_key h r k \<longleftrightarrow> k \<noteq> proto_key \<and> \<not> (is_array_obj (hobj h r) \<and> (k = length_key \<or> (\<exists>i. k = KIdx i)))"

lemma checked_put_plain: "plain_key h r k \<Longrightarrow> checked_put num h r k v = Inr (h[r := own_put (hobj h r) k v])"
  by (auto simp: checked_put_def jput_def plain_key_def)

lemma own_put_simps [simp]:
  "proto_of (own_put x k v) = proto_of x" "is_array_obj (own_put x k v) = is_array_obj x"
  by (simp_all add: own_put_def is_array_obj_def)

lemma hobj_update: "r < length h \<Longrightarrow> hobj (h[r := x]) p = (if p = r then x else hobj h p)"
  by (simp add: hobj_def)

lemma chain_cong: "(\<And>p. proto_of (hobj h' p) = proto_of (hobj h p)) \<Longrightarrow> proto_chain h' n r = proto_chain h n r"
  by (induction h n r rule: proto_chain.induct) auto

lemma own_get_put:
  assumes "r < length h" "plain_key h r k"
  shows "own_get (h[r := own_put (hobj h r) k v]) p k' = (if p = r \<and> k' = k then Some v else own_get h p k')"
  using assms by (auto simp: own_get_def hobj_update own_put_def map_of_put_prop plain_key_def is_array_obj_def split: js_key.splits)

lemma chain_of_put: "r < length h \<Longrightarrow> chain_of (h[r := own_put (hobj h r) k v]) p = chain_of h p"
  unfolding chain_of_def length_list_update by (rule chain_cong) (simp add: hobj_update)

lemma get_along_cong:
  "(\<And>p. p \<in> set ps \<Longrightarrow> own_get h' p k = own_get h p k) \<Longrightarrow> proto_val h' r = proto_val h r \<Longrightarrow>
   get_along h' r k ps = get_along h r k ps"
  by (induction ps) (auto split: option.splits)

lemma chain_of_hd: "chain_of h r = r # proto_chain h (length h) (proto_of (hobj h r))"
  by (simp add: chain_of_def)

lemma jget_put:
  assumes "r < length h" "plain_key h r k" "p = r \<or> r \<notin> set (chain_of h p)"
  shows "jget (h[r := own_put (hobj h r) k v]) p k' = (if p = r \<and> k' = k then v else jget h p k')"
proof -
  let ?h = "h[r := own_put (hobj h r) k v]"
  have pv: "proto_val ?h q = proto_val h q" for q using assms(1) by (simp add: proto_val_def hobj_update)
  have "get_along ?h p k' (chain_of h p) = (if p = r \<and> k' = k then Some v else get_along h p k' (chain_of h p))"
  proof (cases "p = r \<and> k' = k")
    case True
    then show ?thesis using assms by (simp add: chain_of_hd own_get_put)
  next
    case False
    have "get_along ?h p k' (chain_of h p) = get_along h p k' (chain_of h p)"
      by (rule get_along_cong [OF _ pv]) (use False assms own_get_put [OF assms(1,2)] in auto)
    then show ?thesis using False by auto
  qed
  then show ?thesis using assms by (simp add: jget_def jfind_def chain_of_put)
qed

lemma extend_names_shallow:
  assumes "list_all (plain_key h t) ks" and "t < length h" and "t \<notin> set (chain_of h s)"
  shows "\<exists>h'. seq_opt (extend_name num rec False t (JRef s)) ks h = Some (Inr h') \<and> length h' = length h \<and>
     (\<forall>r. r \<noteq> t \<longrightarrow> hobj h' r = hobj h r) \<and>
     (\<forall>k. jget h' t k = (if k \<in> set ks \<and> jget h s k \<notin> {JUndef, JRef t} then jget h s k else jget h t k))"
  using assms
proof (induction ks arbitrary: h)
  case (Cons k ks)
  let ?c = "jget h s k"
  show ?case
  proof (cases "?c \<in> {JUndef, JRef t}")
    case True
    then have "extend_name num rec False t (JRef s) k h = Some (Inr h)" by (auto simp: extend_name_def get_in_def Let_def)
    moreover have "\<exists>h'. seq_opt (extend_name num rec False t (JRef s)) ks h = Some (Inr h') \<and> length h' = length h \<and>
       (\<forall>r. r \<noteq> t \<longrightarrow> hobj h' r = hobj h r) \<and>
       (\<forall>k. jget h' t k = (if k \<in> set ks \<and> jget h s k \<notin> {JUndef, JRef t} then jget h s k else jget h t k))"
      by (rule Cons.IH) (use Cons.prems in auto)
    ultimately show ?thesis using True by auto
  next
    case False
    let ?h = "h[t := own_put (hobj h t) k ?c]"
    have k: "plain_key h t k" using Cons.prems by simp
    have e: "extend_name num rec False t (JRef s) k h = Some (Inr ?h)"
      using False k by (simp add: extend_name_def get_in_def Let_def checked_put_plain)
    have ks: "list_all (plain_key ?h t) ks" using Cons.prems by (simp add: list_all_iff plain_key_def hobj_update)
    have s: "t \<notin> set (chain_of ?h s)" using Cons.prems by (simp add: chain_of_put)
    have same: "jget ?h s k' = jget h s k'" for k'
      using jget_put [OF Cons.prems(2) k, of s] Cons.prems(3) by (auto simp: chain_of_hd)
    have t: "jget ?h t k' = (if k' = k then ?c else jget h t k')" for k'
      using jget_put [OF Cons.prems(2) k, of t] by simp
    obtain h' where h': "seq_opt (extend_name num rec False t (JRef s)) ks ?h = Some (Inr h')" "length h' = length h"
       "\<And>r. r \<noteq> t \<Longrightarrow> hobj h' r = hobj ?h r"
       "\<And>k'. jget h' t k' = (if k' \<in> set ks \<and> jget ?h s k' \<notin> {JUndef, JRef t} then jget ?h s k' else jget ?h t k')"
      using Cons.IH [OF ks _ s] Cons.prems(2) by auto
    show ?thesis
      using h' e False same t Cons.prems(2) by (auto simp: hobj_update)
  qed
qed simp

section \<open>The prototype of all objects\<close>

text \<open>
  The heap of a page: \<open>Object.prototype\<close>, \<open>Array.prototype\<close>, the function \<open>Object\<close>, an empty object, an object whose own
  property \<open>__proto__\<close> is the next object, as \<open>JSON.parse\<close> makes it, and one more empty object.
\<close>

definition page_heap :: jheap where
  "page_heap =
     [blank\<lparr>proto_of := None, jprops := [(KStr (J ''constructor''), JRef 2, False)]\<rparr>,
      blank\<lparr>cls := J ''Array''\<rparr>,
      blank\<lparr>cls := J ''Function'', callable := True, object_source := True\<rparr>,
      blank,
      blank\<lparr>jprops := [(proto_key, JRef 5, True)]\<rparr>,
      blank\<lparr>jprops := [(KStr (J ''polluted''), JBool True, True)]\<rparr>,
      blank]"

theorem extend_pollutes_prototype:
  "jget page_heap 6 (KStr (J ''polluted'')) = JUndef \<and>
   (case jq_extend (\<lambda>_. NaN) 4 2 [JBool True, JRef 3, JRef 4] page_heap of
      Some (Inr (_, h')) \<Rightarrow> jget h' 6 (KStr (J ''polluted'')) = JBool True \<and> hobj h' 6 = hobj page_heap 6
    | _ \<Rightarrow> False)"
  by code_simp

section \<open>Properties\<close>






end
