(* ===== verification/Jq_Callbacks.thy ===== *)
theory Jq_Callbacks
  imports Js_Prelude "HOL-Library.Multiset"
begin

text \<open>
  The callback lists of \<open>jquery-3.2.1.js\<close>, lines 3244 to 3466, on which deferreds, queues and requests are built.

  The variables of the closure are a record. A callback runs while its list is firing and may use the list itself; what it
  then does is a list of commands, which with the list firing never start another loop. \<open>call\<close> gives for a callback,
  the value it is called with, the state of the list and the world its commands, how it ends and the next
  world. The loops are partial functions: a callback that adds itself again and again keeps them from returning.
\<close>

section \<open>State\<close>

record cb_options =
  once :: bool
  opt_memory :: bool
  unique :: bool
  stopOnFalse :: bool

text \<open>The list is \<open>None\<close> when it is the empty string, that is disabled or spent; \<open>memory\<close> is \<open>None\<close> when it is false.\<close>

record ('f, 'a) cbs =
  firing :: bool
  memory :: "'a option"
  fired :: bool
  locked :: bool
  clist :: "'f list option"
  queue :: "'a list"
  firingIndex :: int

definition Callbacks :: "('f, 'a) cbs" where
  "Callbacks = \<lparr>firing = False, memory = None, fired = False, locked = False, clist = Some [], queue = [], firingIndex = -1\<rparr>"

text \<open>An argument of \<open>add\<close>: a function, an array of arguments, or something that is ignored.\<close>

datatype 'f cb_arg = ArgFun 'f | ArgList "'f cb_arg list" | ArgOther

datatype ('f, 'a) cb_cmd =
    CAdd "'f cb_arg list"
  | CRemove "'f list"
  | CEmpty
  | CDisable
  | CLock
  | CFireWith 'a

datatype cb_end = ReturnsFalse | Returns | Throws

type_synonym ('f, 'a, 'w) cb_call = "'f \<Rightarrow> 'a option \<Rightarrow> ('f, 'a) cbs \<Rightarrow> 'w \<Rightarrow> ('f, 'a) cb_cmd list \<times> cb_end \<times> 'w"

section \<open>Options\<close>

definition html_space :: "js_char \<Rightarrow> bool" where
  "html_space c \<longleftrightarrow> c \<in> {32, 9, 13, 10, 12}"

text \<open>\<open>match(/[^\x20\t\r\n\f]+/g)\<close>: the words between white space.\<close>

fun words_loop :: "js_string \<Rightarrow> js_string \<Rightarrow> js_string list" where
  "words_loop w [] = (if w = [] then [] else [w])"
| "words_loop w (c # s) =
     (if html_space c then (if w = [] then words_loop [] s else w # words_loop [] s) else words_loop (w @ [c]) s)"

definition html_words :: "js_string \<Rightarrow> js_string list" where
  "html_words s = words_loop [] s"

definition createOptions :: "js_string \<Rightarrow> cb_options" where
  "createOptions s =
     (let flag = (\<lambda>n. J n \<in> set (html_words s)) in
      \<lparr>once = flag ''once'', opt_memory = flag ''memory'', unique = flag ''unique'', stopOnFalse = flag ''stopOnFalse''\<rparr>)"

section \<open>Operations\<close>

definition list_of :: "('f, 'a) cbs \<Rightarrow> 'f list" where
  "list_of st = (case clist st of Some fs \<Rightarrow> fs | None \<Rightarrow> [])"

fun add_arg :: "bool \<Rightarrow> 'f cb_arg \<Rightarrow> 'f list \<Rightarrow> 'f list" and add_args :: "bool \<Rightarrow> 'f cb_arg list \<Rightarrow> 'f list \<Rightarrow> 'f list" where
  "add_arg uniq (ArgFun f) fs = (if \<not> uniq \<or> f \<notin> set fs then fs @ [f] else fs)"
| "add_arg uniq (ArgList as) fs = add_args uniq as fs"
| "add_arg uniq ArgOther fs = fs"
| "add_args uniq [] fs = fs"
| "add_args uniq (a # as) fs = add_args uniq as (add_arg uniq a fs)"

text \<open>The state and whether \<open>fire\<close> is to be called.\<close>

definition add :: "cb_options \<Rightarrow> 'f cb_arg list \<Rightarrow> ('f, 'a) cbs \<Rightarrow> ('f, 'a) cbs \<times> bool" where
  "add opts args st =
     (case clist st of
        None \<Rightarrow> (st, False)
      | Some fs \<Rightarrow>
          let again = (case memory st of Some m \<Rightarrow> if \<not> firing st then [m] else [] | None \<Rightarrow> []) in
          (st\<lparr>firingIndex := (if again \<noteq> [] then int (length fs) - 1 else firingIndex st),
              queue := queue st @ again,
              clist := Some (add_args (unique opts) args fs)\<rparr>,
           again \<noteq> []))"

definition find_from :: "'f \<Rightarrow> nat \<Rightarrow> 'f list \<Rightarrow> nat option" where
  "find_from f i fs = find (\<lambda>j. fs ! j = f) [i..<length fs]"

lemma find_from_SomeD: "find_from f i fs = Some j \<Longrightarrow> i \<le> j \<and> j < length fs \<and> fs ! j = f \<and> (\<forall>k. i \<le> k \<longrightarrow> k < j \<longrightarrow> fs ! k \<noteq> f)"
proof -
  assume "find_from f i fs = Some j"
  then obtain m where m: "m < length fs - i" "fs ! (i + m) = f" "j = i + m" "\<And>k. k < m \<Longrightarrow> fs ! (i + k) \<noteq> f"
    by (auto simp: find_from_def find_Some_iff)
  have "fs ! k \<noteq> f" if "i \<le> k" "k < j" for k using m(4) [of "k - i"] m(3) that by simp
  then show ?thesis using m by auto
qed

lemma find_from_NoneD: "find_from f i fs = None \<Longrightarrow> f \<notin> set (drop i fs)"
  by (auto simp: find_from_def find_None_iff in_set_conv_nth)

function remove_loop :: "'f \<Rightarrow> nat \<Rightarrow> 'f list \<times> int \<Rightarrow> 'f list \<times> int" where
  "remove_loop f i (fs, fi) =
     (case find_from f i fs of
        None \<Rightarrow> (fs, fi)
      | Some j \<Rightarrow> remove_loop f j (take j fs @ drop (Suc j) fs, if int j \<le> fi then fi - 1 else fi))"
  by pat_completeness auto
termination
  by (relation "measure (\<lambda>(_, _, fs, _). length fs)") (auto dest: find_from_SomeD)

declare remove_loop.simps [simp del]

definition cb_remove :: "'f list \<Rightarrow> ('f, 'a) cbs \<Rightarrow> ('f, 'a) cbs" where
  "cb_remove args st =
     (let (fs, fi) = fold (\<lambda>f. remove_loop f 0) args (list_of st, firingIndex st)
      in st\<lparr>clist := (case clist st of Some _ \<Rightarrow> Some fs | None \<Rightarrow> None), firingIndex := fi\<rparr>)"

definition has_cb :: "('f, 'a) cbs \<Rightarrow> 'f option \<Rightarrow> bool" where
  "has_cb st fn = (case fn of Some f \<Rightarrow> f \<in> set (list_of st) | None \<Rightarrow> list_of st \<noteq> [])"

definition empty_cb :: "('f, 'a) cbs \<Rightarrow> ('f, 'a) cbs" where
  "empty_cb st = st\<lparr>clist := (case clist st of Some _ \<Rightarrow> Some [] | None \<Rightarrow> None)\<rparr>"

definition disable :: "('f, 'a) cbs \<Rightarrow> ('f, 'a) cbs" where
  "disable st = st\<lparr>locked := True, queue := [], clist := None, memory := None\<rparr>"

definition disabled :: "('f, 'a) cbs \<Rightarrow> bool" where
  "disabled st \<longleftrightarrow> clist st = None"

definition lock :: "('f, 'a) cbs \<Rightarrow> ('f, 'a) cbs" where
  "lock st =
     (let st' = st\<lparr>locked := True, queue := []\<rparr>
      in if memory st = None \<and> \<not> firing st then st'\<lparr>clist := None, memory := None\<rparr> else st')"

definition fireWith :: "'a \<Rightarrow> ('f, 'a) cbs \<Rightarrow> ('f, 'a) cbs \<times> bool" where
  "fireWith args st =
     (if locked st then (st, False) else (st\<lparr>queue := queue st @ [args]\<rparr>, \<not> firing st))"

fun command :: "cb_options \<Rightarrow> ('f, 'a) cb_cmd \<Rightarrow> ('f, 'a) cbs \<Rightarrow> ('f, 'a) cbs \<times> bool" where
  "command opts (CAdd args) st = add opts args st"
| "command opts (CRemove fs) st = (cb_remove fs st, False)"
| "command opts CEmpty st = (empty_cb st, False)"
| "command opts CDisable st = (disable st, False)"
| "command opts CLock st = (lock st, False)"
| "command opts (CFireWith a) st = fireWith a st"

text \<open>The commands of a callback, run while the list is firing.\<close>

definition commands :: "cb_options \<Rightarrow> ('f, 'a) cb_cmd list \<Rightarrow> ('f, 'a) cbs \<Rightarrow> ('f, 'a) cbs" where
  "commands opts = fold (\<lambda>c st. fst (command opts c st))"

section \<open>Firing\<close>

text \<open>The inner loop; the flag of the result tells that a callback has thrown.\<close>

partial_function (option) fire_while ::
  "cb_options \<Rightarrow> ('f, 'a, 'w) cb_call \<Rightarrow> ('f, 'a) cbs \<Rightarrow> 'w \<Rightarrow> (('f, 'a) cbs \<times> 'w \<times> bool) option" where
  "fire_while opts call st w =
     (let st1 = st\<lparr>firingIndex := firingIndex st + 1\<rparr> in
      if firingIndex st1 < int (length (list_of st1)) then
        (let (cmds, r, w') = call (list_of st1 ! nat (firingIndex st1)) (memory st1) st1 w;
             st2 = commands opts cmds st1
         in if r = Throws then Some (st2, w', True)
            else if r = ReturnsFalse \<and> stopOnFalse opts then
              fire_while opts call (st2\<lparr>firingIndex := int (length (list_of st2)), memory := None\<rparr>) w'
            else fire_while opts call st2 w')
      else Some (st1, w, False))"

declare fire_while.simps [code]

partial_function (option) fire_for ::
  "cb_options \<Rightarrow> ('f, 'a, 'w) cb_call \<Rightarrow> ('f, 'a) cbs \<Rightarrow> 'w \<Rightarrow> (('f, 'a) cbs \<times> 'w \<times> bool) option" where
  "fire_for opts call st w =
     (case queue st of
        [] \<Rightarrow> Some (st, w, False)
      | m # q \<Rightarrow>
          Option.bind (fire_while opts call (st\<lparr>memory := Some m, queue := q\<rparr>) w) (\<lambda>(st', w', thrown).
            if thrown then Some (st', w', True) else fire_for opts call (st'\<lparr>firingIndex := -1\<rparr>) w'))"

declare fire_for.simps [code]

definition finish :: "cb_options \<Rightarrow> ('f, 'a) cbs \<Rightarrow> ('f, 'a) cbs" where
  "finish opts st =
     (let st1 = st\<lparr>memory := (if opt_memory opts then memory st else None), firing := False\<rparr>
      in if locked st1 then st1\<lparr>clist := (if memory st1 \<noteq> None then Some [] else None)\<rparr> else st1)"

definition fire :: "cb_options \<Rightarrow> ('f, 'a, 'w) cb_call \<Rightarrow> ('f, 'a) cbs \<Rightarrow> 'w \<Rightarrow> (('f, 'a) cbs \<times> 'w \<times> bool) option" where
  "fire opts call st w =
     Option.bind (fire_for opts call (st\<lparr>locked := locked st \<or> once opts, fired := True, firing := True\<rparr>) w)
       (\<lambda>(st', w', thrown). Some (if thrown then st' else finish opts st', w', thrown))"

text \<open>A command from outside, and a sequence of them; who calls them survives an exception.\<close>

definition perform :: "cb_options \<Rightarrow> ('f, 'a, 'w) cb_call \<Rightarrow> ('f, 'a) cb_cmd \<Rightarrow> ('f, 'a) cbs \<Rightarrow> 'w \<Rightarrow> (('f, 'a) cbs \<times> 'w \<times> bool) option" where
  "perform opts call c st w =
     (let (st', go) = command opts c st in if go then fire opts call st' w else Some (st', w, False))"

fun performs :: "cb_options \<Rightarrow> ('f, 'a, 'w) cb_call \<Rightarrow> ('f, 'a) cb_cmd list \<Rightarrow> ('f, 'a) cbs \<Rightarrow> 'w \<Rightarrow> (('f, 'a) cbs \<times> 'w) option" where
  "performs opts call [] st w = Some (st, w)"
| "performs opts call (c # cs) st w =
     Option.bind (perform opts call c st w) (\<lambda>(st', w', _). performs opts call cs st' w')"

section \<open>Lemmas\<close>

lemma command_firing: "firing st \<Longrightarrow> \<not> snd (command opts c st) \<and> firing (fst (command opts c st))"
  by (cases c) (auto simp: add_def cb_remove_def empty_cb_def disable_def lock_def fireWith_def Let_def split: option.splits prod.splits)

text \<open>Removing keeps the order of the others, and the callbacks that are still to be called are the same less the removed.\<close>

lemma remove_loop_spec:
  assumes "f \<notin> set (take i fs)" and "-1 \<le> fi" and "fi < int (length fs)"
  shows "\<exists>fi'. remove_loop f i (fs, fi) = (removeAll f fs, fi') \<and> -1 \<le> fi' \<and> fi' < int (length (removeAll f fs)) \<and>
     drop (nat (fi' + 1)) (removeAll f fs) = removeAll f (drop (nat (fi + 1)) fs)"
  using assms
proof (induction f i "(fs, fi)" arbitrary: fs fi rule: remove_loop.induct)
  case (1 f i fs fi)
  show ?case
  proof (cases "find_from f i fs")
    case None
    have "fs = take i fs @ drop i fs" by simp
    then have "f \<notin> set fs" using 1(2) find_from_NoneD [OF None] by (metis Un_iff set_append)
    moreover have "f \<notin> set (drop n fs)" for n using calculation by (meson in_set_dropD)
    ultimately show ?thesis using None 1 by (simp add: remove_loop.simps [of f i fs])
  next
    case (Some j)
    note j = find_from_SomeD [OF Some]
    let ?fs = "take j fs @ drop (Suc j) fs" and ?fi = "if int j \<le> fi then fi - 1 else fi"
    have fs: "fs = take j fs @ f # drop (Suc j) fs" using j id_take_nth_drop [of j fs] by simp
    have no: "f \<notin> set (take j fs)"
    proof
      assume "f \<in> set (take j fs)"
      then obtain k where k: "k < j" "k < length fs" "fs ! k = f" by (auto simp: in_set_conv_nth)
      then show False
        using j 1(2) by (metis in_set_conv_nth length_take linorder_not_less min_less_iff_conj nth_take)
    qed
    have rem: "removeAll f ?fs = removeAll f fs" by (subst (2) fs) simp
    have d: "drop (nat fi) ?fs = drop (nat (fi + 1)) fs" if "int j \<le> fi"
    proof -
      have "nat (fi + 1) = Suc j + (nat fi - j)" "nat fi = j + (nat fi - j)" using that by auto
      then show ?thesis using j by (simp add: drop_append min_def)
    qed
    have e: "removeAll f (drop (nat (fi + 1)) ?fs) = removeAll f (drop (nat (fi + 1)) fs)" if "\<not> int j \<le> fi"
    proof -
      have n: "nat (fi + 1) \<le> j" using that by simp
      have "drop (nat (fi + 1)) fs = drop (nat (fi + 1)) (take j fs) @ f # drop (Suc j) fs"
        by (subst fs) (use n j in simp)
      moreover have "drop (nat (fi + 1)) ?fs = drop (nat (fi + 1)) (take j fs) @ drop (Suc j) fs"
        using n j by simp
      ultimately show ?thesis by simp
    qed
    have "\<exists>fi'. remove_loop f j (?fs, ?fi) = (removeAll f ?fs, fi') \<and> -1 \<le> fi' \<and> fi' < int (length (removeAll f ?fs)) \<and>
        drop (nat (fi' + 1)) (removeAll f ?fs) = removeAll f (drop (nat (?fi + 1)) ?fs)"
      using 1(1) [OF Some] no j 1(3,4) by (auto simp: min_def)
    then obtain fi' where i: "remove_loop f j (?fs, ?fi) = (removeAll f fs, fi')" "-1 \<le> fi'"
        "fi' < int (length (removeAll f fs))" "drop (nat (fi' + 1)) (removeAll f fs) = removeAll f (drop (nat (?fi + 1)) ?fs)"
      unfolding rem by blast
    have "removeAll f (drop (nat (?fi + 1)) ?fs) = removeAll f (drop (nat (fi + 1)) fs)"
    proof (cases "int j \<le> fi")
      case True
      then have "nat (?fi + 1) = nat fi" by simp
      then show ?thesis using d [OF True] by (simp only:)
    next
      case False
      then have "?fi = fi" by simp
      then show ?thesis using e [OF False] by (simp only:)
    qed
    then show ?thesis using Some i by (simp add: remove_loop.simps [of f i fs])
  qed
qed

end
