(* ===== verification/Jq_Firing.thy ===== *)
theory Jq_Firing
  imports Jq_Callbacks
begin

text \<open>
  What callback lists guarantee: a list with the options \<open>once memory\<close>, as deferreds, queues and requests use it, calls
  each callback exactly once with the first value, a disabled list calls nothing any more, and a callback that throws
  leaves its list firing for ever.
\<close>

section \<open>Callbacks that add callbacks\<close>

text \<open>A world that records the calls.\<close>

definition logged :: "('f, 'a, 'w) cb_call \<Rightarrow> ('f, 'a, 'w \<times> ('f \<times> 'a option) list) cb_call" where
  "logged call f m st = (\<lambda>(w, log). let (cmds, r, w') = call f m st w in (cmds, r, (w', log @ [(f, m)])))"

definition once_memory :: cb_options where
  "once_memory = createOptions (J ''once memory'')"

lemma once_memory_simps [simp]:
  "once once_memory" "opt_memory once_memory" "\<not> unique once_memory" "\<not> stopOnFalse once_memory"
  by code_simp+

definition adds :: "('f, 'a) cb_cmd \<Rightarrow> 'f list" where
  "adds c = (case c of CAdd args \<Rightarrow> add_args False args [] | _ \<Rightarrow> [])"

definition add_or_fire :: "('f, 'a) cb_cmd \<Rightarrow> bool" where
  "add_or_fire c = (case c of CAdd _ \<Rightarrow> True | CFireWith _ \<Rightarrow> True | _ \<Rightarrow> False)"

definition nested :: "('f \<Rightarrow> ('f, 'a) cb_cmd list) \<Rightarrow> 'f \<Rightarrow> 'f list" where
  "nested script f = concat (map adds (script f))"

text \<open>
  The callback \<open>f\<close> performs \<open>script f\<close>, which only adds and fires, and does not throw. What it adds has a lower rank, so that
  adding comes to an end.
\<close>

definition behaves :: "('f, 'a, 'w) cb_call \<Rightarrow> ('f \<Rightarrow> ('f, 'a) cb_cmd list) \<Rightarrow> ('f \<Rightarrow> nat) \<Rightarrow> bool" where
  "behaves call script rank \<longleftrightarrow>
     (\<forall>f m st w. fst (call f m st w) = script f \<and> fst (snd (call f m st w)) \<noteq> Throws) \<and>
     (\<forall>f. list_all add_or_fire (script f) \<and> list_all (\<lambda>g. rank g < rank f) (nested script f))"

text \<open>The calls \<open>L\<close> that follow from the callbacks \<open>fs\<close>: these first, then what each of them added, in turn.\<close>

definition calls_of :: "('f \<Rightarrow> 'f list) \<Rightarrow> 'f list \<Rightarrow> 'f list \<Rightarrow> bool" where
  "calls_of nest fs L \<longleftrightarrow> L = fs @ concat (map nest L)"

lemma add_args_append_if:
  "(\<And>a fs. a \<in> set as \<Longrightarrow> add_arg False a fs = fs @ add_arg False a []) \<Longrightarrow>
   add_args False as fs = fs @ add_args False as []"
proof (induction as arbitrary: fs)
  case (Cons a as)
  have IH: "add_args False as gs = gs @ add_args False as []" for gs
    by (rule Cons.IH) (rule Cons.prems, simp)
  have "add_args False as (add_arg False a fs) = fs @ add_arg False a [] @ add_args False as []"
    using IH [of "add_arg False a fs"] Cons.prems [of a fs] by simp
  then show ?case using IH [of "add_arg False a []"] by simp
qed simp

lemma add_arg_append: "add_arg False a fs = fs @ add_arg False a []"
proof (induction a arbitrary: fs)
  case (ArgList as)
  then show ?case unfolding add_arg.simps by (intro add_args_append_if)
qed simp_all

lemma add_args_append: "add_args False as fs = fs @ add_args False as []"
  by (rule add_args_append_if) (rule add_arg_append)

text \<open>Commands of a callback: the list gets longer, nothing else changes, because the list is locked and firing.\<close>

lemma command_locked:
  "firing st \<Longrightarrow> locked st \<Longrightarrow> clist st = Some fs \<Longrightarrow> add_or_fire c \<Longrightarrow>
   fst (command once_memory c st) = st\<lparr>clist := Some (fs @ adds c)\<rparr>"
  using add_args_append [of _ fs]
  by (cases c) (auto simp: add_def adds_def add_or_fire_def fireWith_def split: option.splits)

lemma commands_locked:
  "firing st \<Longrightarrow> locked st \<Longrightarrow> clist st = Some fs \<Longrightarrow> list_all add_or_fire cs \<Longrightarrow>
   commands once_memory cs st = st\<lparr>clist := Some (fs @ concat (map adds cs))\<rparr>"
proof (induction cs arbitrary: st fs)
  case (Cons c cs)
  have "commands once_memory (c # cs) st = commands once_memory cs (st\<lparr>clist := Some (fs @ adds c)\<rparr>)"
    using Cons.prems by (simp add: commands_def command_locked)
  then show ?case using Cons by simp
qed (simp add: commands_def)

lemma fewer_ranks:
  "list_all (\<lambda>g. rank g < rank f) gs \<Longrightarrow>
   (mset (map rank (fs @ gs)), mset (map rank (f # fs))) \<in> mult less_than"
  using one_step_implies_mult [of "{#rank f#}" "mset (map rank gs)" less_than "mset (map rank fs)"]
  by (auto simp: list_all_iff)

lemma cbs_same_list: "clist st = Some fs \<Longrightarrow> st\<lparr>clist := Some fs, firingIndex := i\<rparr> = st\<lparr>firingIndex := i\<rparr>"
  by (cases st) simp

lemma fire_while_calls:
  assumes "behaves call script rank"
  shows "firing st \<Longrightarrow> locked st \<Longrightarrow> clist st = Some fs \<Longrightarrow> -1 \<le> firingIndex st \<Longrightarrow> memory st = Some v \<Longrightarrow>
     ps = drop (nat (firingIndex st + 1)) fs \<Longrightarrow> firingIndex st < int (length fs) \<Longrightarrow>
     \<exists>w' L fi. fire_while once_memory (logged call) st (w, log) =
         Some (st\<lparr>clist := Some (fs @ concat (map (nested script) L)), firingIndex := fi\<rparr>,
               (w', log @ map (\<lambda>f. (f, Some v)) L), False) \<and>
       calls_of (nested script) ps L"
proof (induction "mset (map rank ps)" arbitrary: ps fs st w log rule: wf_induct_rule [OF wf_mult [OF wf_less_than]])
  case 1
  let ?st = "st\<lparr>firingIndex := firingIndex st + 1\<rparr>"
  show ?case
  proof (cases ps)
    case Nil
    then have "\<not> firingIndex st + 1 < int (length fs)" using 1 by auto
    then have "fire_while once_memory (logged call) st (w, log) = Some (?st, (w, log), False)"
      using 1 by (simp add: fire_while.simps list_of_def)
    then show ?thesis using Nil 1(4) by (intro exI [of _ w] exI [of _ "[]"] exI [of _ "firingIndex st + 1"])
        (simp add: calls_of_def cbs_same_list)
  next
    case (Cons f fs')
    have n: "nat (firingIndex st + 1) < length fs" using Cons 1(7) by (metis drop_eq_Nil2 linorder_not_less list.distinct(1))
    then have less: "firingIndex st + 1 < int (length fs)" by simp
    have "drop (nat (firingIndex st + 1)) fs = fs ! nat (firingIndex st + 1) # drop (Suc (nat (firingIndex st + 1))) fs"
      using n by (rule Cons_nth_drop_Suc [symmetric])
    moreover have "Suc (nat (firingIndex st + 1)) = nat (firingIndex st + 1 + 1)" using 1(5) by simp
    ultimately have f: "fs ! nat (firingIndex st + 1) = f" "drop (nat (firingIndex st + 1 + 1)) fs = fs'"
      using Cons 1(7) by auto
    let ?gs = "nested script f"
    obtain w1 r where c: "call f (Some v) ?st w = (script f, r, w1)" "r \<noteq> Throws"
      using assms unfolding behaves_def by (metis prod.collapse)
    let ?st2 = "?st\<lparr>clist := Some (fs @ ?gs)\<rparr>"
    have cmds: "commands once_memory (script f) ?st = ?st2"
      using 1 assms unfolding nested_def by (intro commands_locked) (auto simp: behaves_def)
    have step: "fire_while once_memory (logged call) st (w, log) =
        fire_while once_memory (logged call) ?st2 (w1, log @ [(f, Some v)])"
      using 1 less f c cmds by (subst fire_while.simps) (simp add: list_of_def logged_def Let_def)
    have rank: "(mset (map rank (fs' @ ?gs)), mset (map rank ps)) \<in> mult less_than"
      unfolding Cons by (rule fewer_ranks) (use assms in \<open>simp add: behaves_def\<close>)
    have pend: "fs' @ ?gs = drop (nat (firingIndex ?st2 + 1)) (fs @ ?gs)" using f less 1(5) by simp
    obtain w' L fi where L: "fire_while once_memory (logged call) ?st2 (w1, log @ [(f, Some v)]) =
         Some (?st2\<lparr>clist := Some ((fs @ ?gs) @ concat (map (nested script) L)), firingIndex := fi\<rparr>,
               (w', (log @ [(f, Some v)]) @ map (\<lambda>f. (f, Some v)) L), False)"
       "calls_of (nested script) (fs' @ ?gs) L"
      using 1(1) [OF rank, of ?st2 "fs @ ?gs" w1 "log @ [(f, Some v)]"] 1 less pend by auto
    have "calls_of (nested script) ps (f # L)" using L(2) Cons by (simp add: calls_of_def)
    then show ?thesis using step L(1) by (intro exI [of _ w'] exI [of _ "f # L"] exI [of _ fi]) simp
  qed
qed

section \<open>A list that fires once\<close>

text \<open>The list before it is fired, with its callbacks, and after it was fired with a value.\<close>

definition waiting :: "'f list \<Rightarrow> ('f, 'a) cbs" where
  "waiting fs = Callbacks\<lparr>clist := Some fs\<rparr>"

definition settled :: "'a \<Rightarrow> ('f, 'a) cbs" where
  "settled v = Callbacks\<lparr>clist := Some [], memory := Some v, fired := True, locked := True\<rparr>"

lemma waiting_Nil: "waiting [] = Callbacks"
  by (simp add: waiting_def Callbacks_def)

lemma fire_calls:
  assumes "behaves call script rank" and "clist st = Some fs" "queue st = [v]" "firingIndex st = -1"
  shows "\<exists>w' L. fire once_memory (logged call) st (w, log) = Some (settled v, (w', log @ map (\<lambda>f. (f, Some v)) L), False) \<and>
     calls_of (nested script) fs L"
proof -
  let ?s0 = "st\<lparr>locked := locked st \<or> once once_memory, fired := True, firing := True\<rparr>"
  let ?s1 = "?s0\<lparr>memory := Some v, queue := []\<rparr>"
  obtain w' L fi where L: "fire_while once_memory (logged call) ?s1 (w, log) =
         Some (?s1\<lparr>clist := Some (fs @ concat (map (nested script) L)), firingIndex := fi\<rparr>,
               (w', log @ map (\<lambda>f. (f, Some v)) L), False)" "calls_of (nested script) fs L"
    using fire_while_calls [OF assms(1), of ?s1 fs v fs w log] assms by auto
  then have "fire_for once_memory (logged call) ?s0 (w, log) =
      Some (?s1\<lparr>clist := Some (fs @ concat (map (nested script) L)), firingIndex := -1\<rparr>,
            (w', log @ map (\<lambda>f. (f, Some v)) L), False)"
    using assms by (simp add: fire_for.simps)
  then have "fire once_memory (logged call) st (w, log) = Some (settled v, (w', log @ map (\<lambda>f. (f, Some v)) L), False)"
    using assms by (simp add: fire_def finish_def settled_def Callbacks_def)
  then show ?thesis using L(2) by blast
qed

lemma perform_waiting_add:
  "perform once_memory call (CAdd args) (waiting fs) w = Some (waiting (fs @ adds (CAdd args)), w, False)"
  using add_args_append [of args fs] by (simp add: perform_def add_def waiting_def Callbacks_def adds_def)

lemma perform_waiting_fire:
  assumes "behaves call script rank"
  shows "\<exists>w' L. perform once_memory (logged call) (CFireWith v) (waiting fs) (w, log) =
      Some (settled v, (w', log @ map (\<lambda>f. (f, Some v)) L), False) \<and> calls_of (nested script) fs L"
  using fire_calls [OF assms, of "(waiting fs)\<lparr>queue := [v]\<rparr>" fs v w log]
  by (simp add: perform_def fireWith_def waiting_def Callbacks_def)

lemma perform_settled:
  assumes "behaves call script rank" and "add_or_fire c"
  shows "\<exists>w' L. perform once_memory (logged call) c (settled v) (w, log) =
      Some (settled v, (w', log @ map (\<lambda>f. (f, Some v)) L), False) \<and> calls_of (nested script) (adds c) L"
proof (cases c)
  case (CAdd args)
  then show ?thesis
    using fire_calls [OF assms(1), of "(settled v)\<lparr>clist := Some (adds c), queue := [v]\<rparr>" "adds c" v w log]
    by (simp add: perform_def add_def settled_def Callbacks_def adds_def)
next
  case (CFireWith a)
  then show ?thesis
    by (intro exI [of _ w] exI [of _ "[]"]) (simp add: perform_def fireWith_def settled_def Callbacks_def calls_of_def adds_def)
qed (use assms in \<open>auto simp: add_or_fire_def\<close>)

lemma performs_settled:
  assumes "behaves call script rank"
  shows "list_all add_or_fire cs \<Longrightarrow>
    \<exists>w' Ls. performs once_memory (logged call) cs (settled v) (w, log) =
      Some (settled v, (w', log @ map (\<lambda>f. (f, Some v)) (concat Ls))) \<and> list_all2 (calls_of (nested script)) (map adds cs) Ls"
proof (induction cs arbitrary: w log)
  case Nil
  then show ?case by (intro exI [of _ w] exI [of _ "[]"]) simp
next
  case (Cons c cs)
  obtain w1 L where L: "perform once_memory (logged call) c (settled v) (w, log) =
      Some (settled v, (w1, log @ map (\<lambda>f. (f, Some v)) L), False)" "calls_of (nested script) (adds c) L"
    using perform_settled [OF assms, of c v w log] Cons.prems by auto
  obtain w' Ls where "performs once_memory (logged call) cs (settled v) (w1, log @ map (\<lambda>f. (f, Some v)) L) =
      Some (settled v, (w', (log @ map (\<lambda>f. (f, Some v)) L) @ map (\<lambda>f. (f, Some v)) (concat Ls)))"
      "list_all2 (calls_of (nested script)) (map adds cs) Ls"
    using Cons.IH [of w1 "log @ map (\<lambda>f. (f, Some v)) L"] Cons.prems by auto
  then show ?case using L by (intro exI [of _ w'] exI [of _ "L # Ls"]) simp
qed

text \<open>The value of the first \<open>fire\<close>, and the callbacks in groups: those added before it, then those each later command adds.\<close>

fun groups :: "'f list \<Rightarrow> ('f, 'a) cb_cmd list \<Rightarrow> ('a \<times> 'f list list) option" where
  "groups fs [] = None"
| "groups fs (CFireWith v # cs) = Some (v, fs # map adds cs)"
| "groups fs (c # cs) = groups (fs @ adds c) cs"

lemma performs_waiting:
  assumes "behaves call script rank"
  shows "list_all add_or_fire cs \<Longrightarrow>
    \<exists>st w' log. performs once_memory (logged call) cs (waiting fs) (w, []) = Some (st, (w', log)) \<and>
      (case groups fs cs of
         None \<Rightarrow> log = []
       | Some (v, gs) \<Rightarrow> \<exists>Ls. list_all2 (calls_of (nested script)) gs Ls \<and> log = map (\<lambda>f. (f, Some v)) (concat Ls))"
proof (induction cs arbitrary: fs)
  case (Cons c cs)
  show ?case
  proof (cases c)
    case (CAdd args)
    have "perform once_memory (logged call) c (waiting fs) (w, []) = Some (waiting (fs @ adds c), (w, []), False)"
      unfolding CAdd by (rule perform_waiting_add)
    then show ?thesis using Cons CAdd by simp
  next
    case (CFireWith v)
    obtain w1 L where L: "perform once_memory (logged call) (CFireWith v) (waiting fs) (w, []) =
        Some (settled v, (w1, map (\<lambda>f. (f, Some v)) L), False)" "calls_of (nested script) fs L"
      using perform_waiting_fire [OF assms, of v fs w "[]"] by auto
    obtain w' Ls where "performs once_memory (logged call) cs (settled v) (w1, map (\<lambda>f. (f, Some v)) L) =
        Some (settled v, (w', map (\<lambda>f. (f, Some v)) L @ map (\<lambda>f. (f, Some v)) (concat Ls)))"
        "list_all2 (calls_of (nested script)) (map adds cs) Ls"
      using performs_settled [OF assms, of cs v w1 "map (\<lambda>f. (f, Some v)) L"] Cons.prems by auto
    then show ?thesis using L CFireWith
      by (intro exI [of _ "settled v"] exI [of _ w'] exI [of _ "map (\<lambda>f. (f, Some v)) (concat (L # Ls))"]) auto
  qed (use Cons.prems in \<open>auto simp: add_or_fire_def\<close>)
qed simp

section \<open>Lists that call nothing any more\<close>

lemma disabled_perform:
  "clist st = None \<Longrightarrow> locked st \<Longrightarrow> \<exists>st'. perform opts call c st w = Some (st', w, False) \<and> clist st' = None \<and> locked st'"
  by (cases c) (auto simp: perform_def add_def fireWith_def cb_remove_def empty_cb_def disable_def lock_def Let_def split: prod.splits)

lemma disabled_for_good:
  "clist st = None \<Longrightarrow> locked st \<Longrightarrow> \<exists>st'. performs opts call cs st w = Some (st', w) \<and> clist st' = None"
proof (induction cs arbitrary: st)
  case (Cons c cs)
  obtain st1 where st1: "perform opts call c st w = Some (st1, w, False)" "clist st1 = None" "locked st1"
    using disabled_perform [OF Cons.prems, of opts call c w] by auto
  then show ?case using Cons.IH [OF st1(2,3)] by simp
qed simp

text \<open>A list left in the state of firing, by a callback that has thrown.\<close>

lemma firing_perform: "firing st \<Longrightarrow> \<exists>st'. perform opts call c st w = Some (st', w, False) \<and> firing st'"
  using command_firing [of st opts c] by (cases "command opts c st") (simp add: perform_def)

lemma firing_for_good: "firing st \<Longrightarrow> \<exists>st'. performs opts call cs st w = Some (st', w) \<and> firing st'"
proof (induction cs arbitrary: st)
  case (Cons c cs)
  obtain st1 where st1: "perform opts call c st w = Some (st1, w, False)" "firing st1"
    using firing_perform [OF Cons.prems, of opts call c w] by auto
  then show ?case using Cons.IH [OF st1(2)] by simp
qed simp

text \<open>A list of two callbacks of which the first throws: the second is not called, and neither is it by a later \<open>fire\<close>.\<close>

definition throwing_call :: "(nat, nat, unit) cb_call" where
  "throwing_call f m st w = ([], if f = 0 then Throws else Returns, w)"

theorem throwing_callback_freezes_list:
  "\<exists>st. performs (createOptions []) (logged throwing_call) [CAdd [ArgFun 0, ArgFun 1], CFireWith 7] Callbacks ((), []) =
      Some (st, ((), [(0, Some 7)])) \<and>
    (\<forall>cs. \<exists>st'. performs (createOptions []) (logged throwing_call) cs st ((), [(0, Some 7)]) = Some (st', ((), [(0, Some 7)])))"
proof -
  have "case performs (createOptions []) (logged throwing_call) [CAdd [ArgFun 0, ArgFun 1], CFireWith 7] Callbacks ((), []) of
      Some (st, w) \<Rightarrow> firing st \<and> w = ((), [(0, Some 7)]) | None \<Rightarrow> False"
    by code_simp
  then obtain st where "performs (createOptions []) (logged throwing_call) [CAdd [ArgFun 0, ArgFun 1], CFireWith 7] Callbacks ((), []) =
      Some (st, ((), [(0, Some 7)]))" "firing st"
    by (auto split: option.splits)
  moreover have "\<exists>st'. performs (createOptions []) (logged throwing_call) cs st ((), [(0, Some 7)]) =
      Some (st', ((), [(0, Some 7)]))" for cs
    using firing_for_good [OF \<open>firing st\<close>, of "createOptions []" "logged throwing_call" cs "((), [(0, Some 7)])"] by auto
  ultimately show ?thesis by auto
qed

section \<open>Properties\<close>


text \<open>Callback 1 adds callback 0 and fires again; 2 does nothing.\<close>

definition sample_script :: "nat \<Rightarrow> (nat, nat) cb_cmd list" where
  "sample_script f = (if f = 1 then [CAdd [ArgFun 0], CFireWith 9] else [])"

definition sample_call :: "(nat, nat, unit) cb_call" where
  "sample_call f m st w = (sample_script f, Returns, w)"


end
