(* ===== verification/Jq_Classes.thy ===== *)
theory Jq_Classes
  imports Jq_Callbacks
begin

text \<open>
  The class names of elements: \<open>jquery-3.2.1.js\<close>, lines 7751 to 7920. The functions work on the text of the attribute
  \<open>class\<close>; the last section shows that what they do is the operation on the list of class names.
\<close>

section \<open>Elements\<close>

text \<open>
  What the functions use of a node: its type, the attribute, whether it has the attribute methods, the value
  stored under \<open>__className__\<close> in its private data, and how often the attribute was written.
\<close>

record class_elem =
  el_nodeType :: nat
  el_methods :: bool
  el_class :: "js_string option"
  el_saved :: "js_string option"
  el_writes :: nat

definition stripAndCollapse :: "js_string \<Rightarrow> js_string" where
  "stripAndCollapse s = js_join [32] (html_words s)"

definition getClass :: "class_elem \<Rightarrow> js_string" where
  "getClass e = (if el_methods e then (case el_class e of Some s \<Rightarrow> s | None \<Rightarrow> []) else [])"

definition setClass :: "js_string \<Rightarrow> class_elem \<Rightarrow> class_elem" where
  "setClass s e = e\<lparr>el_class := Some s, el_writes := Suc (el_writes e)\<rparr>"

definition padded :: "js_string \<Rightarrow> js_string" where
  "padded s = 32 # stripAndCollapse s @ [32]"

text \<open>The end of both functions: the attribute is only written when its text changes.\<close>

definition assign_class :: "js_string \<Rightarrow> class_elem \<Rightarrow> class_elem" where
  "assign_class cur e = (let finalValue = stripAndCollapse cur in if getClass e \<noteq> finalValue then setClass finalValue e else e)"

section \<open>Adding and removing\<close>

definition add_clazz :: "js_string \<Rightarrow> js_string \<Rightarrow> js_string" where
  "add_clazz clazz cur = (if indexOf cur (32 # clazz @ [32]) < 0 then cur @ clazz @ [32] else cur)"

definition add_string :: "js_string \<Rightarrow> class_elem \<Rightarrow> class_elem" where
  "add_string s e = (if el_nodeType e = 1 then assign_class (fold add_clazz (html_words s) (padded (getClass e))) e else e)"

text \<open>A value: a string, a function of the index and the classes, undefined, a boolean or anything else.\<close>

datatype class_value =
    CvStr js_string
  | CvFun "nat \<Rightarrow> js_string \<Rightarrow> class_value"
  | CvUndef
  | CvBool bool
  | CvOther

text \<open>What is done to the element at an index; a function is applied to every element as a set of its own.\<close>

primrec addClass_at :: "class_value \<Rightarrow> nat \<Rightarrow> class_elem \<Rightarrow> class_elem" where
  "addClass_at (CvFun f) = (\<lambda>j e. addClass_at (f j (getClass e)) 0 e)"
| "addClass_at (CvStr s) = (\<lambda>j e. if s \<noteq> [] then add_string s e else e)"
| "addClass_at CvUndef = (\<lambda>j e. e)"
| "addClass_at (CvBool b) = (\<lambda>j e. e)"
| "addClass_at CvOther = (\<lambda>j e. e)"

definition on_elems :: "(nat \<Rightarrow> class_elem \<Rightarrow> class_elem) \<Rightarrow> class_elem list \<Rightarrow> class_elem list" where
  "on_elems f els = map (\<lambda>(j, e). f j e) (enumerate 0 els)"

definition addClass :: "class_value \<Rightarrow> class_elem list \<Rightarrow> class_elem list" where
  "addClass value = on_elems (addClass_at value)"

text \<open>\<open>while ( cur.indexOf( c ) > -1 ) cur = cur.replace( c, ' ' )\<close>.\<close>

function remove_clazz :: "js_string \<Rightarrow> js_string \<Rightarrow> js_string" where
  "remove_clazz clazz cur =
     (case js_find (32 # clazz @ [32]) cur of
        None \<Rightarrow> cur
      | Some k \<Rightarrow> remove_clazz clazz (take k cur @ [32] @ drop (k + length clazz + 2) cur))"
  by pat_completeness auto
termination
proof (relation "measure (\<lambda>(_, cur). length cur)")
  fix clazz cur k
  assume "js_find (32 # clazz @ [32]) cur = Some k"
  then have "k \<le> length cur" "prefix (32 # clazz @ [32]) (drop k cur)" using js_find_Some by auto
  then have "length clazz + 2 \<le> length cur - k" by (auto dest!: prefix_length_le)
  then show "((clazz, take k cur @ [32] @ drop (k + length clazz + 2) cur), (clazz, cur)) \<in> measure (\<lambda>(_, cur). length cur)"
    by auto
qed simp

declare remove_clazz.simps [simp del]

definition remove_string :: "js_string \<Rightarrow> class_elem \<Rightarrow> class_elem" where
  "remove_string s e = (if el_nodeType e = 1 then assign_class (fold remove_clazz (html_words s) (padded (getClass e))) e else e)"

primrec removeClass_at :: "class_value \<Rightarrow> nat \<Rightarrow> class_elem \<Rightarrow> class_elem" where
  "removeClass_at (CvFun f) = (\<lambda>j e. removeClass_at (f j (getClass e)) 0 e)"
| "removeClass_at (CvStr s) = (\<lambda>j e. if s \<noteq> [] then remove_string s e else e)"
| "removeClass_at CvUndef = (\<lambda>j e. e)"
| "removeClass_at (CvBool b) = (\<lambda>j e. e)"
| "removeClass_at CvOther = (\<lambda>j e. e)"

text \<open>Without an argument the attribute is set to the empty string, on every node that has attributes.\<close>

definition removeClass :: "class_value option \<Rightarrow> class_elem list \<Rightarrow> class_elem list" where
  "removeClass value els =
     (case value of
        Some v \<Rightarrow> on_elems (removeClass_at v) els
      | None \<Rightarrow> map (\<lambda>e. if el_nodeType e \<in> {2, 3, 8} \<or> \<not> el_methods e then e else setClass [] e) els)"

section \<open>Testing and toggling\<close>

definition hasClass_elem :: "js_string \<Rightarrow> class_elem \<Rightarrow> bool" where
  "hasClass_elem selector e \<longleftrightarrow> el_nodeType e = 1 \<and> indexOf (padded (getClass e)) (32 # selector @ [32]) > -1"

definition hasClass :: "js_string \<Rightarrow> class_elem list \<Rightarrow> bool" where
  "hasClass selector els = list_ex (hasClass_elem selector) els"

definition toggle_name :: "js_string \<Rightarrow> class_elem \<Rightarrow> class_elem" where
  "toggle_name className e = (if hasClass_elem className e then remove_string className e else add_string className e)"

text \<open>The whole attribute: it is saved and cleared, or brought back.\<close>

definition toggle_whole :: "bool \<Rightarrow> class_elem \<Rightarrow> class_elem" where
  "toggle_whole is_false e =
     (let className = getClass e;
          e1 = (if className \<noteq> [] then e\<lparr>el_saved := Some className\<rparr> else e)
      in if el_methods e1
         then setClass (if className \<noteq> [] \<or> is_false then [] else (case el_saved e1 of Some s \<Rightarrow> s | None \<Rightarrow> [])) e1
         else e1)"

text \<open>\<open>st\<close> is the second argument when it is a boolean.\<close>

primrec toggleClass_at :: "class_value \<Rightarrow> bool option \<Rightarrow> nat \<Rightarrow> class_elem \<Rightarrow> class_elem" where
  "toggleClass_at (CvFun f) = (\<lambda>st j e. toggleClass_at (f j (getClass e)) st 0 e)"
| "toggleClass_at (CvStr s) = (\<lambda>st j e.
     case st of
       Some True \<Rightarrow> if s \<noteq> [] then add_string s e else e
     | Some False \<Rightarrow> if s \<noteq> [] then remove_string s e else e
     | None \<Rightarrow> fold toggle_name (html_words s) e)"
| "toggleClass_at CvUndef = (\<lambda>st j e. toggle_whole False e)"
| "toggleClass_at (CvBool b) = (\<lambda>st j e. toggle_whole (\<not> b) e)"
| "toggleClass_at CvOther = (\<lambda>st j e. e)"

definition toggleClass :: "class_value \<Rightarrow> bool option \<Rightarrow> class_elem list \<Rightarrow> class_elem list" where
  "toggleClass value st = on_elems (toggleClass_at value st)"

section \<open>Texts and lists of names\<close>

text \<open>The names between single spaces; \<open>P\<close> is the list of the parts between them.\<close>

definition spaced :: "js_string list \<Rightarrow> js_string" where
  "spaced P = concat (map ((#) 32) P) @ [32]"

lemma spaced_Cons: "spaced (p # P) = 32 # p @ spaced P"
  by (simp add: spaced_def)

lemma spaced_hd: "\<exists>r. spaced P = 32 # r"
  by (cases P) (auto simp: spaced_def)

lemma spaced_append: "spaced (P @ [c]) = spaced P @ c @ [32]"
  by (simp add: spaced_def)

definition no_space :: "js_string \<Rightarrow> bool" where
  "no_space s \<longleftrightarrow> list_all (\<lambda>c. \<not> html_space c) s"

lemma no_space_32: "no_space s \<Longrightarrow> 32 \<notin> set s"
  by (auto simp: no_space_def list_all_iff html_space_def)

lemma prefix_spaced:
  assumes "32 \<notin> set c" "32 \<notin> set p"
  shows "prefix (c @ [32]) (p @ spaced P) \<longleftrightarrow> c = p"
proof -
  obtain r where r: "spaced P = 32 # r" using spaced_hd by blast
  have "prefix (c @ [32]) (p @ 32 # r) \<Longrightarrow> 32 \<notin> set c \<Longrightarrow> 32 \<notin> set p \<Longrightarrow> c = p"
  proof (induction c arbitrary: p)
    case Nil then show ?case by (cases p) auto
  next
    case (Cons x c) then show ?case by (cases p) auto
  qed
  then show ?thesis using assms r by (auto simp: prefix_def)
qed

lemma js_find_skip: "32 \<notin> set p \<Longrightarrow> js_find (32 # s) (p @ t) = map_option (\<lambda>k. length p + k) (js_find (32 # s) t)"
  by (induction p; cases "js_find (32 # s) t") auto

lemma find_spaced:
  assumes "32 \<notin> set c" "list_all (\<lambda>p. 32 \<notin> set p) P"
  shows "js_find (32 # c @ [32]) (spaced P) =
    (if c \<in> set P then Some (length (concat (map ((#) 32) (takeWhile (\<lambda>p. p \<noteq> c) P)))) else None)"
  using assms(2)
proof (induction P)
  case Nil
  then show ?case using assms(1) by (cases c) (auto simp: spaced_def)
next
  case (Cons p P)
  then show ?case using assms(1) prefix_spaced [of c p P]
    by (auto simp: spaced_Cons js_find_skip)
qed

lemma remove_clazz_spaced:
  assumes "32 \<notin> set c" "list_all (\<lambda>p. 32 \<notin> set p) P"
  shows "remove_clazz c (spaced P) = spaced (removeAll c P)"
  using assms(2)
proof (induction "length P" arbitrary: P rule: less_induct)
  case less
  show ?case
  proof (cases "c \<in> set P")
    case True
    then obtain A B where P: "P = A @ c # B" "c \<notin> set A" using split_list_first by fastforce
    let ?pre = "concat (map ((#) 32) A)"
    have tw: "takeWhile (\<lambda>p. p \<noteq> c) P = A" using P by (auto simp: takeWhile_append)
    obtain r where r: "spaced B = 32 # r" using spaced_hd by blast
    have sp: "spaced P = ?pre @ 32 # c @ 32 # r" using P r by (simp add: spaced_def)
    have "take (length ?pre) (spaced P) @ [32] @ drop (length ?pre + length c + 2) (spaced P) = ?pre @ 32 # r"
      unfolding sp by simp
    also have "\<dots> = spaced (A @ B)" using r by (simp add: spaced_def)
    finally have "remove_clazz c (spaced P) = remove_clazz c (spaced (A @ B))"
      using find_spaced [OF assms(1) less.prems] True tw by (subst remove_clazz.simps) simp
    also have "\<dots> = spaced (removeAll c (A @ B))" using less P by simp
    finally show ?thesis using P by simp
  next
    case False
    then show ?thesis using find_spaced [OF assms(1) less.prems] by (subst remove_clazz.simps) simp
  qed
qed

lemma add_clazz_spaced:
  assumes "32 \<notin> set c" "list_all (\<lambda>p. 32 \<notin> set p) P"
  shows "add_clazz c (spaced P) = spaced (if c \<in> set P then P else P @ [c])"
  using find_spaced [OF assms] by (auto simp: add_clazz_def indexOf_def spaced_append)

lemma words_loop_skip:
  "no_space p \<Longrightarrow> words_loop w (p @ 32 # s) = (if w @ p = [] then [] else [w @ p]) @ words_loop [] s"
  by (induction p arbitrary: w) (auto simp: no_space_def html_space_def)

lemma words_spaced: "list_all no_space P \<Longrightarrow> html_words (spaced P) = filter (\<lambda>p. p \<noteq> []) P"
proof (induction P)
  case Nil
  then show ?case by (simp add: spaced_def html_words_def html_space_def)
next
  case (Cons p P)
  obtain r where r: "spaced P = 32 # r" using spaced_hd by blast
  have "html_words (spaced P) = words_loop [] r" using r by (simp add: html_words_def html_space_def)
  then show ?case using Cons r words_loop_skip [of p "[]" r] by (auto simp: spaced_Cons html_words_def html_space_def)
qed

lemma words_loop_ok: "no_space w \<Longrightarrow> list_all (\<lambda>p. p \<noteq> [] \<and> no_space p) (words_loop w s)"
  by (induction s arbitrary: w) (auto simp: no_space_def)

lemma html_words_ok: "list_all (\<lambda>p. p \<noteq> [] \<and> no_space p) (html_words s)"
  unfolding html_words_def by (rule words_loop_ok) (simp add: no_space_def)

lemma padded_spaced: "padded s = spaced (if html_words s = [] then [[]] else html_words s)"
proof -
  have "P \<noteq> [] \<Longrightarrow> 32 # js_join [32] P @ [32] = spaced P" for P
  proof (induction P)
    case (Cons p P) then show ?case by (cases P) (auto simp: spaced_def)
  qed simp
  then show ?thesis by (simp add: padded_def stripAndCollapse_def spaced_def)
qed

text \<open>A name that is added keeps the list when it is there and is put at its end when it is not.\<close>

definition insert_name :: "js_string \<Rightarrow> js_string list \<Rightarrow> js_string list" where
  "insert_name c ns = (if c \<in> set ns then ns else ns @ [c])"

lemma fold_add_spaced:
  "list_all (\<lambda>p. p \<noteq> [] \<and> no_space p) cs \<Longrightarrow> list_all no_space P \<Longrightarrow>
   \<exists>P'. fold add_clazz cs (spaced P) = spaced P' \<and> list_all no_space P' \<and>
     filter (\<lambda>p. p \<noteq> []) P' = fold insert_name cs (filter (\<lambda>p. p \<noteq> []) P)"
proof (induction cs arbitrary: P)
  case (Cons c cs)
  let ?P = "if c \<in> set P then P else P @ [c]"
  have a: "add_clazz c (spaced P) = spaced ?P"
    using Cons.prems by (intro add_clazz_spaced) (auto simp: list_all_iff dest: no_space_32)
  have f: "filter (\<lambda>p. p \<noteq> []) ?P = insert_name c (filter (\<lambda>p. p \<noteq> []) P)"
    using Cons.prems by (auto simp: insert_name_def)
  have "\<exists>P'. fold add_clazz cs (spaced ?P) = spaced P' \<and> list_all no_space P' \<and>
     filter (\<lambda>p. p \<noteq> []) P' = fold insert_name cs (filter (\<lambda>p. p \<noteq> []) ?P)"
    by (rule Cons.IH) (use Cons.prems in auto)
  then show ?case unfolding fold_Cons comp_apply a f .
qed auto

lemma fold_remove_spaced:
  "list_all (\<lambda>p. p \<noteq> [] \<and> no_space p) cs \<Longrightarrow> list_all no_space P \<Longrightarrow>
   fold remove_clazz cs (spaced P) = spaced (filter (\<lambda>p. p \<notin> set cs) P)"
proof (induction cs arbitrary: P)
  case (Cons c cs)
  have "remove_clazz c (spaced P) = spaced (removeAll c P)"
    using Cons.prems by (intro remove_clazz_spaced) (auto simp: list_all_iff dest: no_space_32)
  moreover have "fold remove_clazz cs (spaced (removeAll c P)) = spaced (filter (\<lambda>p. p \<notin> set cs) (removeAll c P))"
    by (rule Cons.IH) (use Cons.prems in \<open>auto simp: list_all_iff\<close>)
  moreover have "filter (\<lambda>p. p \<notin> set cs) (removeAll c P) = filter (\<lambda>p. p \<notin> set (c # cs)) P"
    by (induction P) auto
  ultimately show ?case by simp
qed simp

lemma html_words_join: "list_all (\<lambda>p. p \<noteq> [] \<and> no_space p) P \<Longrightarrow> html_words (js_join [32] P) = P"
proof (induction P)
  case (Cons p P)
  show ?case
  proof (cases P)
    case Nil
    have "words_loop w q = (if w @ q = [] then [] else [w @ q])" if "no_space q" for w q
      using that by (induction q arbitrary: w) (auto simp: no_space_def)
    then show ?thesis using Cons Nil by (simp add: html_words_def)
  next
    case (Cons q Q)
    then show ?thesis using Cons.IH Cons.prems words_loop_skip [of p "[]" "js_join [32] P"]
      by (simp add: html_words_def)
  qed
qed (simp add: html_words_def)

lemma words_strip: "html_words (stripAndCollapse s) = html_words s"
  unfolding stripAndCollapse_def by (rule html_words_join [OF html_words_ok])

section \<open>The list of names of an element\<close>

definition names :: "class_elem \<Rightarrow> js_string list" where
  "names e = html_words (getClass e)"

definition is_element :: "class_elem \<Rightarrow> bool" where
  "is_element e \<longleftrightarrow> el_nodeType e = 1 \<and> el_methods e"

lemma names_assign: "is_element e \<Longrightarrow> names (assign_class cur e) = html_words cur \<and> is_element (assign_class cur e)"
  using words_strip [of cur]
  by (auto simp: assign_class_def names_def getClass_def setClass_def is_element_def Let_def)

lemma parts_ok: "list_all no_space (if html_words s = [] then [[]] else html_words s)"
  using html_words_ok [of s] by (auto simp: list_all_iff no_space_def)

lemma parts_names: "filter (\<lambda>p. p \<noteq> []) (if html_words s = [] then [[]] else html_words s) = html_words s"
  using html_words_ok [of s] by (auto simp: list_all_iff intro: filter_True)

lemma names_add:
  assumes "is_element e"
  shows "names (add_string s e) = fold insert_name (html_words s) (names e) \<and> is_element (add_string s e)"
proof -
  obtain P' where P: "fold add_clazz (html_words s) (padded (getClass e)) = spaced P'" "list_all no_space P'"
     "filter (\<lambda>p. p \<noteq> []) P' = fold insert_name (html_words s) (names e)"
    using fold_add_spaced [OF html_words_ok parts_ok, of s "getClass e"] unfolding padded_spaced names_def parts_names by blast
  then show ?thesis using assms names_assign [OF assms] by (simp add: add_string_def is_element_def words_spaced)
qed

lemma names_remove:
  assumes "is_element e"
  shows "names (remove_string s e) = filter (\<lambda>n. n \<notin> set (html_words s)) (names e) \<and> is_element (remove_string s e)"
proof -
  let ?P = "if names e = [] then [[]] else names e"
  have ok: "list_all no_space ?P" using parts_ok [of "getClass e"] unfolding names_def .
  have "fold remove_clazz (html_words s) (padded (getClass e)) = spaced (filter (\<lambda>p. p \<notin> set (html_words s)) ?P)"
    using fold_remove_spaced [OF html_words_ok ok] unfolding padded_spaced names_def .
  moreover have "list_all no_space (filter (\<lambda>p. p \<notin> set (html_words s)) ?P)" using ok by (auto simp: list_all_iff)
  moreover have "filter (\<lambda>p. p \<noteq> []) (filter (\<lambda>p. p \<notin> set (html_words s)) ?P) = filter (\<lambda>n. n \<notin> set (html_words s)) (names e)"
    using html_words_ok [of "getClass e"]
    by (auto simp: names_def filter_filter list_all_iff intro!: filter_cong)
  ultimately show ?thesis using assms names_assign [OF assms] by (simp add: remove_string_def is_element_def words_spaced)
qed

definition one_name :: "js_string \<Rightarrow> bool" where
  "one_name c \<longleftrightarrow> c \<noteq> [] \<and> no_space c"

lemma hasClass_names:
  assumes "is_element e" "one_name c"
  shows "hasClass_elem c e \<longleftrightarrow> c \<in> set (names e)"
proof -
  let ?P = "if names e = [] then [[]] else names e"
  have "32 \<notin> set c" "list_all (\<lambda>p. 32 \<notin> set p) ?P"
    using assms parts_ok [of "getClass e"] by (auto simp: one_name_def names_def list_all_iff dest: no_space_32)
  moreover have "padded (getClass e) = spaced ?P" by (simp add: padded_spaced names_def)
  ultimately have "hasClass_elem c e \<longleftrightarrow> c \<in> set ?P"
    using find_spaced [of c ?P] assms by (simp add: hasClass_elem_def is_element_def indexOf_def)
  then show ?thesis using assms by (auto simp: one_name_def)
qed

lemma words_one: "one_name c \<Longrightarrow> html_words c = [c]"
  using html_words_join [of "[c]"] by (simp add: one_name_def)

definition toggle_in :: "js_string \<Rightarrow> js_string list \<Rightarrow> js_string list" where
  "toggle_in c ns = (if c \<in> set ns then removeAll c ns else ns @ [c])"

lemma names_toggle:
  assumes "is_element e" "one_name c"
  shows "names (toggle_name c e) = toggle_in c (names e) \<and> is_element (toggle_name c e)"
  using names_add [OF assms(1), of c] names_remove [OF assms(1), of c] hasClass_names [OF assms] words_one [OF assms(2)]
  by (auto simp: toggle_name_def toggle_in_def insert_name_def removeAll_filter_not_eq eq_commute)

lemma names_toggles:
  "is_element e \<Longrightarrow> list_all one_name cs \<Longrightarrow>
   names (fold toggle_name cs e) = fold toggle_in cs (names e) \<and> is_element (fold toggle_name cs e)"
  by (induction cs arbitrary: e) (auto simp: names_toggle)

lemma words_one_names: "list_all one_name (html_words s)"
  using html_words_ok [of s] by (simp add: list_all_iff one_name_def)

section \<open>Properties\<close>

text \<open>
  Claim C34. On an element the class functions of jQuery are the operations on its list of class names. \<open>addClass\<close>
  appends the names that are not there, \<open>removeClass\<close> removes every occurrence of the given names and keeps the order of the others,
  \<open>toggleClass\<close> takes away each name that is there and appends each that is not, \<open>hasClass\<close> of a name tells whether it is in the list;
  names that are parts of other names, tabs and repeated spaces make no difference.\<close>

theorem class_functions_refine_names:
  assumes "is_element e" and "one_name c"
  shows "map names (addClass (CvStr s) [e]) = [fold insert_name (html_words s) (names e)] \<and>
    map names (removeClass (Some (CvStr s)) [e]) = [filter (\<lambda>n. n \<notin> set (html_words s)) (names e)] \<and>
    map names (toggleClass (CvStr s) None [e]) = [fold toggle_in (html_words s) (names e)] \<and>
    (hasClass c [e] \<longleftrightarrow> c \<in> set (names e))"
proof (intro conjI)
  have e: "html_words [] = []" by (simp add: html_words_def)
  show "map names (addClass (CvStr s) [e]) = [fold insert_name (html_words s) (names e)]"
    using names_add [OF assms(1), of s] e by (auto simp: addClass_def on_elems_def)
  show "map names (removeClass (Some (CvStr s)) [e]) = [filter (\<lambda>n. n \<notin> set (html_words s)) (names e)]"
    using names_remove [OF assms(1), of s] e by (auto simp: removeClass_def on_elems_def)
  show "map names (toggleClass (CvStr s) None [e]) = [fold toggle_in (html_words s) (names e)]"
    using names_toggles [OF assms(1) words_one_names, of s] by (simp add: toggleClass_def on_elems_def)
  show "hasClass c [e] \<longleftrightarrow> c \<in> set (names e)"
    using hasClass_names [OF assms] by (simp add: hasClass_def)
qed

definition sample_elem :: class_elem where
  "sample_elem = \<lparr>el_nodeType = 1, el_methods = True, el_class = Some (J '' note  notes highlighted''), el_saved = None, el_writes = 0\<rparr>"

theorem class_functions_refine_names_witness:
  "map names (removeClass (Some (CvStr (J ''note''))) [sample_elem]) = [map J [''notes'', ''highlighted'']] \<and>
   \<not> hasClass (J ''high'') [sample_elem]"
proof -
  have e: "is_element sample_elem" "one_name (J ''high'')" by code_simp+
  have w: "filter (\<lambda>n. n \<notin> set (html_words (J ''note''))) (names sample_elem) = map J [''notes'', ''highlighted'']"
    "J ''high'' \<notin> set (names sample_elem)"
    by code_simp+
  show ?thesis using class_functions_refine_names [OF e, of "J ''note''"] unfolding w(1) using w(2) by blast
qed

end
