(* ===== verification/Jq_Param.thy ===== *)
theory Jq_Param
  imports Js_Page
begin

text \<open>
  The serialisation of objects into query strings, \<open>jquery-3.2.1.js\<close>, lines 8378 to 8457, and what the page scripts read back.

  The value that is serialised is a tree: a scalar with its string and whether it is an object (a date, say), a function with
  the string of its result, an array or another object with its members, and the string it converts to. A value that is null or
  undefined has the empty string. Encoding fails on a string with a lone surrogate.
\<close>

section \<open>Building the pairs\<close>

datatype param_val =
    PNull
  | PScalar bool js_string
  | PFun "js_string option"
  | PArr "param_val list" js_string
  | PObj "(js_string \<times> param_val) list" js_string

text \<open>The string that \<open>add\<close> encodes for a value.\<close>

fun scalar_string :: "param_val \<Rightarrow> js_string" where
  "scalar_string PNull = []"
| "scalar_string (PScalar _ s) = s"
| "scalar_string (PFun r) = (case r of Some s \<Rightarrow> s | None \<Rightarrow> [])"
| "scalar_string (PArr _ s) = s"
| "scalar_string (PObj _ s) = s"

fun typeof_object :: "param_val \<Rightarrow> bool" where
  "typeof_object (PScalar b _) = b"
| "typeof_object (PArr _ _) = True"
| "typeof_object (PObj _ _) = True"
| "typeof_object _ = False"

definition rbracket :: "js_string \<Rightarrow> bool" where
  "rbracket s \<longleftrightarrow> suffix (J ''[]'') s"

fun buildParams :: "bool \<Rightarrow> js_string \<Rightarrow> param_val \<Rightarrow> (js_string \<times> js_string) list"
  and build_items :: "bool \<Rightarrow> js_string \<Rightarrow> nat \<Rightarrow> param_val list \<Rightarrow> (js_string \<times> js_string) list"
  and build_props :: "bool \<Rightarrow> js_string \<Rightarrow> (js_string \<times> param_val) list \<Rightarrow> (js_string \<times> js_string) list" where
  "buildParams trad key (PArr vs s) = build_items trad key 0 vs"
| "buildParams trad key (PObj ps s) = (if trad then [(key, s)] else build_props trad key ps)"
| "buildParams trad key v = [(key, scalar_string v)]"
| "build_items trad key i [] = []"
| "build_items trad key i (v # vs) =
     (if trad \<or> rbracket key then [(key, scalar_string v)]
      else buildParams trad (key @ J ''['' @ (if typeof_object v then show_nat i else []) @ J '']'') v)
     @ build_items trad key (Suc i) vs"
| "build_props trad key [] = []"
| "build_props trad key ((name, v) # ps) = buildParams trad (key @ J ''['' @ name @ J '']'') v @ build_props trad key ps"

text \<open>What is given to \<open>param\<close>: the names and values of form elements, or an object.\<close>

datatype param_input = Fields "(js_string \<times> param_val) list" | Props "(js_string \<times> param_val) list"

definition param_pairs :: "param_input \<Rightarrow> bool \<Rightarrow> (js_string \<times> js_string) list" where
  "param_pairs a trad = (case a of
     Fields fs \<Rightarrow> map (\<lambda>(n, v). (n, scalar_string v)) fs
   | Props ps \<Rightarrow> concat (map (\<lambda>(n, v). buildParams trad n v) ps))"

fun encode_pairs :: "(js_string \<times> js_string) list \<Rightarrow> js_string list option" where
  "encode_pairs [] = Some []"
| "encode_pairs ((k, v) # ps) =
     (case (encodeURIComponent k, encodeURIComponent v, encode_pairs ps) of
        (Some k', Some v', Some s) \<Rightarrow> Some ((k' @ 61 # v') # s)
      | _ \<Rightarrow> None)"

definition param :: "param_input \<Rightarrow> bool \<Rightarrow> js_string option" where
  "param a traditional = map_option (js_join [38]) (encode_pairs (param_pairs a traditional))"

section \<open>Reading the pairs back\<close>

text \<open>A pair that survives: encodable, without plus signs, and not named like an inherited property.\<close>

definition pair_ok :: "js_string \<times> js_string \<Rightarrow> bool" where
  "pair_ok = (\<lambda>(k, v). well_formed k \<and> well_formed v \<and> 43 \<notin> set k \<and> 43 \<notin> set v \<and> k \<notin> set proto_keys)"

definition values_of :: "(js_string \<times> js_string) list \<Rightarrow> js_string \<Rightarrow> js_string list" where
  "values_of ps k = map snd (filter (\<lambda>p. fst p = k) ps)"

lemma encode_pairs_Some:
  "list_all pair_ok ps \<Longrightarrow> \<exists>parts. encode_pairs ps = Some parts \<and> length parts = length ps \<and>
     list_all2 (\<lambda>part (k, v). \<exists>k' v'. part = k' @ 61 # v' \<and>
       encodeURIComponent k = Some k' \<and> urldecode k' = Some k \<and> encodeURIComponent v = Some v' \<and> urldecode v' = Some v) parts ps"
proof (induction ps)
  case (Cons p ps)
  obtain k v where p: "p = (k, v)" by (cases p)
  obtain k' where k: "encodeURIComponent k = Some k'" "decodeURIComponent k' = Some k"
    using encode_some [of k] Cons.prems p by (auto simp: pair_ok_def)
  obtain v' where v: "encodeURIComponent v = Some v'" "decodeURIComponent v' = Some v"
    using encode_some [of v] Cons.prems p by (auto simp: pair_ok_def)
  have "urldecode k' = Some k" "urldecode v' = Some v"
    using k v Cons.prems p by (auto simp: urldecode_def pair_ok_def replace_char_none)
  then show ?case using Cons p k v by auto
qed simp

lemma parts_plain:
  "list_all2 (\<lambda>part (k, v). \<exists>k' v'. part = k' @ 61 # v' \<and>
       encodeURIComponent k = Some k' \<and> urldecode k' = Some k \<and> encodeURIComponent v = Some v' \<and> urldecode v' = Some v) parts ps \<Longrightarrow>
   list_all (\<lambda>p. 38 \<notin> set p \<and> 63 \<notin> set p) parts"
  by (induction parts ps rule: list_all2_induct) (auto dest: encoded_plain)

lemma split_join: "parts \<noteq> [] \<Longrightarrow> list_all (\<lambda>p. c \<notin> set p) parts \<Longrightarrow> split_char c (js_join [c] parts) = parts"
proof (induction parts)
  case (Cons p ps)
  then show ?case by (cases ps) (auto simp: split_char_none split_char_append)
qed simp

lemma params_loop_pairs:
  "list_all2 (\<lambda>part (k, v). \<exists>k' v'. part = k' @ 61 # v' \<and> encodeURIComponent k = Some k' \<and> urldecode k' = Some k \<and>
       encodeURIComponent v = Some v' \<and> urldecode v' = Some v) parts ps \<Longrightarrow>
   list_all pair_ok ps \<Longrightarrow>
   \<exists>r. params_loop parts result = Inr r \<and>
     (\<forall>k. map_of r k = (if values_of ps k = [] then map_of result k
        else Some ((case map_of result k of Some vs \<Rightarrow> vs | None \<Rightarrow> []) @ values_of ps k)))"
proof (induction parts ps arbitrary: result rule: list_all2_induct)
  case Nil
  then show ?case by (simp add: values_of_def)
next
  case (Cons part parts p ps)
  obtain k v k' v' where p: "p = (k, v)" "part = k' @ 61 # v'" "encodeURIComponent k = Some k'" "urldecode k' = Some k"
      "encodeURIComponent v = Some v'" "urldecode v' = Some v"
    using Cons(1) by (cases p) auto
  let ?old = "case map_of result k of Some vs \<Rightarrow> vs | None \<Rightarrow> []"
  have "split_pair part = (k', v')"
    using encoded_plain [OF p(3)] encoded_plain [OF p(5)] p(2)
    by (simp add: split_pair_def split_char_append split_char_none)
  then have step: "params_loop (part # parts) result = params_loop parts (obj_put result k (?old @ [v]))"
    using p Cons.prems by (auto simp: obj_lookup_def pair_ok_def split: option.splits)
  obtain r where r: "params_loop parts (obj_put result k (?old @ [v])) = Inr r"
     "\<And>k1. map_of r k1 = (if values_of ps k1 = [] then map_of (obj_put result k (?old @ [v])) k1
        else Some ((case map_of (obj_put result k (?old @ [v])) k1 of Some vs \<Rightarrow> vs | None \<Rightarrow> []) @ values_of ps k1))"
    using Cons.IH [of "obj_put result k (?old @ [v])"] Cons.prems by auto
  have "map_of r k1 = (if values_of (p # ps) k1 = [] then map_of result k1
        else Some ((case map_of result k1 of Some vs \<Rightarrow> vs | None \<Rightarrow> []) @ values_of (p # ps) k1))" for k1
    using r(2) [of k1] p(1) by (auto simp: map_of_obj_put values_of_def)
  then show ?case using step r(1) by auto
qed

section \<open>Properties\<close>



end
