(* ===== verification/Jq_Data.thy ===== *)
theory Jq_Data
  imports Jq_Core Jq_Callbacks
begin

text \<open>
  The data store of \<open>jquery-3.2.1.js\<close>, lines 4015 to 4268. A store, of which there are a private and a public
  one, keeps for every owner an object under a property of its own; the keys of that object are always written in camel case.
  \<open>None\<close> as a stored value is undefined; no entry for an owner is a missing or undefined property. \<open>nt\<close> gives the
  \<open>nodeType\<close> of an owner.
\<close>

section \<open>Keys in camel case\<close>

lemma upper_not_lower: "is_lower c \<Longrightarrow> \<not> is_lower (c - 32) \<and> c - 32 \<noteq> 45"
proof -
  assume a: "is_lower c"
  then have c: "97 \<le> unat c" "unat c \<le> 122" by (auto simp: is_lower_def word_le_nat_alt)
  then have "unat (c - 32) = unat c - 32" by (simp add: unat_sub word_le_nat_alt)
  then have u: "65 \<le> unat (c - 32)" "unat (c - 32) \<le> 90" using c by auto
  have "c - 32 \<noteq> 45"
  proof
    assume "c - 32 = 45"
    then have "unat (c - 32) = 45" by simp
    then show False using u by simp
  qed
  then show ?thesis using u by (auto simp: is_lower_def word_le_nat_alt)
qed

text \<open>No dash is left before a lower-case letter.\<close>

fun humped :: "js_string \<Rightarrow> bool" where
  "humped (a # b # s) = (\<not> (a = 45 \<and> is_lower b) \<and> humped (b # s))"
| "humped s = True"

lemma dash_alpha_id: "humped s \<Longrightarrow> dash_alpha s = s"
  by (induction s rule: dash_alpha.induct) auto

lemma humped_Cons: "humped s \<Longrightarrow> (s = [] \<or> \<not> (a = 45 \<and> is_lower (hd s))) \<Longrightarrow> humped (a # s)"
  by (cases s) auto

lemma dash_alpha_hd: "s \<noteq> [] \<Longrightarrow> dash_alpha s \<noteq> [] \<and> (is_lower (hd (dash_alpha s)) \<longrightarrow> is_lower (hd s))"
  by (induction s rule: dash_alpha.induct) (auto dest: upper_not_lower)

lemma humped_dash_alpha: "humped (dash_alpha s)"
proof (induction s rule: dash_alpha.induct)
  case (1 a b s)
  show ?case
  proof (cases "a = 45 \<and> is_lower b")
    case True
    then show ?thesis using 1 upper_not_lower [of b] by (auto intro: humped_Cons)
  next
    case False
    then show ?thesis using 1(2) dash_alpha_hd [of "b # s"] by (auto intro!: humped_Cons)
  qed
qed auto

lemma camelCase_idem: "camelCase (camelCase s) = camelCase s"
proof -
  have h: "humped (camelCase s)" by (simp add: camelCase_def humped_dash_alpha)
  have "\<not> prefix (J ''-ms-'') t" if "humped t" for t
    using that by (cases t; cases "tl t") (auto simp: is_lower_def)
  then show ?thesis using h dash_alpha_id [OF h] by (simp add: camelCase_def [of "camelCase s"])
qed

section \<open>The store\<close>

type_synonym 'v cache = "'v option js_obj"
type_synonym 'v store = "nat \<Rightarrow> 'v cache option"

definition acceptData :: "nat option \<Rightarrow> bool" where
  "acceptData nodeType \<longleftrightarrow> nodeType \<in> {Some 1, Some 9, None, Some 0}"

text \<open>The object of an owner; for one that may not have data it is a new object that nobody else sees.\<close>

definition cache :: "(nat \<Rightarrow> nat option) \<Rightarrow> nat \<Rightarrow> 'v store \<Rightarrow> 'v cache \<times> 'v store" where
  "cache nt owner st = (case st owner of
     Some c \<Rightarrow> (c, st)
   | None \<Rightarrow> ([], if acceptData (nt owner) then st(owner \<mapsto> []) else st))"

text \<open>Assignment of a property; \<open>__proto__\<close> makes none.\<close>

definition put_key :: "'v cache \<Rightarrow> js_string \<Rightarrow> 'v option \<Rightarrow> 'v cache" where
  "put_key c k v = (if k = J ''__proto__'' then c else obj_put c k v)"

datatype 'v data_arg = Key js_string | Properties "(js_string \<times> 'v option) list"

definition set_data :: "(nat \<Rightarrow> nat option) \<Rightarrow> nat \<Rightarrow> 'v data_arg \<Rightarrow> 'v option \<Rightarrow> 'v store \<Rightarrow> 'v cache \<times> 'v store" where
  "set_data nt owner data v st =
     (let (c, st') = cache nt owner st;
          c' = (case data of
                  Key k \<Rightarrow> put_key c (camelCase k) v
                | Properties ps \<Rightarrow> fold (\<lambda>(prop, u) c. put_key c (camelCase prop) u) ps c)
      in (c', if st' owner \<noteq> None then st'(owner \<mapsto> c') else st'))"

text \<open>Reading a key also finds what every object inherits; without an object the result is undefined.\<close>

definition get_data :: "nat \<Rightarrow> js_string \<Rightarrow> 'v store \<Rightarrow> 'v option slot" where
  "get_data owner key st = (case st owner of Some c \<Rightarrow> obj_lookup c (camelCase key) | None \<Rightarrow> Absent)"

datatype 'v access_result = WholeCache "'v cache" | Found "'v option slot" | GivenValue 'v | GivenKey "'v data_arg"

definition access :: "(nat \<Rightarrow> nat option) \<Rightarrow> nat \<Rightarrow> 'v data_arg option \<Rightarrow> 'v option \<Rightarrow> 'v store \<Rightarrow> 'v access_result \<times> 'v store" where
  "access nt owner key v st =
     (case key of
        None \<Rightarrow> (let (c, st') = cache nt owner st in (WholeCache c, st'))
      | Some data \<Rightarrow>
          (case (data, v) of
             (Key (x # xs), None) \<Rightarrow> (Found (get_data owner (x # xs) st), st)
           | _ \<Rightarrow> (case v of Some u \<Rightarrow> GivenValue u | None \<Rightarrow> GivenKey data, snd (set_data nt owner data v st))))"

datatype remove_arg = AllKeys | KeyList "js_string list" | KeyString js_string

text \<open>\<open>key in cache\<close> holds for inherited names too.\<close>

definition remove_keys :: "'v cache \<Rightarrow> remove_arg \<Rightarrow> js_string list" where
  "remove_keys c arg = (case arg of
     AllKeys \<Rightarrow> []
   | KeyList ks \<Rightarrow> map camelCase ks
   | KeyString s \<Rightarrow> if obj_lookup c (camelCase s) \<noteq> Absent then [camelCase s] else html_words (camelCase s))"

definition delete_keys :: "js_string list \<Rightarrow> 'v cache \<Rightarrow> 'v cache" where
  "delete_keys ks c = filter (\<lambda>(k, _). k \<notin> set ks) c"

definition remove_data :: "nat \<Rightarrow> remove_arg \<Rightarrow> 'v store \<Rightarrow> 'v store" where
  "remove_data owner arg st = (case st owner of
     None \<Rightarrow> st
   | Some c \<Rightarrow>
       (let c' = delete_keys (remove_keys c arg) c in
        if arg = AllKeys \<or> c' = [] then st(owner := None) else st(owner \<mapsto> c')))"

definition hasData :: "nat \<Rightarrow> 'v store \<Rightarrow> bool" where
  "hasData owner st \<longleftrightarrow> (case st owner of Some c \<Rightarrow> c \<noteq> [] | None \<Rightarrow> False)"

section \<open>Attributes\<close>

text \<open>
  The value of an attribute \<open>data-...\<close>: \<open>to_num\<close> is the number a string converts to and back without change, \<open>json\<close> what
  \<open>JSON.parse\<close> makes of a string, or its exception.
\<close>

datatype 'j data_attr = DBool bool | DNull | DNum js_num | DJson 'j | DStr js_string

definition rbrace :: "js_string \<Rightarrow> bool" where
  "rbrace s \<longleftrightarrow> 2 \<le> length s \<and> ((hd s = 123 \<and> last s = 125) \<or> (hd s = 91 \<and> last s = 93))"

definition getData :: "(js_string \<Rightarrow> js_num option) \<Rightarrow> (js_string \<Rightarrow> 'j option) \<Rightarrow> js_string \<Rightarrow> 'j data_attr option" where
  "getData to_num json data =
     (if data = J ''true'' then Some (DBool True)
      else if data = J ''false'' then Some (DBool False)
      else if data = J ''null'' then Some DNull
      else case to_num data of
        Some n \<Rightarrow> Some (DNum n)
      | None \<Rightarrow> if rbrace data then map_option DJson (json data) else Some (DStr data))"

definition is_upper :: "js_char \<Rightarrow> bool" where
  "is_upper c \<longleftrightarrow> 65 \<le> c \<and> c \<le> 90"

text \<open>\<open>key.replace(/[A-Z]/g, '-$&').toLowerCase()\<close>; \<open>lc\<close> is the conversion to lower case.\<close>

definition attr_name :: "(js_string \<Rightarrow> js_string) \<Rightarrow> js_string \<Rightarrow> js_string" where
  "attr_name lc key = J ''data-'' @ lc (concat (map (\<lambda>c. if is_upper c then [45, c] else [c]) key))"

text \<open>\<open>attrs\<close> gives the attributes of an element; a value that cannot be parsed is kept as the string.\<close>

definition dataAttr :: "(js_string \<Rightarrow> js_num option) \<Rightarrow> (js_string \<Rightarrow> 'j option) \<Rightarrow> (js_string \<Rightarrow> js_string)
    \<Rightarrow> (nat \<Rightarrow> nat option) \<Rightarrow> (nat \<Rightarrow> js_string \<Rightarrow> js_string option) \<Rightarrow> nat \<Rightarrow> js_string \<Rightarrow> 'j data_attr option
    \<Rightarrow> 'j data_attr store \<Rightarrow> 'j data_attr option \<times> 'j data_attr store" where
  "dataAttr to_num json lc nt attrs elem key data st =
     (if data = None \<and> nt elem = Some 1 then
        (case attrs elem (attr_name lc key) of
           Some s \<Rightarrow>
             (let v = (case getData to_num json s of Some d \<Rightarrow> d | None \<Rightarrow> DStr s)
              in (Some v, snd (set_data nt elem (Key key) (Some v) st)))
         | None \<Rightarrow> (None, st))
      else (data, st))"

text \<open>The method \<open>data\<close> of a set with a key: reading takes the first element, writing every element.\<close>

definition data_read :: "(js_string \<Rightarrow> js_num option) \<Rightarrow> (js_string \<Rightarrow> 'j option) \<Rightarrow> (js_string \<Rightarrow> js_string)
    \<Rightarrow> (nat \<Rightarrow> nat option) \<Rightarrow> (nat \<Rightarrow> js_string \<Rightarrow> js_string option) \<Rightarrow> nat list \<Rightarrow> js_string
    \<Rightarrow> 'j data_attr store \<Rightarrow> 'j data_attr option slot \<times> 'j data_attr store" where
  "data_read to_num json lc nt attrs els key st =
     (case els of
        [] \<Rightarrow> (Absent, st)
      | elem # _ \<Rightarrow>
          (case get_data elem key st of
             Inherited \<Rightarrow> (Inherited, st)
           | Own (Some v) \<Rightarrow> (Own (Some v), st)
           | _ \<Rightarrow> (let (r, st') = dataAttr to_num json lc nt attrs elem key None st
                    in (case r of Some v \<Rightarrow> Own (Some v) | None \<Rightarrow> Absent, st'))))"

definition data_write :: "(nat \<Rightarrow> nat option) \<Rightarrow> nat list \<Rightarrow> 'v data_arg \<Rightarrow> 'v option \<Rightarrow> 'v store \<Rightarrow> 'v store" where
  "data_write nt els data v = fold (\<lambda>elem st. snd (set_data nt elem data v st)) els"

definition removeData :: "nat list \<Rightarrow> remove_arg \<Rightarrow> 'v store \<Rightarrow> 'v store" where
  "removeData els arg = fold (\<lambda>elem. remove_data elem arg) els"

section \<open>Laws of the store\<close>

lemma map_of_delete: "map_of (delete_keys ks c) k = (if k \<in> set ks then None else map_of c k)"
  unfolding delete_keys_def by (induction c) auto

lemma lookup_put: "k \<noteq> J ''__proto__'' \<Longrightarrow> obj_lookup (put_key c k v) k' = (if k' = k then Own v else obj_lookup c k')"
  by (simp add: obj_lookup_def put_key_def map_of_obj_put)

lemma set_data_key:
  assumes "acceptData (nt owner)"
  shows "snd (set_data nt owner (Key k) v st) = st(owner \<mapsto> put_key (case st owner of Some c \<Rightarrow> c | None \<Rightarrow> []) (camelCase k) v)"
  using assms by (auto simp: set_data_def cache_def Let_def fun_eq_iff split: option.splits)

lemma get_set_data:
  assumes "acceptData (nt owner)" and "camelCase k \<noteq> J ''__proto__''" and "camelCase k' \<notin> set proto_keys"
  shows "get_data owner k' (snd (set_data nt owner (Key k) v st)) = (if camelCase k' = camelCase k then Own v else get_data owner k' st)"
proof -
  let ?c = "case st owner of Some c \<Rightarrow> c | None \<Rightarrow> []"
  have "get_data owner k' (snd (set_data nt owner (Key k) v st)) = obj_lookup (put_key ?c (camelCase k) v) (camelCase k')"
    unfolding set_data_key [of nt owner, OF assms(1)] by (simp add: get_data_def)
  moreover have "obj_lookup ?c (camelCase k') = get_data owner k' st"
    using assms(3) by (cases "st owner") (auto simp: get_data_def obj_lookup_def)
  ultimately show ?thesis by (simp only: lookup_put [OF assms(2)])
qed

lemma get_remove_data:
  assumes "camelCase k' \<notin> set proto_keys"
  shows "get_data owner k' (remove_data owner (KeyList ks) st) =
    (if camelCase k' \<in> camelCase ` set ks then Absent else get_data owner k' st)"
proof (cases "st owner")
  case (Some c)
  have "map_of c (camelCase k') = None" if "delete_keys (map camelCase ks) c = []" "camelCase k' \<notin> camelCase ` set ks"
    using map_of_delete [of "map camelCase ks" c "camelCase k'"] that by simp
  then show ?thesis
    using Some assms by (auto simp: get_data_def remove_data_def remove_keys_def Let_def obj_lookup_def map_of_delete)
qed (simp add: get_data_def remove_data_def)

lemma hasData_set: "acceptData (nt owner) \<Longrightarrow> camelCase k \<noteq> J ''__proto__'' \<Longrightarrow> hasData owner (snd (set_data nt owner (Key k) v st))"
proof -
  have "obj_put c k v \<noteq> []" for c :: "'v cache" and k v by (cases "(c, k, v)" rule: obj_put.cases) auto
  then show "acceptData (nt owner) \<Longrightarrow> camelCase k \<noteq> J ''__proto__'' \<Longrightarrow> ?thesis"
    by (simp add: set_data_key hasData_def put_key_def)
qed

text \<open>
  Data stored for an owner that may have data are read back under every spelling of the key, with dashes or in
  camel case; all other keys and owners keep their data, and after the key is removed it is gone and the other keys are still there.\<close>

theorem data_store_laws:
  assumes "acceptData (nt owner)" and "camelCase k \<notin> set proto_keys" and "camelCase k' \<notin> set proto_keys"
  shows "let st' = snd (set_data nt owner (Key k) (Some v) st) in
     get_data owner (camelCase k) st' = Own (Some v) \<and>
     get_data owner k' st' = (if camelCase k' = camelCase k then Own (Some v) else get_data owner k' st) \<and>
     hasData owner st' \<and>
     (\<forall>o'. o' \<noteq> owner \<longrightarrow> st' o' = st o') \<and>
     get_data owner k' (remove_data owner (KeyList [k]) st') = (if camelCase k' = camelCase k then Absent else get_data owner k' st)"
proof -
  have k: "camelCase k \<noteq> J ''__proto__''" using assms(2) by (auto simp: proto_keys_def)
  note g = get_set_data [of nt owner k, OF assms(1) k]
  show ?thesis
    using g [of "camelCase k" "Some v" st] g [OF assms(3), of "Some v" st] hasData_set [of nt owner k, OF assms(1) k]
      get_remove_data [OF assms(3), of owner "[k]" "snd (set_data nt owner (Key k) (Some v) st)"] assms(1,2) camelCase_idem [of k]
    by (auto simp: Let_def set_data_key)
qed

text \<open>As soon as an owner has any data, the name of an inherited property is found although nothing was stored under it.\<close>

theorem inherited_data_found:
  "get_data 0 (J ''constructor'') (snd (set_data (\<lambda>_. Some 1) 0 (Key (J ''a'')) (Some v) (\<lambda>_. None))) = Inherited"
  by (simp add: get_data_def set_data_key acceptData_def camelCase_def put_key_def obj_lookup_def proto_keys_def is_lower_def)

end
