(* ===== verification/Jq_Queue.thy ===== *)
theory Jq_Queue
  imports Jq_Data
begin

text \<open>
  The function queues of \<open>jquery-3.2.1.js\<close>, lines 4354 to 4454, kept in the private data of an element.

  A queue holds functions and, while one of the queue \<open>fx\<close> runs, the sentinel \<open>inprogress\<close> at its head. A function is started
  with the argument \<open>next\<close>, which dequeues again; since \<open>dequeue\<close> does nothing after it has started a function, a call of
  \<open>next\<close> from inside the function is the next step of the history as well. The hooks of a queue are a callback list with the
  options \<open>once memory\<close> whose first callback removes the queue; its other callbacks are kept in the order of their addition.
\<close>

section \<open>State\<close>

datatype 'f qitem = InProgress | QFun 'f

datatype 'f priv = PvQueue "'f qitem list" | PvHooks "nat list"

text \<open>The private data, the functions that were started and the callbacks of emptied queues that were called.\<close>

record 'f qworld =
  priv :: "'f priv store"
  started :: "(nat \<times> 'f) list"
  resolved :: "nat list"

definition or_fx :: "js_string \<Rightarrow> js_string" where
  "or_fx type = (if type \<noteq> [] then type else J ''fx'')"

definition queue_key :: "js_string \<Rightarrow> js_string" where
  "queue_key type = type @ J ''queue''"

definition hooks_key :: "js_string \<Rightarrow> js_string" where
  "hooks_key type = type @ J ''queueHooks''"

definition stored_queue :: "nat \<Rightarrow> js_string \<Rightarrow> 'f priv store \<Rightarrow> 'f qitem list option" where
  "stored_queue elem type st = (case get_data elem (queue_key type) st of Own (Some (PvQueue q)) \<Rightarrow> Some q | _ \<Rightarrow> None)"

definition put_queue :: "(nat \<Rightarrow> nat option) \<Rightarrow> nat \<Rightarrow> js_string \<Rightarrow> 'f qitem list \<Rightarrow> 'f priv store \<Rightarrow> 'f priv store" where
  "put_queue nt elem type q st = snd (access nt elem (Some (Key (queue_key type))) (Some (PvQueue q)) st)"

section \<open>Operations\<close>

datatype 'f queue_data = OneFun 'f | FunArray "'f list"

definition make_items :: "'f queue_data \<Rightarrow> 'f qitem list" where
  "make_items d = (case d of OneFun f \<Rightarrow> [QFun f] | FunArray fs \<Rightarrow> map QFun fs)"

text \<open>Without data it is a lookup; an array replaces the queue, a function is put at its end.\<close>

definition queue_jq :: "(nat \<Rightarrow> nat option) \<Rightarrow> nat \<Rightarrow> js_string \<Rightarrow> 'f queue_data option \<Rightarrow> 'f priv store \<Rightarrow> 'f qitem list \<times> 'f priv store" where
  "queue_jq nt elem type data st =
     (let old = stored_queue elem (or_fx type) st in
      case data of
        None \<Rightarrow> (case old of Some q \<Rightarrow> q | None \<Rightarrow> [], st)
      | Some d \<Rightarrow>
          (let q = (case (old, d) of (Some q, OneFun f) \<Rightarrow> q @ [QFun f] | _ \<Rightarrow> make_items d)
           in (q, put_queue nt elem (or_fx type) q st)))"

text \<open>The hooks of the queue, made when there are none.\<close>

definition queueHooks :: "(nat \<Rightarrow> nat option) \<Rightarrow> nat \<Rightarrow> js_string \<Rightarrow> 'f priv store \<Rightarrow> nat list \<times> 'f priv store" where
  "queueHooks nt elem type st =
     (case get_data elem (hooks_key type) st of
        Own (Some (PvHooks cs)) \<Rightarrow> (cs, st)
      | _ \<Rightarrow> ([], snd (access nt elem (Some (Key (hooks_key type))) (Some (PvHooks [])) st)))"

definition shift :: "'a list \<Rightarrow> 'a option \<times> 'a list" where
  "shift q = (case q of [] \<Rightarrow> (None, []) | x # xs \<Rightarrow> (Some x, xs))"

text \<open>The head of the queue without the sentinel, and the length it had without it.\<close>

definition take_next :: "'f qitem list \<Rightarrow> 'f qitem option \<times> 'f qitem list \<times> nat" where
  "take_next q =
     (let (fn, q1) = shift q in
      if fn = Some InProgress then (let (fn', q2) = shift q1 in (fn', q2, length q - 1))
      else (fn, q1, length q))"

definition dequeue :: "(nat \<Rightarrow> nat option) \<Rightarrow> nat \<Rightarrow> js_string \<Rightarrow> 'f qworld \<Rightarrow> 'f qworld" where
  "dequeue nt elem type0 w =
     (let type = or_fx type0;
          old = stored_queue elem type (priv w);
          (fn, q, startLength) = take_next (case old of Some q \<Rightarrow> q | None \<Rightarrow> []);
          (cs, st1) = queueHooks nt elem type (priv w);
          q' = (if fn \<noteq> None \<and> type = J ''fx'' then InProgress # q else q);
          st2 = (if old \<noteq> None then put_queue nt elem type q' st1 else st1);
          w1 = w\<lparr>priv := st2, started := started w @ (case fn of Some (QFun f) \<Rightarrow> [(elem, f)] | _ \<Rightarrow> [])\<rparr>
      in if startLength = 0
         then w1\<lparr>priv := remove_data elem (KeyList [queue_key type, hooks_key type]) st2, resolved := resolved w1 @ cs\<rparr>
         else w1)"

text \<open>The methods of a set: queueing on every element starts an idle queue \<open>fx\<close>.\<close>

definition queue_elem :: "(nat \<Rightarrow> nat option) \<Rightarrow> js_string \<Rightarrow> 'f queue_data \<Rightarrow> nat \<Rightarrow> 'f qworld \<Rightarrow> 'f qworld" where
  "queue_elem nt type d elem w =
     (let (q, st1) = queue_jq nt elem type (Some d) (priv w);
          (_, st2) = queueHooks nt elem type st1;
          w1 = w\<lparr>priv := st2\<rparr>
      in if type = J ''fx'' \<and> (q = [] \<or> hd q \<noteq> InProgress) then dequeue nt elem type w1 else w1)"

definition fn_queue :: "(nat \<Rightarrow> nat option) \<Rightarrow> js_string \<Rightarrow> 'f queue_data \<Rightarrow> nat list \<Rightarrow> 'f qworld \<Rightarrow> 'f qworld" where
  "fn_queue nt type d els = fold (queue_elem nt type d) els"

definition fn_dequeue :: "(nat \<Rightarrow> nat option) \<Rightarrow> js_string \<Rightarrow> nat list \<Rightarrow> 'f qworld \<Rightarrow> 'f qworld" where
  "fn_dequeue nt type els = fold (\<lambda>elem. dequeue nt elem type) els"

definition clearQueue :: "(nat \<Rightarrow> nat option) \<Rightarrow> js_string \<Rightarrow> nat list \<Rightarrow> 'f qworld \<Rightarrow> 'f qworld" where
  "clearQueue nt type els = fn_queue nt (or_fx type) (FunArray []) els"

text \<open>\<open>promise\<close>: a resolver is added to the hooks of every element that has a queue.\<close>

definition add_resolver :: "(nat \<Rightarrow> nat option) \<Rightarrow> js_string \<Rightarrow> nat \<Rightarrow> nat \<Rightarrow> 'f priv store \<Rightarrow> 'f priv store" where
  "add_resolver nt type resolver elem st =
     (case get_data elem (hooks_key type) st of
        Own (Some (PvHooks cs)) \<Rightarrow> snd (set_data nt elem (Key (hooks_key type)) (Some (PvHooks (cs @ [resolver]))) st)
      | _ \<Rightarrow> st)"

section \<open>The queue fx as a queue\<close>

abbreviation fx :: js_string where
  "fx \<equiv> J ''fx''"

lemma fx_keys:
  "camelCase (queue_key fx) \<notin> set proto_keys" "camelCase (hooks_key fx) \<notin> set proto_keys"
  "camelCase (queue_key fx) \<noteq> camelCase (hooks_key fx)" "or_fx fx = fx"
  "camelCase (queue_key fx) \<noteq> J ''__proto__''" "camelCase (hooks_key fx) \<noteq> J ''__proto__''"
  by code_simp+

lemma access_set: "snd (access nt elem (Some (Key k)) (Some v) st) = snd (set_data nt elem (Key k) (Some v) st)"
  by (simp add: access_def split: list.splits)

lemma get_put_fx:
  assumes "acceptData (nt e)"
  shows "get_data e (queue_key fx) (put_queue nt e fx q st) = Own (Some (PvQueue q))"
    and "get_data e (hooks_key fx) (put_queue nt e fx q st) = get_data e (hooks_key fx) st"
    and "get_data e (hooks_key fx) (snd (set_data nt e (Key (hooks_key fx)) (Some v) st)) = Own (Some v)"
    and "get_data e (queue_key fx) (snd (set_data nt e (Key (hooks_key fx)) (Some v) st)) = get_data e (queue_key fx) st"
    and "get_data e (queue_key fx) (remove_data e (KeyList [queue_key fx, hooks_key fx]) st) = Absent"
    and "get_data e (hooks_key fx) (remove_data e (KeyList [queue_key fx, hooks_key fx]) st) = Absent"
  using assms fx_keys
  by (simp_all add: put_queue_def access_set get_set_data get_remove_data del: J_simps)

text \<open>The abstract queue: the function that runs, those that wait, who is told when the queue is empty, and what has happened.\<close>

record 'f fx_queue =
  running :: "'f option"
  waiting_fns :: "'f list"
  resolvers :: "nat list"
  fx_log :: "'f list"
  fx_resolved :: "nat list"

datatype 'f fx_event = Enqueue 'f | Next | Promise nat

text \<open>\<open>next\<close> is called by a function that runs.\<close>

definition fx_ok :: "'f fx_event \<Rightarrow> 'f fx_queue \<Rightarrow> bool" where
  "fx_ok ev a \<longleftrightarrow> (ev = Next \<longrightarrow> running a \<noteq> None)"

definition fx_step :: "'f fx_event \<Rightarrow> 'f fx_queue \<Rightarrow> 'f fx_queue" where
  "fx_step ev a = (case ev of
     Enqueue f \<Rightarrow> if running a = None then a\<lparr>running := Some f, fx_log := fx_log a @ [f]\<rparr>
                  else a\<lparr>waiting_fns := waiting_fns a @ [f]\<rparr>
   | Next \<Rightarrow> (case waiting_fns a of
        [] \<Rightarrow> a\<lparr>running := None, fx_resolved := fx_resolved a @ resolvers a, resolvers := []\<rparr>
      | f # fs \<Rightarrow> a\<lparr>running := Some f, waiting_fns := fs, fx_log := fx_log a @ [f]\<rparr>)
   | Promise r \<Rightarrow> if running a = None then a else a\<lparr>resolvers := resolvers a @ [r]\<rparr>)"

definition jq_step :: "(nat \<Rightarrow> nat option) \<Rightarrow> nat \<Rightarrow> 'f fx_event \<Rightarrow> 'f qworld \<Rightarrow> 'f qworld" where
  "jq_step nt e ev w = (case ev of
     Enqueue f \<Rightarrow> fn_queue nt fx (OneFun f) [e] w
   | Next \<Rightarrow> dequeue nt e fx w
   | Promise r \<Rightarrow> w\<lparr>priv := add_resolver nt fx r e (priv w)\<rparr>)"

definition fx_rel :: "nat \<Rightarrow> 'f fx_queue \<Rightarrow> 'f qworld \<Rightarrow> bool" where
  "fx_rel e a w \<longleftrightarrow>
     get_data e (queue_key fx) (priv w) =
       (if running a = None then Absent else Own (Some (PvQueue (InProgress # map QFun (waiting_fns a))))) \<and>
     get_data e (hooks_key fx) (priv w) = (if running a = None then Absent else Own (Some (PvHooks (resolvers a)))) \<and>
     (running a = None \<longrightarrow> waiting_fns a = [] \<and> resolvers a = []) \<and>
     started w = map (Pair e) (fx_log a) \<and> resolved w = fx_resolved a"

lemma fx_rel_step:
  assumes "acceptData (nt e)" and "fx_rel e a w" and "fx_ok ev a"
  shows "fx_rel e (fx_step ev a) (jq_step nt e ev w)"
proof (cases ev)
  case (Enqueue f)
  note g = get_put_fx [of nt e, OF assms(1)] fx_keys(4)
  show ?thesis
  proof (cases "running a")
    case None
    then show ?thesis using assms Enqueue
      by (simp add: g fx_rel_def fx_step_def jq_step_def fn_queue_def queue_elem_def queue_jq_def stored_queue_def queueHooks_def
          make_items_def dequeue_def take_next_def shift_def access_set Let_def del: J_simps)
  next
    case (Some g)
    then show ?thesis using assms Enqueue
      by (simp add: g fx_rel_def fx_step_def jq_step_def fn_queue_def queue_elem_def queue_jq_def stored_queue_def queueHooks_def Let_def del: J_simps)
  qed
next
  case Next
  then show ?thesis using assms
    by (cases "waiting_fns a")
       (auto simp: get_put_fx [of nt e, OF assms(1)] fx_keys(4) fx_ok_def fx_rel_def fx_step_def jq_step_def stored_queue_def queueHooks_def dequeue_def take_next_def shift_def Let_def simp del: J_simps)
next
  case (Promise r)
  then show ?thesis using assms
    by (auto simp: get_put_fx [of nt e, OF assms(1)] fx_rel_def fx_step_def jq_step_def add_resolver_def simp del: J_simps)
qed

fun history_ok :: "(nat \<Rightarrow> nat option) \<Rightarrow> nat \<Rightarrow> 'f fx_event list \<Rightarrow> 'f qworld \<Rightarrow> bool" where
  "history_ok nt e [] w = True"
| "history_ok nt e (ev # evs) w =
     ((ev = Next \<longrightarrow> stored_queue e fx (priv w) \<noteq> None) \<and> history_ok nt e evs (jq_step nt e ev w))"

definition enqueued :: "'f fx_event list \<Rightarrow> 'f list" where
  "enqueued evs = concat (map (\<lambda>ev. case ev of Enqueue f \<Rightarrow> [f] | _ \<Rightarrow> []) evs)"

definition nexts :: "'f fx_event list \<Rightarrow> nat" where
  "nexts evs = length (filter (\<lambda>ev. ev = Next) evs)"

definition fx_count :: "'f fx_queue \<Rightarrow> nat" where
  "fx_count a = (if running a = None then 0 else 1)"

text \<open>What is started or waits is what was queued, in this order, and one function runs at a time.\<close>

lemma fx_step_log:
  assumes "fx_ok ev a" "running a = None \<longrightarrow> waiting_fns a = []"
  shows "fx_log (fx_step ev a) @ waiting_fns (fx_step ev a) = (fx_log a @ waiting_fns a) @ enqueued [ev] \<and>
    length (fx_log (fx_step ev a)) + fx_count a = length (fx_log a) + nexts [ev] + fx_count (fx_step ev a)"
  using assms by (cases ev) (auto simp: fx_step_def enqueued_def nexts_def fx_ok_def fx_count_def split: list.splits)

lemma stored_rel: "fx_rel e a w \<Longrightarrow> stored_queue e fx (priv w) = (if running a = None then None else Some (InProgress # map QFun (waiting_fns a)))"
  by (auto simp: fx_rel_def stored_queue_def simp del: J_simps)

lemma fx_runs:
  assumes "acceptData (nt e)"
  shows "fx_rel e a w \<Longrightarrow> history_ok nt e evs w \<Longrightarrow>
    \<exists>a'. fx_rel e a' (fold (jq_step nt e) evs w) \<and>
      fx_log a' @ waiting_fns a' = (fx_log a @ waiting_fns a) @ enqueued evs \<and>
      length (fx_log a') + fx_count a = length (fx_log a) + nexts evs + fx_count a'"
proof (induction evs arbitrary: a w)
  case Nil
  then show ?case by (intro exI [of _ a]) (simp add: enqueued_def nexts_def)
next
  case (Cons ev evs)
  have ok: "fx_ok ev a" using Cons.prems stored_rel [OF Cons.prems(1)] by (auto simp: fx_ok_def simp del: J_simps split: if_splits)
  have rel: "fx_rel e (fx_step ev a) (jq_step nt e ev w)" by (rule fx_rel_step [of nt e, OF assms Cons.prems(1) ok])
  have idle: "running a = None \<longrightarrow> waiting_fns a = []" using Cons.prems(1) by (simp add: fx_rel_def)
  obtain a' where a': "fx_rel e a' (fold (jq_step nt e) evs (jq_step nt e ev w))"
      "fx_log a' @ waiting_fns a' = (fx_log (fx_step ev a) @ waiting_fns (fx_step ev a)) @ enqueued evs"
      "length (fx_log a') + fx_count (fx_step ev a) = length (fx_log (fx_step ev a)) + nexts evs + fx_count a'"
    using Cons.IH [OF rel] Cons.prems(2) by auto
  have "enqueued (ev # evs) = enqueued [ev] @ enqueued evs" "nexts (ev # evs) = nexts [ev] + nexts evs"
    by (simp_all add: enqueued_def nexts_def)
  then show ?case using a' fx_step_log [OF ok idle] by (intro exI [of _ a']) auto
qed

definition new_page :: "'f qworld" where
  "new_page = \<lparr>priv = \<lambda>_. None, started = [], resolved = []\<rparr>"

section \<open>Properties\<close>



end
