(* ===== verification/Jq_Ajax.thy ===== *)
theory Jq_Ajax
  imports Jq_Callbacks
begin

text \<open>
  The handling of responses in \<open>jquery-3.2.1.js\<close>, lines 8533 to 8771: registration of prefilters and transports, their inspection, the choice of
  the response and the chain of conversions. \<open>'d\<close> is the type of response data; \<open>lc\<close> is the conversion to lower case.
\<close>

section \<open>Prefilters and transports\<close>

text \<open>The functions registered for each data type, in order.\<close>

type_synonym 'f registry = "'f list js_obj"

definition star :: js_string where
  "star = J ''*''"

definition own_list :: "'f registry \<Rightarrow> js_string \<Rightarrow> 'f list" where
  "own_list structure k = (case map_of structure k of Some fs \<Rightarrow> fs | None \<Rightarrow> [])"

definition own_or_new :: "'f registry \<Rightarrow> js_string \<Rightarrow> 'f list option" where
  "own_or_new structure k = (case obj_lookup structure k of Own fs \<Rightarrow> Some fs | Absent \<Rightarrow> Some [] | Inherited \<Rightarrow> None)"

definition add_func :: "'f \<Rightarrow> js_string \<Rightarrow> 'f registry \<Rightarrow> 'f registry option" where
  "add_func func dataType structure =
     (if take 1 dataType = J ''+''
      then (let d = (if drop 1 dataType \<noteq> [] then drop 1 dataType else star)
            in map_option (\<lambda>fs. obj_put structure d (func # fs)) (own_or_new structure d))
      else map_option (\<lambda>fs. obj_put structure dataType (fs @ [func])) (own_or_new structure dataType))"

text \<open>
  The expression is optional; \<open>func\<close> is \<open>None\<close> when it is no function. The result is \<open>None\<close> when the name of an inherited
  property makes the code throw.
\<close>

definition addToPrefiltersOrTransports :: "(js_string \<Rightarrow> js_string) \<Rightarrow> js_string option \<Rightarrow> 'f option \<Rightarrow> 'f registry \<Rightarrow> 'f registry option" where
  "addToPrefiltersOrTransports lc dataTypeExpression func structure =
     (case func of
        None \<Rightarrow> Some structure
      | Some f \<Rightarrow> fold (\<lambda>d r. Option.bind r (add_func f d))
          (html_words (lc (case dataTypeExpression of Some s \<Rightarrow> s | None \<Rightarrow> star))) (Some structure))"

text \<open>
  A prefilter or factory answers with another data type, or with something else, for a transport perhaps the transport; it may change the
  world. \<open>inspect\<close> returns the selected transport, the inspected types, the new list of data types and the world.
  \<open>fuel\<close> bounds the chain of types.
\<close>

datatype 't answer = AType js_string | ATransport 't | ANothing

fun inspect_list :: "bool \<Rightarrow> ('f \<Rightarrow> 'w \<Rightarrow> 't answer \<times> 'w) \<Rightarrow> (js_string \<Rightarrow> js_string list \<Rightarrow> js_string list \<Rightarrow> 'w \<Rightarrow>
     ('t answer \<times> js_string list \<times> js_string list \<times> 'w) option) \<Rightarrow> 'f list \<Rightarrow> js_string list \<Rightarrow> js_string list \<Rightarrow> 'w \<Rightarrow>
     ('t answer \<times> js_string list \<times> js_string list \<times> 'w) option" where
  "inspect_list seeking call rec [] inspected dataTypes w = Some (ANothing, inspected, dataTypes, w)"
| "inspect_list seeking call rec (f # fs) inspected dataTypes w =
     (let (r, w') = call f w in
      case r of
        AType t \<Rightarrow>
          if \<not> seeking \<and> t \<notin> set inspected \<and> t \<notin> set proto_keys then
            map_option (\<lambda>(_, rest). (ANothing, rest)) (rec t inspected (t # dataTypes) w')
          else if seeking then
            (if t \<noteq> [] then Some (AType t, inspected, dataTypes, w') else inspect_list seeking call rec fs inspected dataTypes w')
          else inspect_list seeking call rec fs inspected dataTypes w'
      | ATransport t \<Rightarrow> if seeking then Some (ATransport t, inspected, dataTypes, w')
                        else inspect_list seeking call rec fs inspected dataTypes w'
      | ANothing \<Rightarrow> inspect_list seeking call rec fs inspected dataTypes w')"

fun inspect :: "nat \<Rightarrow> bool \<Rightarrow> ('f \<Rightarrow> 'w \<Rightarrow> 't answer \<times> 'w) \<Rightarrow> 'f registry \<Rightarrow> js_string \<Rightarrow> js_string list \<Rightarrow> js_string list \<Rightarrow> 'w \<Rightarrow>
     ('t answer \<times> js_string list \<times> js_string list \<times> 'w) option" where
  "inspect 0 seeking call structure dataType inspected dataTypes w = None"
| "inspect (Suc fuel) seeking call structure dataType inspected dataTypes w =
     inspect_list seeking call (\<lambda>t i d w. inspect fuel seeking call structure t i d w)
       (own_list structure dataType) (dataType # inspected) dataTypes w"

definition inspectPrefiltersOrTransports :: "nat \<Rightarrow> bool \<Rightarrow> ('f \<Rightarrow> 'w \<Rightarrow> 't answer \<times> 'w) \<Rightarrow> 'f registry \<Rightarrow> js_string list \<Rightarrow> 'w \<Rightarrow>
     ('t answer \<times> js_string list \<times> 'w) option" where
  "inspectPrefiltersOrTransports fuel seeking call structure dataTypes w =
     (case inspect fuel seeking call structure (case dataTypes of d # _ \<Rightarrow> d | [] \<Rightarrow> J ''undefined'') [] dataTypes w of
        None \<Rightarrow> None
      | Some (r, inspected, dataTypes', w') \<Rightarrow>
          if r \<noteq> ANothing \<or> star \<in> set inspected then Some (r, dataTypes', w')
          else map_option (\<lambda>(r, _, d, w). (r, d, w)) (inspect fuel seeking call structure star inspected dataTypes' w'))"

section \<open>The response\<close>

datatype 'd conv = Same | Fun "'d \<Rightarrow> js_string + 'd"

text \<open>The settings of a request that the response functions use.\<close>

record 'd ajax_settings =
  contents :: "(js_string \<Rightarrow> bool) js_obj"
  dataTypes :: "js_string list"
  converters :: "'d conv js_obj"
  responseFields :: "js_string js_obj"
  dataFilter :: "('d \<Rightarrow> 'd) option"
  mimeType :: "js_string option"
  throws :: bool

definition join_types :: "js_string \<Rightarrow> js_string \<Rightarrow> js_string" where
  "join_types a b = a @ 32 # b"

definition or_string :: "js_string option \<Rightarrow> js_string option \<Rightarrow> js_string option" where
  "or_string a b = (case a of Some s \<Rightarrow> if s \<noteq> [] then Some s else b | None \<Rightarrow> b)"

text \<open>The type that the content type of the answer names, put first.\<close>

definition known_type :: "'d ajax_settings \<Rightarrow> js_string option \<Rightarrow> js_string list \<Rightarrow> js_string list" where
  "known_type s ct types =
     (case ct of
        Some c \<Rightarrow> if c \<noteq> [] then (case find (\<lambda>(_, test). test c) (contents s) of Some (t, _) \<Rightarrow> t # types | None \<Rightarrow> types) else types
      | None \<Rightarrow> types)"

text \<open>The first response that can be converted, or else the first one; an empty name counts as none.\<close>

fun seek_type :: "'d ajax_settings \<Rightarrow> js_string list \<Rightarrow> js_string \<Rightarrow> js_string list \<Rightarrow> js_string" where
  "seek_type s types firstDataType [] = firstDataType"
| "seek_type s types firstDataType (t # ts) =
     (if types = [] \<or> hd types = [] \<or> map_of (converters s) (join_types t (hd types)) \<noteq> None
      then (if t \<noteq> [] then t else firstDataType)
      else seek_type s types (if firstDataType = [] then t else firstDataType) ts)"

text \<open>
  The result is the new list of data types and the chosen response. \<open>header\<close> is the header \<open>Content-Type\<close> of the answer.
\<close>

definition ajaxHandleResponses :: "'d ajax_settings \<Rightarrow> js_string option \<Rightarrow> 'd js_obj \<Rightarrow> js_string list \<times> 'd slot" where
  "ajaxHandleResponses s header responses =
     (let auto = takeWhile (\<lambda>t. t = star) (dataTypes s);
          rest = dropWhile (\<lambda>t. t = star) (dataTypes s);
          types = known_type s (if auto \<noteq> [] then or_string (mimeType s) header else None) rest;
          first = (case types of t # _ \<Rightarrow> t | [] \<Rightarrow> J ''undefined'');
          final = (if obj_lookup responses first \<noteq> Absent then (if types \<noteq> [] then first else [])
                   else seek_type s types [] (map fst responses))
      in if final = [] then (types, Absent)
         else (if types \<noteq> [] \<and> hd types = final then types else final # types, obj_lookup responses final))"

section \<open>Conversion\<close>

datatype 'd converted = Success 'd | ParserError js_string | Rethrown js_string

text \<open>The converter for a step: direct, from anything, or the first half of a pair.\<close>

definition direct :: "'d conv js_obj \<Rightarrow> js_string \<Rightarrow> js_string \<Rightarrow> 'd conv option" where
  "direct cs a b = (case map_of cs (join_types a b) of Some c \<Rightarrow> Some c | None \<Rightarrow> map_of cs (join_types star b))"

text \<open>
  The loop over the pairs: the converter, and whether an intermediate type is inserted, with the target to come back to.
\<close>

fun seek_pair :: "'d conv js_obj \<Rightarrow> js_string \<Rightarrow> js_string \<Rightarrow> 'd conv js_obj \<Rightarrow> ('d conv \<times> (js_string \<times> js_string) option) option" where
  "seek_pair cs prev current [] = None"
| "seek_pair cs prev current ((conv2, c2) # rest) =
     (case split_char 32 conv2 of
        t0 # t1 # _ \<Rightarrow>
          if t1 = current then
            (case direct cs prev t0 of
               Some Same \<Rightarrow> Some (c2, None)
             | Some c \<Rightarrow> Some (c, case c2 of Same \<Rightarrow> None | Fun _ \<Rightarrow> Some (t0, t1))
             | None \<Rightarrow> seek_pair cs prev current rest)
          else seek_pair cs prev current rest
      | _ \<Rightarrow> seek_pair cs prev current rest)"

definition step_converter :: "'d conv js_obj \<Rightarrow> js_string \<Rightarrow> js_string \<Rightarrow> 'd conv option \<times> (js_string \<times> js_string) option" where
  "step_converter cs prev current =
     (case direct cs prev current of
        Some c \<Rightarrow> (Some c, None)
      | None \<Rightarrow> (case seek_pair cs prev current cs of Some (c, ins) \<Rightarrow> (Some c, ins) | None \<Rightarrow> (None, None)))"

definition no_conversion :: "js_string \<Rightarrow> js_string \<Rightarrow> js_string" where
  "no_conversion prev current = J ''No conversion from '' @ prev @ J '' to '' @ current"

text \<open>
  One pass of the loop for \<open>current\<close>; \<open>prev\<close> is \<open>None\<close> in the first. The result also has the fields of the request object that
  were set. \<open>fuel\<close> bounds the passes.
\<close>

fun convert_loop :: "nat \<Rightarrow> 'd ajax_settings \<Rightarrow> 'd conv js_obj \<Rightarrow> bool \<Rightarrow> js_string option \<Rightarrow> js_string \<Rightarrow> js_string list \<Rightarrow> 'd
    \<Rightarrow> 'd js_obj \<Rightarrow> ('d converted \<times> 'd js_obj) option" where
  "convert_loop 0 s cs isSuccess prev0 current types response fds = None"
| "convert_loop (Suc fuel) s cs isSuccess prev0 current types response fds =
     (let fds1 = (case map_of (responseFields s) current of
                       Some f \<Rightarrow> if f \<noteq> [] then obj_put fds f response else fds | None \<Rightarrow> fds);
          response1 = (case dataFilter s of Some df \<Rightarrow> if prev0 = None \<and> isSuccess then df response else response | None \<Rightarrow> response)
      in case types of
           [] \<Rightarrow> Some (Success response1, fds1)
         | next # types1 \<Rightarrow>
             if next = [] then Some (Success response1, fds1)
             else if next = star then convert_loop fuel s cs isSuccess (Some current) current types1 response1 fds1
             else if current \<noteq> star \<and> current \<noteq> next then
               (let (conv, ins) = step_converter cs current next;
                    current2 = (case ins of Some (t0, _) \<Rightarrow> t0 | None \<Rightarrow> next);
                    types2 = (case ins of Some (_, t1) \<Rightarrow> t1 # types1 | None \<Rightarrow> types1)
                in case conv of
                     Some Same \<Rightarrow> convert_loop fuel s cs isSuccess (Some current) current2 types2 response1 fds1
                   | Some (Fun f) \<Rightarrow>
                       (case f response1 of
                          Inr r \<Rightarrow> convert_loop fuel s cs isSuccess (Some current) current2 types2 r fds1
                        | Inl e \<Rightarrow> Some (if throws s then Rethrown e else ParserError e, fds1))
                   | None \<Rightarrow> Some (ParserError (no_conversion current current2), fds1))
             else convert_loop fuel s cs isSuccess (Some current) next types1 response1 fds1)"

definition lower_keys :: "(js_string \<Rightarrow> js_string) \<Rightarrow> 'd conv js_obj \<Rightarrow> 'd conv js_obj" where
  "lower_keys lc cs = fold (\<lambda>(k, c) acc. obj_put acc (lc k) c) cs []"

definition ajaxConvert :: "nat \<Rightarrow> (js_string \<Rightarrow> js_string) \<Rightarrow> 'd ajax_settings \<Rightarrow> 'd \<Rightarrow> bool \<Rightarrow> 'd js_obj \<Rightarrow> ('d converted \<times> 'd js_obj) option" where
  "ajaxConvert fuel lc s response isSuccess fds =
     (let cs = (case dataTypes s of _ # t # _ \<Rightarrow> if t \<noteq> [] then lower_keys lc (converters s) else [] | _ \<Rightarrow> []) in
      case dataTypes s of
        [] \<Rightarrow> Some (Success response, fds)
      | t # ts \<Rightarrow> if t = [] then Some (Success response, fds)
                  else convert_loop fuel s cs isSuccess None t ts response fds)"

section \<open>Termination\<close>

definition returns :: "'a option \<Rightarrow> bool" where
  "returns r \<longleftrightarrow> r \<noteq> None"

lemma returns_simps [simp]: "returns (Some x)" "\<not> returns None" "returns (map_option f r) = returns r"
  by (auto simp: returns_def)

definition left_keys :: "'f registry \<Rightarrow> js_string list \<Rightarrow> nat" where
  "left_keys structure inspected = card (fst ` set structure - set inspected)"

lemma inspect_list_returns:
  "(\<And>t d w. t \<notin> set inspected \<Longrightarrow> returns (rec t inspected d w)) \<Longrightarrow>
   returns (inspect_list seeking call rec fs inspected dts w)"
proof (induction fs arbitrary: w)
  case (Cons f fs)
  obtain r w' where r: "call f w = (r, w')" by fastforce
  then show ?case using Cons by (cases r) auto
qed simp

lemma inspect_returns:
  "dataType \<notin> set inspected \<Longrightarrow> left_keys structure inspected < fuel \<Longrightarrow>
   returns (inspect fuel seeking call structure dataType inspected dts w)"
proof (induction fuel arbitrary: dataType inspected dts w)
  case (Suc fuel)
  show ?case
  proof (cases "own_list structure dataType = []")
    case False
    then have "dataType \<in> fst ` set structure"
      by (auto simp: own_list_def split: option.splits dest!: map_of_SomeD intro: rev_image_eqI)
    then have "fst ` set structure - set (dataType # inspected) \<subset> fst ` set structure - set inspected"
      using Suc.prems(1) by auto
    then have "left_keys structure (dataType # inspected) < left_keys structure inspected"
      unfolding left_keys_def by (intro psubset_card_mono) auto
    then show ?thesis
      unfolding inspect.simps by (intro inspect_list_returns Suc.IH) (use Suc.prems in auto)
  qed simp
qed simp

text \<open>Every key names two types.\<close>

definition two_types :: "'d conv js_obj \<Rightarrow> bool" where
  "two_types cs = list_all (\<lambda>(k, _). length (split_char 32 k) = 2) cs"

lemma seek_pair_inserts:
  "two_types rest \<Longrightarrow> seek_pair cs prev current rest = Some (c, Some (t0, t1)) \<Longrightarrow>
   t1 = current \<and> (\<exists>c2. (join_types t0 t1, c2) \<in> set rest)"
proof (induction rest)
  case (Cons p rest)
  obtain k c2 where p: "p = (k, c2)" by (cases p)
  obtain a b where ab: "split_char 32 k = [a, b]"
    using Cons.prems(1) p by (auto simp: two_types_def numeral_2_eq_2 length_Suc_conv)
  then have "k = join_types a b" using join_split_char [of 32 k] by (simp add: join_types_def)
  then show ?case using Cons p ab
    by (auto simp: two_types_def split: if_splits option.splits conv.splits)
qed simp

lemma insertion_is_direct:
  assumes "two_types cs" "step_converter cs prev current = (conv, Some (t0, t1))"
  shows "t1 = current \<and> direct cs t0 current \<noteq> None"
proof -
  obtain c where "seek_pair cs prev current cs = Some (c, Some (t0, t1))"
    using assms(2) by (auto simp: step_converter_def split: option.splits prod.splits)
  then obtain c2 where "t1 = current" "(join_types t0 t1, c2) \<in> set cs" using seek_pair_inserts [OF assms(1)] by blast
  then have "t1 = current" "join_types t0 t1 \<in> fst ` set cs" by (auto intro: image_eqI [where x = "(join_types t0 t1, c2)"])
  moreover have "map_of cs (join_types t0 t1) \<noteq> None" using calculation(2) by (simp add: map_of_eq_None_iff)
  ultimately show ?thesis by (auto simp: direct_def)
qed

lemma convert_pass:
  assumes "\<And>prev current response fds. returns (convert_loop fuel s cs ok prev current types response fds)"
    and "current = star \<or> current = nxt \<or> direct cs current nxt \<noteq> None"
  shows "returns (convert_loop (Suc fuel) s cs ok prev current (nxt # types) response fds)"
proof (cases "nxt = [] \<or> nxt = star \<or> current = star \<or> current = nxt")
  case True
  then show ?thesis using assms(1) by (auto simp: Let_def)
next
  case False
  then obtain c where c: "step_converter cs current nxt = (Some c, None)"
    using assms(2) by (auto simp: step_converter_def)
  show ?thesis
  proof (cases c)
    case Same
    then show ?thesis using assms(1) False c by (simp add: Let_def)
  next
    case (Fun g)
    then show ?thesis using assms(1) False c by (simp add: Let_def split: sum.split)
  qed
qed

lemma convert_loop_returns:
  assumes "two_types cs"
  shows "2 * length types < fuel \<Longrightarrow> returns (convert_loop fuel s cs ok prev current types response fds)"
proof (induction "length types" arbitrary: types fuel prev current response fds)
  case 0
  then obtain f where "fuel = Suc f" by (cases fuel) auto
  then show ?case using 0 by (simp add: Let_def)
next
  case (Suc n)
  obtain nxt ts where ts: "types = nxt # ts" using Suc(2) by (cases types) auto
  obtain f where f: "fuel = Suc (Suc f)" "2 * length ts < f" "2 * length ts < Suc f" using Suc(3) ts by (cases fuel; cases "fuel - 1") auto
  have IH: "2 * length ts < g \<Longrightarrow> returns (convert_loop g s cs ok p c ts r fl)" for g p c r fl
    using Suc(1) [of ts g p c r fl] Suc(2) ts by simp
  obtain conv ins where st: "step_converter cs current nxt = (conv, ins)" by fastforce
  have ins: "returns (convert_loop (Suc f) s cs ok p t0 (nxt # ts) r fl)" if "ins = Some (t0, t1)" for p t0 t1 r fl
    by (rule convert_pass) (use IH f insertion_is_direct [OF assms] st that in auto)
  have t1: "t1 = nxt" if "ins = Some (t0, t1)" for t0 t1 using insertion_is_direct [OF assms] st that by blast
  have more: "returns (convert_loop (Suc f) s cs ok p c ts r fl)" for p c r fl using IH [OF f(3)] .
  show ?case
  proof (cases "nxt = [] \<or> nxt = star \<or> current = star \<or> current = nxt \<or> ins = None")
    case True
    then show ?thesis unfolding ts f(1) convert_loop.simps(2) [of "Suc f"] Let_def list.case st prod.case
      using more by (auto simp del: convert_loop.simps split: option.split conv.split sum.split)
  next
    case False
    then obtain t0 t1 where i: "ins = Some (t0, t1)" by auto
    then show ?thesis unfolding ts f(1) convert_loop.simps(2) [of "Suc f"] Let_def list.case st prod.case
      using more ins [OF i] t1 [OF i] by (auto simp del: convert_loop.simps split: option.split conv.split sum.split)
  qed
qed

text \<open>
  The inspection of prefilters or transports ends, however they redirect to other data types: a type is inspected
  at most once, so that a depth of one more than the number of registered types is enough.\<close>

theorem inspection_returns:
  assumes "length structure < fuel"
  shows "returns (inspectPrefiltersOrTransports fuel seeking call structure dts w)"
proof -
  have left: "left_keys structure inspected < fuel" for inspected
  proof -
    have "left_keys structure inspected \<le> card (fst ` set structure)" unfolding left_keys_def by (intro card_mono) auto
    also have "\<dots> \<le> length structure" by (metis card_length list.set_map length_map)
    finally show ?thesis using assms by simp
  qed
  let ?first = "case dts of d # _ \<Rightarrow> d | [] \<Rightarrow> J ''undefined''"
  have "returns (inspect fuel seeking call structure ?first [] dts w)" by (rule inspect_returns [OF _ left]) simp
  then obtain r i d w' where 1: "inspect fuel seeking call structure ?first [] dts w = Some (r, i, d, w')"
    by (auto simp: returns_def)
  have "returns (inspect fuel seeking call structure star i d w')" if "star \<notin> set i" by (rule inspect_returns [OF that left])
  then show ?thesis using 1 by (auto simp: inspectPrefiltersOrTransports_def)
qed

end
