(* ===== verification/Jq_Request.thy ===== *)
theory Jq_Request
  imports Jq_Ajax
begin

text \<open>
  The life of a request: \<open>jquery-3.2.1.js\<close>, lines 8928 to 8996 and 9021 to 9296, the methods of the request object, the sending and the function
  \<open>done\<close> that ends it.

  A hook that runs while the request is made (a prefilter, \<open>beforeSend\<close>, a handler of \<open>ajaxSend\<close>) is the list of the operations it performs
  on the request; a transport is what it does when it is told to send and when it is told to abort. Callbacks of a request that has ended can
  no longer change it, so that calling them is an entry of the log. Header names and data types are not names of inherited properties. \<open>lc\<close> is the
  conversion to lower case, \<open>undef\<close> the response data when there are none, and \<open>fuel\<close> bounds the conversions.
\<close>

section \<open>State\<close>

datatype 'd req_event =
    Resolved 'd js_string
  | Rejected js_string "js_string option"
  | StatusCallbacks int
  | Complete js_string
  | Trigger js_string
  | TransportAbort js_string
  | TimerCleared

text \<open>The variables of the function \<open>ajax\<close> and the fields of the request object; \<open>completed\<close> is \<open>None\<close> while undefined. \<open>active\<close> is the
  counter of all requests.\<close>

record 'd ajax_request =
  completed :: "bool option"
  timeoutTimer :: bool
  transport :: bool
  fireGlobals :: bool
  strAbort :: js_string
  settings :: "'d ajax_settings"
  requestHeaders :: "js_string js_obj"
  requestHeadersNames :: "js_string js_obj"
  responseHeadersString :: js_string
  readyState :: nat
  status :: int
  statusText :: js_string
  response_fds :: "'d js_obj"
  lastModified :: "js_string option"
  etag :: "js_string option"
  active :: int
  events :: "'d req_event list"

definition log_event :: "'d req_event \<Rightarrow> 'd ajax_request \<Rightarrow> 'd ajax_request" where
  "log_event ev r = r\<lparr>events := events r @ [ev]\<rparr>"

definition trigger :: "string \<Rightarrow> 'd ajax_request \<Rightarrow> 'd ajax_request" where
  "trigger name r = (if fireGlobals r then log_event (Trigger (J name)) r else r)"

section \<open>Headers\<close>

text \<open>\<open>/^(.*?):[ \t]*([^\r\n]*)$/mg\<close>, line by line. Header text is made of bytes, so that the line terminators beyond them do not occur.\<close>

fun lines_loop :: "js_string \<Rightarrow> js_string \<Rightarrow> js_string list" where
  "lines_loop l [] = [l]"
| "lines_loop l (c # s) = (if c = 10 \<or> c = 13 then l # lines_loop [] s else lines_loop (l @ [c]) s)"

definition header_line :: "js_string \<Rightarrow> (js_string \<times> js_string) option" where
  "header_line l =
     (if 58 \<in> set l
      then Some (takeWhile (\<lambda>c. c \<noteq> 58) l, dropWhile (\<lambda>c. c = 32 \<or> c = 9) (drop 1 (dropWhile (\<lambda>c. c \<noteq> 58) l)))
      else None)"

definition parse_headers :: "(js_string \<Rightarrow> js_string) \<Rightarrow> js_string \<Rightarrow> js_string js_obj" where
  "parse_headers lc s =
     fold (\<lambda>l hs. case header_line l of Some (k, v) \<Rightarrow> obj_put hs (lc k) v | None \<Rightarrow> hs) (lines_loop [] s) []"

definition getResponseHeader :: "(js_string \<Rightarrow> js_string) \<Rightarrow> js_string \<Rightarrow> 'd ajax_request \<Rightarrow> js_string option" where
  "getResponseHeader lc key r =
     (if completed r = Some True then map_of (parse_headers lc (responseHeadersString r)) (lc key) else None)"

definition getAllResponseHeaders :: "'d ajax_request \<Rightarrow> js_string option" where
  "getAllResponseHeaders r = (if completed r = Some True then Some (responseHeadersString r) else None)"

text \<open>The first spelling of a name is kept.\<close>

definition setRequestHeader :: "(js_string \<Rightarrow> js_string) \<Rightarrow> js_string \<Rightarrow> js_string \<Rightarrow> 'd ajax_request \<Rightarrow> 'd ajax_request" where
  "setRequestHeader lc name v r =
     (if completed r = None then
        (let n = (case map_of (requestHeadersNames r) (lc name) of Some n \<Rightarrow> if n \<noteq> [] then n else name | None \<Rightarrow> name)
         in r\<lparr>requestHeadersNames := obj_put (requestHeadersNames r) (lc name) n,
              requestHeaders := obj_put (requestHeaders r) n v\<rparr>)
      else r)"

definition overrideMimeType :: "js_string \<Rightarrow> 'd ajax_request \<Rightarrow> 'd ajax_request" where
  "overrideMimeType t r = (if completed r = None then r\<lparr>settings := (settings r)\<lparr>mimeType := Some t\<rparr>\<rparr> else r)"

section \<open>The end of a request\<close>

text \<open>What is handed to \<open>done\<close>.\<close>

record 'd done_args =
  d_status :: int
  d_text :: js_string
  d_responses :: "'d js_obj option"
  d_headers :: js_string

definition success_status :: "int \<Rightarrow> bool" where
  "success_status n \<longleftrightarrow> (200 \<le> n \<and> n < 300) \<or> n = 304"

text \<open>Remembering the validators of the answer for the next request.\<close>

definition note_modified :: "(js_string \<Rightarrow> js_string) \<Rightarrow> bool \<Rightarrow> 'd ajax_request \<Rightarrow> 'd ajax_request" where
  "note_modified lc ifModified r =
     (if ifModified then
        (let keep = (\<lambda>new old. case new of Some v \<Rightarrow> if v \<noteq> [] then Some v else old | None \<Rightarrow> old)
         in r\<lparr>lastModified := keep (getResponseHeader lc (J ''Last-Modified'') r) (lastModified r),
              etag := keep (getResponseHeader lc (J ''etag'') r) (etag r)\<rparr>)
      else r)"

text \<open>The outcome: the data of a success or the error, and the status text.\<close>

definition done_outcome :: "'d \<Rightarrow> bool \<Rightarrow> int \<Rightarrow> js_string \<Rightarrow> 'd converted \<Rightarrow> (js_string option + 'd) \<times> js_string" where
  "done_outcome undef is_head st text conv =
     (if success_status st then
        (if st = 204 \<or> is_head then (Inr undef, J ''nocontent'')
         else if st = 304 then (Inr undef, J ''notmodified'')
         else (case conv of
                 Success d \<Rightarrow> (Inr d, J ''success'')
               | ParserError e \<Rightarrow> (if e \<noteq> [] then Inl (Some e) else Inr undef, J ''parsererror'')
               | Rethrown e \<Rightarrow> (Inl (Some e), J ''parsererror'')))
      else (Inl (Some text), if st \<noteq> 0 \<or> text = [] then J ''error'' else text))"

definition final_status :: "int \<Rightarrow> int" where
  "final_status st = (if st < 0 then 0 else st)"

text \<open>The callbacks and events at the end, and the counter of requests.\<close>

definition finish_request :: "(js_string option + 'd) \<times> js_string \<Rightarrow> 'd ajax_request \<Rightarrow> 'd ajax_request" where
  "finish_request res r0 =
     (let (v, text) = res;
          r1 = log_event (case v of Inr d \<Rightarrow> Resolved d text | Inl e \<Rightarrow> Rejected text e) r0;
          r2 = log_event (StatusCallbacks (status r1)) r1;
          r3 = trigger (case v of Inr _ \<Rightarrow> ''ajaxSuccess'' | Inl _ \<Rightarrow> ''ajaxError'') r2;
          r4 = log_event (Complete text) r3;
          r5 = trigger ''ajaxComplete'' r4
      in if fireGlobals r5
         then (let r6 = r5\<lparr>active := active r5 - 1\<rparr> in if active r6 = 0 then log_event (Trigger (J ''ajaxStop'')) r6 else r6)
         else r5)"

text \<open>
  \<open>done\<close>. A conversion may throw where the settings say so; then the function ends there. \<open>None\<close> is fuel run out.
\<close>

definition request_done :: "nat \<Rightarrow> (js_string \<Rightarrow> js_string) \<Rightarrow> 'd \<Rightarrow> bool \<Rightarrow> bool \<Rightarrow> 'd done_args \<Rightarrow> 'd ajax_request \<Rightarrow> 'd ajax_request option" where
  "request_done fuel lc undef ifModified is_head a r =
     (if completed r = Some True then Some r
      else
        (let r1 = (if timeoutTimer r then log_event TimerCleared r else r);
             r2 = r1\<lparr>completed := Some True, transport := False, responseHeadersString := d_headers a,
                     readyState := (if d_status a > 0 then 4 else 0)\<rparr>;
             (types, resp) = (case d_responses a of
                Some rs \<Rightarrow> ajaxHandleResponses (settings r2) (getResponseHeader lc (J ''Content-Type'') r2) rs
              | None \<Rightarrow> (dataTypes (settings r2), Absent));
             r3 = r2\<lparr>settings := (settings r2)\<lparr>dataTypes := types\<rparr>\<rparr>
         in case ajaxConvert fuel lc (settings r3) (case resp of Own d \<Rightarrow> d | _ \<Rightarrow> undef) (success_status (d_status a)) (response_fds r3) of
              None \<Rightarrow> None
            | Some (Rethrown e, fs) \<Rightarrow> Some (r3\<lparr>response_fds := fs\<rparr>)
            | Some (conv, fs) \<Rightarrow>
                (let r4 = r3\<lparr>response_fds := fs\<rparr>;
                     r5 = (if success_status (d_status a) then note_modified lc ifModified r4 else r4);
                     res = done_outcome undef is_head (d_status a) (d_text a) conv
                 in Some (finish_request res
                      (r5\<lparr>status := final_status (d_status a),
                          statusText := (if d_text a \<noteq> [] then d_text a else snd res)\<rparr>)))))"

section \<open>Sending\<close>

datatype xhr_op = OpAbort "js_string option" | OpHeader js_string js_string | OpMime js_string

text \<open>What a transport does: the calls of \<open>done\<close> it makes while it sends, whether it then throws, and the calls it makes when it is aborted.\<close>

record 'd transport_script =
  t_send :: "'d done_args list"
  t_throws :: "js_string option"
  t_abort :: "'d done_args list"

text \<open>Everything that is given to a request: the fixed arguments of \<open>done\<close>, the hooks and the transport.\<close>

record 'd ajax_input =
  i_fuel :: nat
  i_lc :: "js_string \<Rightarrow> js_string"
  i_undef :: 'd
  i_ifModified :: bool
  i_head :: bool
  i_global :: bool
  i_prefilters :: "xhr_op list"
  i_headers :: "(js_string \<times> js_string) list"
  i_beforeSend :: "(xhr_op list \<times> bool) option"
  i_ajaxSend :: "xhr_op list"
  i_timeout :: bool
  i_transport :: "'d transport_script option"

fun run_opt :: "('x \<Rightarrow> 's \<Rightarrow> 's option) \<Rightarrow> 'x list \<Rightarrow> 's \<Rightarrow> 's option" where
  "run_opt f [] s = Some s"
| "run_opt f (x # xs) s = (case f x s of Some s' \<Rightarrow> run_opt f xs s' | None \<Rightarrow> None)"

definition done_with :: "'d ajax_input \<Rightarrow> 'd done_args \<Rightarrow> 'd ajax_request \<Rightarrow> 'd ajax_request option" where
  "done_with inp = request_done (i_fuel inp) (i_lc inp) (i_undef inp) (i_ifModified inp) (i_head inp)"

definition abort_args :: "int \<Rightarrow> js_string \<Rightarrow> 'd done_args" where
  "abort_args st text = \<lparr>d_status = st, d_text = text, d_responses = None, d_headers = []\<rparr>"

definition abort :: "'d ajax_input \<Rightarrow> js_string option \<Rightarrow> 'd ajax_request \<Rightarrow> 'd ajax_request option" where
  "abort inp text r =
     (let finalText = (case text of Some t \<Rightarrow> if t \<noteq> [] then t else strAbort r | None \<Rightarrow> strAbort r);
          calls = (case i_transport inp of Some t \<Rightarrow> t_abort t | None \<Rightarrow> [])
      in Option.bind (if transport r then run_opt (done_with inp) calls (log_event (TransportAbort finalText) r) else Some r)
           (done_with inp (abort_args 0 finalText)))"

definition xhr_op :: "'d ajax_input \<Rightarrow> xhr_op \<Rightarrow> 'd ajax_request \<Rightarrow> 'd ajax_request option" where
  "xhr_op inp op r = (case op of
     OpAbort text \<Rightarrow> abort inp text r
   | OpHeader n v \<Rightarrow> Some (setRequestHeader (i_lc inp) n v r)
   | OpMime t \<Rightarrow> Some (overrideMimeType t r))"

definition start_globals :: "'d ajax_input \<Rightarrow> 'd ajax_request \<Rightarrow> 'd ajax_request" where
  "start_globals inp r =
     (if i_global inp then
        (let r1 = r\<lparr>fireGlobals := True, active := active r + 1\<rparr>
         in if active r = 0 then log_event (Trigger (J ''ajaxStart'')) r1 else r1)
      else r\<lparr>fireGlobals := False\<rparr>)"

text \<open>From the transport on: sending, or the end for want of a transport.\<close>

definition dispatch_request :: "'d ajax_input \<Rightarrow> 'd ajax_request \<Rightarrow> 'd ajax_request option" where
  "dispatch_request inp r0 =
     (case i_transport inp of
        None \<Rightarrow> done_with inp (abort_args (-1) (J ''No Transport'')) r0
      | Some t \<Rightarrow>
          Option.bind (run_opt (xhr_op inp) (if fireGlobals r0 then i_ajaxSend inp else [])
              (trigger ''ajaxSend'' (r0\<lparr>transport := True, readyState := 1\<rparr>))) (\<lambda>r1.
          if completed r1 = Some True then Some r1
          else
            Option.bind (run_opt (done_with inp) (t_send t) (r1\<lparr>timeoutTimer := i_timeout inp, completed := Some False\<rparr>)) (\<lambda>r2.
            case t_throws t of
              Some e \<Rightarrow> if completed r2 = Some True then Some r2 else done_with inp (abort_args (-1) e) r2
            | None \<Rightarrow> Some r2)))"

definition ajax :: "'d ajax_input \<Rightarrow> 'd ajax_request \<Rightarrow> 'd ajax_request option" where
  "ajax inp r0 =
     Option.bind (run_opt (xhr_op inp) (i_prefilters inp) r0) (\<lambda>r1.
     if completed r1 = Some True then Some r1
     else
       (let r2 = fold (\<lambda>(n, v). setRequestHeader (i_lc inp) n v) (i_headers inp) (start_globals inp r1) in
        case i_beforeSend inp of
          None \<Rightarrow> dispatch_request inp (r2\<lparr>strAbort := J ''abort''\<rparr>)
        | Some (ops, is_false) \<Rightarrow>
            Option.bind (run_opt (xhr_op inp) ops r2) (\<lambda>r3.
            if is_false \<or> completed r3 = Some True then abort inp None r3
            else dispatch_request inp (r3\<lparr>strAbort := J ''abort''\<rparr>))))"

text \<open>What may happen later, in any order and number.\<close>

datatype 'd late_event = LateDone "'d done_args" | LateAbort "js_string option" | LateTimeout | LateOp xhr_op

definition late :: "'d ajax_input \<Rightarrow> 'd late_event \<Rightarrow> 'd ajax_request \<Rightarrow> 'd ajax_request option" where
  "late inp ev r = (case ev of
     LateDone a \<Rightarrow> done_with inp a r
   | LateAbort text \<Rightarrow> abort inp text r
   | LateTimeout \<Rightarrow> if timeoutTimer r \<and> completed r \<noteq> Some True then abort inp (Some (J ''timeout'')) r else Some r
   | LateOp op \<Rightarrow> xhr_op inp op r)"

section \<open>A request ends once\<close>

definition settling :: "'d req_event \<Rightarrow> bool" where
  "settling ev = (case ev of Resolved _ _ \<Rightarrow> True | Rejected _ _ \<Rightarrow> True | _ \<Rightarrow> False)"

definition completing :: "'d req_event \<Rightarrow> bool" where
  "completing ev = (case ev of Complete _ \<Rightarrow> True | _ \<Rightarrow> False)"

definition how_many :: "('e \<Rightarrow> bool) \<Rightarrow> 'e list \<Rightarrow> nat" where
  "how_many P xs = length (filter P xs)"

definition req_inv :: "'d ajax_input \<Rightarrow> int \<Rightarrow> bool \<Rightarrow> 'd ajax_request \<Rightarrow> bool" where
  "req_inv inp others g r \<longleftrightarrow> fireGlobals r = g \<and>
     \<not> throws (settings r) \<and> two_types (lower_keys (i_lc inp) (converters (settings r))) \<and>
     (if completed r = Some True
      then how_many settling (events r) = 1 \<and> how_many completing (events r) = 1 \<and> active r = others
      else how_many settling (events r) = 0 \<and> how_many completing (events r) = 0 \<and>
        2 * (length (dataTypes (settings r)) + 2) < i_fuel inp \<and> active r = others + (if g then 1 else 0))"

lemma how_many_simps [simp]:
  "how_many P [] = 0" "how_many P (xs @ ys) = how_many P xs + how_many P ys" "how_many P (x # xs) = (if P x then Suc (how_many P xs) else how_many P xs)"
  by (simp_all add: how_many_def)

lemma settling_simps [simp]:
  "settling (Resolved d t)" "settling (Rejected t e)" "\<not> settling (StatusCallbacks n)" "\<not> settling (Complete t)"
  "\<not> settling (Trigger t)" "\<not> settling (TransportAbort t)" "\<not> settling TimerCleared"
  "\<not> completing (Resolved d t)" "\<not> completing (Rejected t e)" "\<not> completing (StatusCallbacks n)" "completing (Complete t)"
  "\<not> completing (Trigger t)" "\<not> completing (TransportAbort t)" "\<not> completing TimerCleared"
  by (simp_all add: settling_def completing_def)

lemma seek_types_length: "length (fst (ajaxHandleResponses s h rs)) \<le> length (dataTypes s) + 2"
proof -
  let ?rest = "dropWhile (\<lambda>t. t = star) (dataTypes s)"
  have "length (known_type s ct ts) \<le> length ts + 1" for ct ts
    by (auto simp: known_type_def split: option.splits)
  moreover have "length ?rest \<le> length (dataTypes s)" by (simp add: length_dropWhile_le)
  ultimately have "length (known_type s ct ?rest) \<le> length (dataTypes s) + 1" for ct
    by (meson add_le_cancel_right order_trans)
  then show ?thesis by (auto simp: ajaxHandleResponses_def Let_def intro: le_SucI)
qed

lemma convert_no_rethrow:
  "\<not> throws s \<Longrightarrow> convert_loop fuel s cs ok prev current types response fds = Some (c, fs) \<Longrightarrow> c \<noteq> Rethrown e"
proof (induction fuel arbitrary: prev current types response fds)
  case (Suc fuel)
  then show ?case
    by (auto simp: Let_def split: list.splits if_splits option.splits conv.splits sum.splits prod.splits)
qed simp

lemma ajaxConvert_ok:
  assumes "\<not> throws s" "two_types (lower_keys lc (converters s))" "2 * length (dataTypes s) < fuel"
  shows "\<exists>c fs. ajaxConvert fuel lc s response ok fds = Some (c, fs) \<and> (\<forall>e. c \<noteq> Rethrown e)"
proof (cases "dataTypes s")
  case (Cons t ts)
  let ?cs = "case dataTypes s of _ # t # _ \<Rightarrow> if t \<noteq> [] then lower_keys lc (converters s) else [] | _ \<Rightarrow> []"
  have "two_types ?cs" using assms(2) by (auto simp: two_types_def split: list.splits)
  then have "returns (convert_loop fuel s ?cs ok None t ts response fds)"
    by (rule convert_loop_returns) (use assms(3) Cons in simp)
  then obtain c fs where "convert_loop fuel s ?cs ok None t ts response fds = Some (c, fs)" by (auto simp: returns_def)
  then show ?thesis using Cons convert_no_rethrow [OF assms(1)] by (auto simp: ajaxConvert_def Let_def)
qed (simp add: ajaxConvert_def)

lemma finish_request_simps [simp]:
  "settings (finish_request res r) = settings r" "completed (finish_request res r) = completed r"
  "how_many settling (events (finish_request res r)) = Suc (how_many settling (events r))"
  "how_many completing (events (finish_request res r)) = Suc (how_many completing (events r))"
  "active (finish_request res r) = active r - (if fireGlobals r then 1 else 0)"
  "fireGlobals (finish_request res r) = fireGlobals r"
  by (auto simp: finish_request_def log_event_def trigger_def Let_def split: prod.splits sum.splits)

lemma done_inv:
  assumes "req_inv inp others g r"
  shows "\<exists>r'. done_with inp a r = Some r' \<and> req_inv inp others g r' \<and> completed r' = Some True"
proof (cases "completed r = Some True")
  case True
  then show ?thesis using assms by (simp add: done_with_def request_done_def)
next
  case False
  let ?r1 = "if timeoutTimer r then log_event TimerCleared r else r"
  let ?r2 = "?r1\<lparr>completed := Some True, transport := False, responseHeadersString := d_headers a,
      readyState := (if d_status a > 0 then 4 else 0)\<rparr>"
  obtain types resp where tr: "(case d_responses a of
        Some rs \<Rightarrow> ajaxHandleResponses (settings ?r2) (getResponseHeader (i_lc inp) (J ''Content-Type'') ?r2) rs
      | None \<Rightarrow> (dataTypes (settings ?r2), Absent)) = (types, resp)" by fastforce
  let ?r3 = "?r2\<lparr>settings := (settings ?r2)\<lparr>dataTypes := types\<rparr>\<rparr>"
  have s: "settings ?r2 = settings r" by (simp add: log_event_def)
  have "length types \<le> length (dataTypes (settings r)) + 2"
    using tr seek_types_length [of "settings r"] s by (auto simp: le_SucI split: option.splits) (metis fst_conv)
  then have len: "2 * length (dataTypes (settings ?r3)) < i_fuel inp" using assms False by (simp add: req_inv_def)
  have ok: "\<not> throws (settings ?r3)" "two_types (lower_keys (i_lc inp) (converters (settings ?r3)))"
    using assms s by (simp_all add: req_inv_def)
  obtain c fs where c: "ajaxConvert (i_fuel inp) (i_lc inp) (settings ?r3) (case resp of Own d \<Rightarrow> d | _ \<Rightarrow> i_undef inp)
      (success_status (d_status a)) (response_fds ?r3) = Some (c, fs)" "\<And>e. c \<noteq> Rethrown e"
    using ajaxConvert_ok [OF ok len] by blast
  let ?r4 = "?r3\<lparr>response_fds := fs\<rparr>"
  let ?r5 = "if success_status (d_status a) then note_modified (i_lc inp) (i_ifModified inp) ?r4 else ?r4"
  let ?res = "done_outcome (i_undef inp) (i_head inp) (d_status a) (d_text a) c"
  let ?r6 = "?r5\<lparr>status := final_status (d_status a), statusText := (if d_text a \<noteq> [] then d_text a else snd ?res)\<rparr>"
  have d: "done_with inp a r = Some (finish_request ?res ?r6)"
    using False c(2) unfolding done_with_def request_done_def Let_def tr prod.case c(1) by (cases c) auto
  have r5: "settings ?r5 = settings ?r3" "completed ?r5 = Some True" "events ?r5 = events ?r1" "active ?r5 = active r"
      "fireGlobals ?r5 = fireGlobals r"
    by (simp_all add: note_modified_def Let_def log_event_def)
  have "how_many settling (events ?r1) = how_many settling (events r)" "how_many completing (events ?r1) = how_many completing (events r)"
    by (simp_all add: log_event_def)
  then have "req_inv inp others g (finish_request ?res ?r6)"
    using assms False r5 ok by (auto simp: req_inv_def)
  then show ?thesis using d r5(2) by auto
qed

lemma run_opt_inv:
  assumes "\<And>x s. P s \<Longrightarrow> \<exists>s'. f x s = Some s' \<and> P s'"
  shows "P s \<Longrightarrow> \<exists>s'. run_opt f xs s = Some s' \<and> P s'"
proof (induction xs arbitrary: s)
  case (Cons x xs)
  obtain s1 where "f x s = Some s1" "P s1" using assms Cons.prems by blast
  then show ?case using Cons.IH by simp
qed simp

lemma dones_inv: "req_inv inp others g r \<Longrightarrow> \<exists>r'. run_opt (done_with inp) as r = Some r' \<and> req_inv inp others g r'"
  by (rule run_opt_inv) (use done_inv in blast)

lemma req_inv_keep:
  assumes "req_inv inp others g r" "settings r' = settings r" "completed r' = Some True \<longleftrightarrow> completed r = Some True" "active r' = active r"
    "fireGlobals r' = fireGlobals r" "how_many settling (events r') = how_many settling (events r)"
    "how_many completing (events r') = how_many completing (events r)"
  shows "req_inv inp others g r'"
  using assms by (auto simp: req_inv_def)

lemma abort_inv:
  assumes "req_inv inp others g r"
  shows "\<exists>r'. abort inp text r = Some r' \<and> req_inv inp others g r' \<and> completed r' = Some True"
proof -
  let ?t = "case text of Some t \<Rightarrow> if t \<noteq> [] then t else strAbort r | None \<Rightarrow> strAbort r"
  have "req_inv inp others g (log_event (TransportAbort ?t) r)"
    by (rule req_inv_keep [OF assms]) (simp_all add: log_event_def)
  then obtain r1 where r1: "(if transport r then run_opt (done_with inp) (case i_transport inp of Some t \<Rightarrow> t_abort t | None \<Rightarrow> [])
      (log_event (TransportAbort ?t) r) else Some r) = Some r1" "req_inv inp others g r1"
    using dones_inv assms by (cases "transport r") (auto, blast)
  obtain r' where "done_with inp (abort_args 0 ?t) r1 = Some r'" "req_inv inp others g r'" "completed r' = Some True"
    using done_inv [OF r1(2)] by blast
  then show ?thesis using r1(1) by (simp add: abort_def Let_def)
qed

lemma setRequestHeader_inv: "req_inv inp others g r \<Longrightarrow> req_inv inp others g (setRequestHeader lc n v r)"
  by (rule req_inv_keep, assumption) (simp_all add: setRequestHeader_def Let_def)

lemma overrideMimeType_inv: "req_inv inp others g r \<Longrightarrow> req_inv inp others g (overrideMimeType t r)"
  by (auto simp: overrideMimeType_def req_inv_def)

lemma xhr_op_inv: "req_inv inp others g r \<Longrightarrow> \<exists>r'. xhr_op inp op r = Some r' \<and> req_inv inp others g r'"
  using abort_inv [of inp others g r]
  by (cases op) (auto simp: xhr_op_def intro: setRequestHeader_inv overrideMimeType_inv)

lemma xhr_ops_inv: "req_inv inp others g r \<Longrightarrow> \<exists>r'. run_opt (xhr_op inp) ops r = Some r' \<and> req_inv inp others g r'"
  by (rule run_opt_inv) (use xhr_op_inv in blast)

lemma headers_inv: "req_inv inp others g r \<Longrightarrow> req_inv inp others g (fold (\<lambda>(n, v). setRequestHeader lc n v) hs r)"
  by (induction hs arbitrary: r) (auto intro: setRequestHeader_inv)

lemma start_globals_inv:
  "req_inv inp others False r \<Longrightarrow> completed r \<noteq> Some True \<Longrightarrow> req_inv inp others (i_global inp) (start_globals inp r)"
  by (auto simp: start_globals_def req_inv_def log_event_def Let_def)

lemma dispatch_request_inv:
  assumes "req_inv inp others g r"
  shows "\<exists>r'. dispatch_request inp r = Some r' \<and> req_inv inp others g r'"
proof (cases "i_transport inp")
  case None
  then show ?thesis using done_inv [OF assms] by (auto simp: dispatch_request_def)
next
  case (Some t)
  let ?r0 = "trigger ''ajaxSend'' (r\<lparr>transport := True, readyState := 1\<rparr>)"
  have "req_inv inp others g ?r0" by (rule req_inv_keep [OF assms]) (simp_all add: trigger_def log_event_def)
  then obtain r1 where r1: "run_opt (xhr_op inp) (if fireGlobals r then i_ajaxSend inp else []) ?r0 = Some r1" "req_inv inp others g r1"
    using xhr_ops_inv by blast
  show ?thesis
  proof (cases "completed r1 = Some True")
    case True
    then show ?thesis using r1 Some by (simp add: dispatch_request_def)
  next
    case False
    let ?r2 = "r1\<lparr>timeoutTimer := i_timeout inp, completed := Some False\<rparr>"
    have "req_inv inp others g ?r2" by (rule req_inv_keep [OF r1(2)]) (use False in simp_all)
    then obtain r3 where r3: "run_opt (done_with inp) (t_send t) ?r2 = Some r3" "req_inv inp others g r3" using dones_inv by blast
    show ?thesis using done_inv [OF r3(2)] r1(1) r3 False Some
      by (cases "t_throws t") (auto simp: dispatch_request_def)
  qed
qed

lemma ajax_inv:
  assumes "req_inv inp others False r"
  shows "\<exists>r' g. ajax inp r = Some r' \<and> req_inv inp others g r'"
proof -
  obtain r1 where r1: "run_opt (xhr_op inp) (i_prefilters inp) r = Some r1" "req_inv inp others False r1"
    using xhr_ops_inv [OF assms] by blast
  show ?thesis
  proof (cases "completed r1 = Some True")
    case True
    then show ?thesis using r1 by (auto simp: ajax_def)
  next
    case False
    let ?r2 = "fold (\<lambda>(n, v). setRequestHeader (i_lc inp) n v) (i_headers inp) (start_globals inp r1)"
    have r2: "req_inv inp others (i_global inp) ?r2" by (rule headers_inv [OF start_globals_inv [OF r1(2) False]])
    have send: "\<exists>r'. dispatch_request inp (q\<lparr>strAbort := t\<rparr>) = Some r' \<and> req_inv inp others (i_global inp) r'"
      if "req_inv inp others (i_global inp) q" for q t
      by (rule dispatch_request_inv, rule req_inv_keep [OF that]) simp_all
    show ?thesis
    proof (cases "i_beforeSend inp")
      case None
      then show ?thesis using r1 False send [OF r2] by (auto simp: ajax_def Let_def)
    next
      case (Some b)
      obtain ops is_false where b: "b = (ops, is_false)" by (cases b)
      obtain r3 where r3: "run_opt (xhr_op inp) ops ?r2 = Some r3" "req_inv inp others (i_global inp) r3"
        using xhr_ops_inv [OF r2] by blast
      show ?thesis using r1 False Some b r3(1) send [OF r3(2)] abort_inv [OF r3(2), of None] by (auto simp: ajax_def Let_def)
    qed
  qed
qed

lemma late_inv: "req_inv inp others g r \<Longrightarrow> \<exists>r'. late inp ev r = Some r' \<and> req_inv inp others g r'"
  using done_inv [of inp others g r] abort_inv [of inp others g r] xhr_op_inv [of inp others g r]
  by (cases ev) (fastforce simp: late_def)+

text \<open>A request before anything has happened to it.\<close>

definition new_request :: "'d ajax_settings \<Rightarrow> int \<Rightarrow> 'd ajax_request" where
  "new_request s n = \<lparr>completed = None, timeoutTimer = False, transport = False, fireGlobals = False, strAbort = J ''canceled'',
     settings = s, requestHeaders = [], requestHeadersNames = [], responseHeadersString = [], readyState = 0, status = 0,
     statusText = [], response_fds = [], lastModified = None, etag = None, active = n, events = []\<rparr>"

section \<open>Properties\<close>


text \<open>A request for text that is answered twice and then aborted.\<close>

definition sample_settings :: "nat ajax_settings" where
  "sample_settings = \<lparr>contents = [], dataTypes = [J ''text'', J ''json''], converters = [(J ''text json'', Fun (\<lambda>d. Inr (Suc d)))],
     responseFields = [(J ''text'', J ''responseText'')], dataFilter = None, mimeType = None, throws = False\<rparr>"

definition sample_answer :: "nat done_args" where
  "sample_answer = \<lparr>d_status = 200, d_text = J ''OK'', d_responses = Some [(J ''text'', 41)], d_headers = []\<rparr>"

definition sample_input :: "nat ajax_input" where
  "sample_input = \<lparr>i_fuel = 9, i_lc = id, i_undef = 0, i_ifModified = False, i_head = False, i_global = True, i_prefilters = [],
     i_headers = [], i_beforeSend = None, i_ajaxSend = [], i_timeout = False,
     i_transport = Some \<lparr>t_send = [], t_throws = None, t_abort = []\<rparr>\<rparr>"


text \<open>Where the settings ask for exceptions to be passed on, a conversion that fails leaves the request without an end: it is complete, but no
  callback is ever called and it is counted for ever.\<close>

definition throwing_settings :: "nat ajax_settings" where
  "throwing_settings = sample_settings\<lparr>converters := [(J ''text json'', Fun (\<lambda>_. Inl (J ''bad'')))], throws := True\<rparr>"

theorem throws_leaves_request_open:
  "case Option.bind (ajax sample_input (new_request throwing_settings 0)) (run_opt (late sample_input) [LateDone sample_answer, LateAbort None]) of
     Some r \<Rightarrow> completed r = Some True \<and> how_many settling (events r) = 0 \<and> how_many completing (events r) = 0 \<and> active r = 1
   | None \<Rightarrow> False"
  by code_simp

end
