(* ===== verification/Jq_Deferred.thy ===== *)
theory Jq_Deferred
  imports Jq_Callbacks
begin

text \<open>
  The deferreds of \<open>jquery-3.2.1.js\<close>, lines 3469 to 3848: \<open>Deferred\<close> with its methods \<open>then\<close>, \<open>pipe\<close>, \<open>always\<close>, \<open>catch\<close>, \<open>done\<close>, \<open>fail\<close>,
  \<open>progress\<close> and the actions, \<open>adoptValue\<close> and \<open>when\<close>.

  The closures of the code are a datatype, and the deferreds are a heap of callback lists on which the operations of \<open>Jq_Callbacks\<close> work. Code
  runs as a machine with a stack: a frame for every loop of a callback list, for every call of a handler, for every sequence of calls
  within a function of the library, and for every function of a client. What a client does is not fixed: while its frame is on top,
  or while nothing runs, any operation is possible, and a function may return or throw anything.

  Thenables that are not objects of this library, the hooks for stack traces and the warnings on the console are not modelled.
\<close>

section \<open>Values and functions\<close>

text \<open>The three actions of a deferred, in the order of its tuples.\<close>

datatype kind = Notify | Resolve | Reject

datatype dstate = Pending | Resolved | Rejected

text \<open>A value: a promise object and a deferred object are known by the number of the deferred.\<close>

datatype dval = Undef | Plain js_string | TypeError | Vals "dval list" | Promise nat | Defer nat

text \<open>The object that a function is called on, and its arguments.\<close>

type_synonym dargs = "dval \<times> dval list"

text \<open>
  The functions: those of clients, and the closures the library makes. \<open>Resolver depth d h special\<close> is \<open>resolve(depth, d, h, special)\<close> where
  \<open>special\<close> is \<open>d.notifyWith\<close> or missing.
\<close>

datatype 'u dfun =
    User 'u
  | Identity
  | Thrower
  | SetState nat dstate
  | Disable nat kind
  | LockProgress nat
  | FireHandlers nat kind
  | Action nat kind
  | Resolver nat nat "'u dfun" bool
  | PipeStep nat kind "'u dfun option"
  | UpdateFunc nat nat

section \<open>The machine\<close>

text \<open>
  Each tuple of a deferred has a list of callbacks and a list of handlers (\<open>True\<close>). \<open>d_maxDepth\<close> is the variable of the call of \<open>then\<close> that made
  the deferred.
\<close>

record 'u deferred =
  d_state :: dstate
  d_lists :: "bool \<times> kind \<Rightarrow> ('u dfun, dargs) cbs"
  d_maxDepth :: nat

type_synonym lref = "nat \<times> bool \<times> kind"

text \<open>The variables of a call of \<open>when\<close>; the result is the number of the deferred whose promise was returned.\<close>

record when_call =
  w_remaining :: int
  w_contexts :: "dval list"
  w_values :: "dval list"
  w_master :: nat
  w_result :: "nat option"

text \<open>What is left to do in a function of the library.\<close>

datatype 'u todo =
    AddTo lref "'u dfun list"
  | Adopt dval "'u dfun" "'u dfun" bool
  | WhenCheck nat nat
  | WhenLoop nat nat

text \<open>
  The frames. \<open>Process\<close> waits for the handler, \<open>InTry\<close> for what follows within the same \<open>try\<close>, \<open>PipeWait\<close> for the function of \<open>pipe\<close>.
  \<open>Todo\<close> has the function to call with an exception, if the sequence is in a \<open>try\<close>.
\<close>

datatype 'u frame =
    Client 'u
  | Fire lref
  | Process nat nat "'u dfun" bool dargs
  | InTry nat nat "'u dfun" bool dargs
  | PipeWait nat kind dval
  | Todo "'u dfun option" "'u todo list"

datatype mode = Running | Returning dval | Throwing dval

text \<open>The log: what was added to a list, and which functions the list has called with what.\<close>

datatype 'u devent = Added lref "'u dfun" | Called lref "'u dfun" dargs

record 'u machine =
  heap :: "'u deferred list"
  whens :: "when_call list"
  timers :: "('u dfun \<times> dargs) list"
  stack :: "'u frame list"
  mode :: mode
  log :: "'u devent list"

definition machine0 :: "'u machine" where
  "machine0 = \<lparr>heap = [], whens = [], timers = [], stack = [], mode = Running, log = []\<rparr>"

definition returning :: "dval \<Rightarrow> 'u machine \<Rightarrow> 'u machine" where
  "returning v m = m\<lparr>mode := Returning v\<rparr>"

definition throwing :: "dval \<Rightarrow> 'u machine \<Rightarrow> 'u machine" where
  "throwing e m = m\<lparr>mode := Throwing e\<rparr>"

definition push :: "'u frame \<Rightarrow> 'u machine \<Rightarrow> 'u machine" where
  "push fr m = m\<lparr>stack := fr # stack m\<rparr>"

definition noted :: "'u devent list \<Rightarrow> 'u machine \<Rightarrow> 'u machine" where
  "noted es m = m\<lparr>log := log m @ es\<rparr>"

definition update_deferred :: "nat \<Rightarrow> ('u deferred \<Rightarrow> 'u deferred) \<Rightarrow> 'u machine \<Rightarrow> 'u machine" where
  "update_deferred d f m = (if d < length (heap m) then m\<lparr>heap := (heap m)[d := f (heap m ! d)]\<rparr> else m)"

definition get_list :: "lref \<Rightarrow> 'u machine \<Rightarrow> ('u dfun, dargs) cbs" where
  "get_list l m = (if fst l < length (heap m) then d_lists (heap m ! fst l) (snd l) else Callbacks)"

definition put_list :: "lref \<Rightarrow> ('u dfun, dargs) cbs \<Rightarrow> 'u machine \<Rightarrow> 'u machine" where
  "put_list l st = update_deferred (fst l) (\<lambda>x. x\<lparr>d_lists := (d_lists x)(snd l := st)\<rparr>)"

definition state_of :: "nat \<Rightarrow> 'u machine \<Rightarrow> dstate" where
  "state_of d m = (if d < length (heap m) then d_state (heap m ! d) else Pending)"

definition max_depth :: "nat \<Rightarrow> 'u machine \<Rightarrow> nat" where
  "max_depth d m = (if d < length (heap m) then d_maxDepth (heap m ! d) else 0)"

section \<open>Lists\<close>

definition list_opts :: "lref \<Rightarrow> cb_options" where
  "list_opts l = createOptions (J (if snd (snd l) = Notify then ''memory'' else ''once memory''))"

text \<open>The start of \<open>fire\<close>, up to the first value of the queue; the loop is the frame.\<close>

definition start_fire :: "lref \<Rightarrow> ('u dfun, dargs) cbs \<Rightarrow> 'u machine \<Rightarrow> 'u machine" where
  "start_fire l st m =
     (let st1 = st\<lparr>locked := locked st \<or> once (list_opts l), fired := True, firing := True,
                   memory := (case queue st of a # _ \<Rightarrow> Some a | [] \<Rightarrow> memory st), queue := tl (queue st)\<rparr>
      in returning Undef (push (Fire l) (put_list l st1 m)))"

definition fire_with :: "lref \<Rightarrow> dargs \<Rightarrow> 'u machine \<Rightarrow> 'u machine" where
  "fire_with l a m =
     (let (st, go) = fireWith a (get_list l m)
      in if fst l < length (heap m) \<and> go then start_fire l st m else returning Undef (put_list l st m))"

definition add_to :: "lref \<Rightarrow> 'u dfun list \<Rightarrow> 'u machine \<Rightarrow> 'u machine" where
  "add_to l fs m =
     (if length (heap m) \<le> fst l then returning Undef m
      else let (st, go) = add (list_opts l) (map ArgFun fs) (get_list l m);
          m1 = noted (if disabled (get_list l m) then [] else map (Added l) fs) m
      in if go then start_fire l st m1 else returning Undef (put_list l st m1))"

section \<open>Construction\<close>

definition final_state :: "kind \<Rightarrow> dstate option" where
  "final_state k = (case k of Notify \<Rightarrow> None | Resolve \<Rightarrow> Some Resolved | Reject \<Rightarrow> Some Rejected)"

definition other_kind :: "kind \<Rightarrow> kind" where
  "other_kind k = (case k of Notify \<Rightarrow> Notify | Resolve \<Rightarrow> Reject | Reject \<Rightarrow> Resolve)"

text \<open>What the constructor itself adds to a list of callbacks.\<close>

definition first_callbacks :: "nat \<Rightarrow> kind \<Rightarrow> 'u dfun list" where
  "first_callbacks d k =
     (case final_state k of
        Some s \<Rightarrow> [SetState d s, Disable d (other_kind k), LockProgress d]
      | None \<Rightarrow> []) @ [FireHandlers d k]"

definition new_list :: "nat \<Rightarrow> bool \<times> kind \<Rightarrow> ('u dfun, dargs) cbs" where
  "new_list d hk =
     (if fst hk then Callbacks
      else fst (add (list_opts (d, hk)) (map ArgFun (first_callbacks d (snd hk))) Callbacks))"

definition new_deferred :: "'u machine \<Rightarrow> 'u machine" where
  "new_deferred m =
     (let d = length (heap m)
      in noted (concat (map (\<lambda>k. map (Added (d, False, k)) (first_callbacks d k)) [Notify, Resolve, Reject]))
           (m\<lparr>heap := heap m @ [\<lparr>d_state = Pending, d_lists = new_list d, d_maxDepth = 0\<rparr>]\<rparr>))"

section \<open>then, pipe, when\<close>

definition or_fun :: "'u dfun option \<Rightarrow> 'u dfun \<Rightarrow> 'u dfun" where
  "or_fun f g = (case f of Some h \<Rightarrow> h | None \<Rightarrow> g)"

definition then_jq :: "nat \<Rightarrow> 'u dfun option \<Rightarrow> 'u dfun option \<Rightarrow> 'u dfun option \<Rightarrow> 'u machine \<Rightarrow> 'u machine" where
  "then_jq d onFulfilled onRejected onProgress m =
     (let n = length (heap m)
      in returning Undef (push (Todo None
           [AddTo (d, True, Notify) [Resolver 0 n (or_fun onProgress Identity) True],
            AddTo (d, True, Resolve) [Resolver 0 n (or_fun onFulfilled Identity) False],
            AddTo (d, True, Reject) [Resolver 0 n (or_fun onRejected Thrower) False]]) (new_deferred m)))"

definition pipe :: "nat \<Rightarrow> 'u dfun option \<Rightarrow> 'u dfun option \<Rightarrow> 'u dfun option \<Rightarrow> 'u machine \<Rightarrow> 'u machine" where
  "pipe d fnDone fnFail fnProgress m =
     (let n = length (heap m)
      in returning Undef (push (Todo None
           [AddTo (d, False, Notify) [PipeStep n Notify fnProgress],
            AddTo (d, False, Resolve) [PipeStep n Resolve fnDone],
            AddTo (d, False, Reject) [PipeStep n Reject fnFail]]) (new_deferred m)))"

text \<open>Writing an element of an array, which grows where needed.\<close>

definition arr_put :: "dval list \<Rightarrow> nat \<Rightarrow> dval \<Rightarrow> dval list" where
  "arr_put xs i v = (if i < length xs then xs[i := v] else xs @ replicate (i - length xs) Undef @ [v])"

definition arr_read :: "dval list \<Rightarrow> nat \<Rightarrow> dval" where
  "arr_read xs i = (if i < length xs then xs ! i else Undef)"

definition thenable :: "dval \<Rightarrow> nat option" where
  "thenable v = (case v of Promise d \<Rightarrow> Some d | Defer d \<Rightarrow> Some d | _ \<Rightarrow> None)"

definition when_start :: "dval list \<Rightarrow> 'u machine \<Rightarrow> 'u machine" where
  "when_start vs m =
     (let n = length vs; w = length (whens m); master = length (heap m);
          m1 = (new_deferred m)\<lparr>whens := whens m @ [\<lparr>w_remaining = int n, w_contexts = replicate n Undef, w_values = vs,
                 w_master = master, w_result = None\<rparr>]\<rparr>
      in returning Undef (push (Todo None
           (if n \<le> 1
            then [AddTo (master, False, Resolve) [UpdateFunc w n],
                  Adopt (arr_read vs 0) (Action master Resolve) (Action master Reject) (n = 0), WhenCheck w n]
            else [WhenLoop w n])) m1))"

section \<open>Calls\<close>

text \<open>The variables of a call of \<open>when\<close> after one of its update functions was called.\<close>

definition when_put :: "nat \<Rightarrow> nat \<Rightarrow> dargs \<Rightarrow> 'u machine \<Rightarrow> 'u machine" where
  "when_put w i a m =
     (let x = whens m ! w
      in m\<lparr>whens := (whens m)[w := x\<lparr>w_contexts := arr_put (w_contexts x) i (fst a),
           w_values := arr_put (w_values x) i (if length (snd a) > 1 then Vals (snd a) else arr_read (snd a) 0),
           w_remaining := w_remaining x - 1\<rparr>]\<rparr>)"

definition update_func :: "nat \<Rightarrow> nat \<Rightarrow> dargs \<Rightarrow> 'u machine \<Rightarrow> 'u machine" where
  "update_func w i a m =
     (let m1 = when_put w i a m; x = whens m1 ! w
      in if w_remaining x = 0 then fire_with (w_master x, False, Resolve) (Vals (w_contexts x), w_values x) m1
         else returning Undef m1)"

text \<open>
  \<open>call_fun\<close> calls a function: what it does at once, and the frames that wait. The first clause of \<open>Resolver\<close> is a handler
  that is due later, the second an immediate \<open>process\<close>.
\<close>

fun call_fun :: "'u dfun \<Rightarrow> dargs \<Rightarrow> 'u machine \<Rightarrow> 'u machine" where
  "call_fun (User u) a m = (push (Client u) m)\<lparr>mode := Running\<rparr>"
| "call_fun Identity a m = returning (arr_read (snd a) 0) m"
| "call_fun Thrower a m = throwing (arr_read (snd a) 0) m"
| "call_fun (SetState d s) a m = returning Undef (update_deferred d (\<lambda>x. x\<lparr>d_state := s\<rparr>) m)"
| "call_fun (Disable d k) a m = returning Undef (put_list (d, False, k) (disable (get_list (d, False, k) m)) m)"
| "call_fun (LockProgress d) a m = returning Undef (put_list (d, False, Notify) (lock (get_list (d, False, Notify) m)) m)"
| "call_fun (FireHandlers d k) a m = fire_with (d, True, k) a m"
| "call_fun (Action d k) a m = fire_with (d, False, k) (if fst a = Defer d then Undef else fst a, snd a) m"
| "call_fun (Resolver depth d h special) a m =
     (if depth = 0 then returning Undef (m\<lparr>timers := timers m @ [(Resolver depth d h special, a)]\<rparr>)
      else if depth < max_depth d m then returning Undef m
      else call_fun h a (push (Process depth d h special a) m))"
| "call_fun (PipeStep n k fn) a m =
     (case fn of
        None \<Rightarrow> fire_with (n, False, k) a m
      | Some f \<Rightarrow> call_fun f a (push (PipeWait n k (fst a)) m))"
| "call_fun (UpdateFunc w i) a m = (if w < length (whens m) then update_func w i a m else returning Undef m)"

text \<open>\<open>process\<close>, called from the timer.\<close>

definition run_timer :: "'u dfun \<times> dargs \<Rightarrow> 'u machine \<Rightarrow> 'u machine" where
  "run_timer t m = (case fst t of
     Resolver depth d h special \<Rightarrow>
       if depth < max_depth d m then returning Undef m
       else call_fun h (snd t) (push (Process depth d h special (snd t)) m)
   | _ \<Rightarrow> returning Undef m)"

section \<open>Steps\<close>

text \<open>One turn of the loops of \<open>fire\<close>; the frame has been taken from the stack.\<close>

definition fire_step :: "lref \<Rightarrow> 'u machine \<Rightarrow> 'u machine" where
  "fire_step l m =
     (let st = get_list l m; i = firingIndex st + 1
      in if i < int (length (list_of st)) then
           (let f = list_of st ! nat i; a = (case memory st of Some a \<Rightarrow> a | None \<Rightarrow> (Undef, []))
            in call_fun f a (push (Fire l) (noted [Called l f a] (put_list l (st\<lparr>firingIndex := i\<rparr>) m))))
         else (case queue st of
             [] \<Rightarrow> returning Undef (put_list l (finish (list_opts l) (st\<lparr>firingIndex := -1\<rparr>)) m)
           | a # q \<Rightarrow> returning Undef (push (Fire l) (put_list l (st\<lparr>firingIndex := -1, memory := Some a, queue := q\<rparr>) m))))"

text \<open>The rest of \<open>mightThrow\<close> after the handler has returned \<open>v\<close>.\<close>

definition after_handler :: "nat \<Rightarrow> nat \<Rightarrow> 'u dfun \<Rightarrow> bool \<Rightarrow> dargs \<Rightarrow> dval \<Rightarrow> 'u machine \<Rightarrow> 'u machine" where
  "after_handler depth d h special a v m0 =
     (let m = push (InTry depth d h special a) m0 in
      if v = Promise d then throwing TypeError m
      else case thenable v of
        Some e \<Rightarrow>
          if special then
            then_jq e (Some (Resolver (max_depth d m) d Identity True)) (Some (Resolver (max_depth d m) d Thrower True)) None m
          else
            (let m1 = update_deferred d (\<lambda>x. x\<lparr>d_maxDepth := d_maxDepth x + 1\<rparr>) m; n = max_depth d m1
             in then_jq e (Some (Resolver n d Identity False)) (Some (Resolver n d Thrower False)) (Some (Resolver n d Identity True)) m1)
      | None \<Rightarrow>
          fire_with (d, False, if special then Notify else Resolve) (if h \<noteq> Identity then (Undef, [v]) else a) m)"

text \<open>The \<open>catch\<close> of \<open>process\<close>; a special processor has none.\<close>

definition catch_process :: "nat \<Rightarrow> nat \<Rightarrow> 'u dfun \<Rightarrow> bool \<Rightarrow> dargs \<Rightarrow> dval \<Rightarrow> 'u machine \<Rightarrow> 'u machine" where
  "catch_process depth d h special a e m =
     (if special then throwing e m
      else if depth + 1 \<ge> max_depth d m then fire_with (d, False, Reject) (if h \<noteq> Thrower then (Undef, [e]) else a) m
      else returning Undef m)"

text \<open>The function of \<open>pipe\<close> after the function it calls has returned \<open>v\<close>.\<close>

definition pipe_result :: "nat \<Rightarrow> kind \<Rightarrow> dval \<Rightarrow> dval \<Rightarrow> 'u machine \<Rightarrow> 'u machine" where
  "pipe_result n k ctx v m =
     (case thenable v of
        Some e \<Rightarrow> returning Undef (push (Todo None
          [AddTo (e, False, Notify) [Action n Notify], AddTo (e, False, Resolve) [Action n Resolve],
           AddTo (e, False, Reject) [Action n Reject]]) m)
      | None \<Rightarrow> fire_with (n, False, k) (ctx, [v]) m)"

definition adoptValue :: "dval \<Rightarrow> 'u dfun \<Rightarrow> 'u dfun \<Rightarrow> bool \<Rightarrow> 'u machine \<Rightarrow> 'u machine" where
  "adoptValue v resolve reject noValue m =
     (case thenable v of
        Some e \<Rightarrow> returning Undef (push (Todo (Some reject) [AddTo (e, False, Resolve) [resolve], AddTo (e, False, Reject) [reject]]) m)
      | None \<Rightarrow> call_fun resolve (Undef, if noValue then [] else [v]) (push (Todo (Some reject) []) m))"

text \<open>The end of a call of \<open>when\<close> with at most one argument, and its loop.\<close>

definition set_result :: "nat \<Rightarrow> nat \<Rightarrow> 'u machine \<Rightarrow> 'u machine" where
  "set_result w d m = m\<lparr>whens := (whens m)[w := (whens m ! w)\<lparr>w_result := Some d\<rparr>]\<rparr>"

definition when_check :: "nat \<Rightarrow> nat \<Rightarrow> 'u machine \<Rightarrow> 'u machine" where
  "when_check w i m =
     (let x = whens m ! w
      in if state_of (w_master x) m = Pending \<or> thenable (arr_read (w_values x) i) \<noteq> None
         then then_jq (w_master x) None None None (set_result w (length (heap m)) m)
         else returning Undef (push (Todo None [WhenLoop w i]) m))"

definition when_loop :: "nat \<Rightarrow> nat \<Rightarrow> 'u machine \<Rightarrow> 'u machine" where
  "when_loop w i m =
     (let x = whens m ! w
      in case i of
           0 \<Rightarrow> returning Undef (set_result w (w_master x) m)
         | Suc j \<Rightarrow> adoptValue (arr_read (w_values x) j) (UpdateFunc w j) (Action (w_master x) Reject) False
                      (push (Todo None [WhenLoop w j]) m))"

fun do_todo :: "'u todo \<Rightarrow> 'u machine \<Rightarrow> 'u machine" where
  "do_todo (AddTo l fs) m = add_to l fs m"
| "do_todo (Adopt v res rej noValue) m = adoptValue v res rej noValue m"
| "do_todo (WhenCheck w i) m = (if w < length (whens m) then when_check w i m else returning Undef m)"
| "do_todo (WhenLoop w i) m = (if w < length (whens m) then when_loop w i m else returning Undef m)"

text \<open>A frame gets control back, with a value or with an exception. Client code goes on in both cases and may throw again.\<close>

fun resume :: "'u frame \<Rightarrow> dval \<Rightarrow> 'u machine \<Rightarrow> 'u machine" where
  "resume (Client u) v m = (push (Client u) m)\<lparr>mode := Running\<rparr>"
| "resume (Fire l) v m = fire_step l m"
| "resume (Process depth d h special a) v m = after_handler depth d h special a v m"
| "resume (InTry depth d h special a) v m = returning Undef m"
| "resume (PipeWait n k ctx) v m = pipe_result n k ctx v m"
| "resume (Todo c []) v m = returning Undef m"
| "resume (Todo c (i # is)) v m = do_todo i (push (Todo c is) m)"

fun unwind :: "'u frame \<Rightarrow> dval \<Rightarrow> 'u machine \<Rightarrow> 'u machine" where
  "unwind (Client u) e m = (push (Client u) m)\<lparr>mode := Running\<rparr>"
| "unwind (Fire l) e m = throwing e m"
| "unwind (Process depth d h special a) e m = catch_process depth d h special a e m"
| "unwind (InTry depth d h special a) e m = catch_process depth d h special a e m"
| "unwind (PipeWait n k ctx) e m = throwing e m"
| "unwind (Todo None is) e m = throwing e m"
| "unwind (Todo (Some rej) is) e m = call_fun rej (Undef, [e]) m"

section \<open>Clients\<close>

text \<open>A function that a client has: its own, or an action of a deferred.\<close>

datatype 'u cfun = Own_fun 'u | Action_fun nat kind

fun client_fun :: "'u cfun \<Rightarrow> 'u dfun" where
  "client_fun (Own_fun u) = User u"
| "client_fun (Action_fun d k) = Action d k"

datatype 'u move =
    MNew "'u cfun option"
  | MCall "'u cfun" dargs
  | MFireWith nat kind dargs
  | MAdd nat kind "'u cfun list"
  | MAlways nat "'u cfun list"
  | MThen nat "'u cfun option" "'u cfun option" "'u cfun option"
  | MCatch nat "'u cfun option"
  | MPipe nat "'u cfun option" "'u cfun option" "'u cfun option"
  | MWhen "dval list"
  | MReturn dval
  | MThrow dval
  | MTimer
  | MAuto

text \<open>\<open>always\<close> adds all its functions to both lists.\<close>

definition always :: "nat \<Rightarrow> 'u dfun list \<Rightarrow> 'u machine \<Rightarrow> 'u machine" where
  "always d fs m = returning Undef (push (Todo None [AddTo (d, False, Resolve) fs, AddTo (d, False, Reject) fs]) m)"

definition Deferred :: "'u dfun option \<Rightarrow> 'u machine \<Rightarrow> 'u machine" where
  "Deferred func m =
     (let d = length (heap m); m1 = new_deferred m
      in case func of Some f \<Rightarrow> call_fun f (Defer d, [Defer d]) m1 | None \<Rightarrow> returning Undef m1)"

text \<open>An operation of a client on the deferred \<open>d\<close>, which exists.\<close>

fun operation :: "'u move \<Rightarrow> 'u machine \<Rightarrow> 'u machine option" where
  "operation (MNew func) m = Some (Deferred (map_option client_fun func) m)"
| "operation (MCall f a) m = Some (call_fun (client_fun f) a m)"
| "operation (MFireWith d k a) m = Some (fire_with (d, False, k) a m)"
| "operation (MAdd d k fs) m = Some (add_to (d, False, k) (map client_fun fs) m)"
| "operation (MAlways d fs) m = Some (always d (map client_fun fs) m)"
| "operation (MThen d f g p) m = Some (then_jq d (map_option client_fun f) (map_option client_fun g) (map_option client_fun p) m)"
| "operation (MCatch d f) m = Some (then_jq d None (map_option client_fun f) None m)"
| "operation (MPipe d f g p) m = Some (pipe d (map_option client_fun f) (map_option client_fun g) (map_option client_fun p) m)"
| "operation (MWhen vs) m = Some (when_start vs m)"
| "operation _ m = None"

text \<open>The deferreds that a value or a move names exist.\<close>

fun val_refs :: "dval \<Rightarrow> nat list" where
  "val_refs (Promise d) = [d]"
| "val_refs (Defer d) = [d]"
| "val_refs (Vals vs) = concat (map val_refs vs)"
| "val_refs _ = []"

fun cfun_refs :: "'u cfun \<Rightarrow> nat list" where
  "cfun_refs (Own_fun u) = []"
| "cfun_refs (Action_fun d k) = [d]"

definition opt_refs :: "'u cfun option \<Rightarrow> nat list" where
  "opt_refs f = (case f of Some g \<Rightarrow> cfun_refs g | None \<Rightarrow> [])"

fun move_refs :: "'u move \<Rightarrow> nat list" where
  "move_refs (MNew func) = opt_refs func"
| "move_refs (MCall f a) = cfun_refs f @ val_refs (Vals (fst a # snd a))"
| "move_refs (MFireWith d k a) = d # val_refs (Vals (fst a # snd a))"
| "move_refs (MAdd d k fs) = d # concat (map cfun_refs fs)"
| "move_refs (MAlways d fs) = d # concat (map cfun_refs fs)"
| "move_refs (MThen d f g p) = d # opt_refs f @ opt_refs g @ opt_refs p"
| "move_refs (MCatch d f) = d # opt_refs f"
| "move_refs (MPipe d f g p) = d # opt_refs f @ opt_refs g @ opt_refs p"
| "move_refs (MWhen vs) = val_refs (Vals vs)"
| "move_refs (MReturn v) = val_refs v"
| "move_refs (MThrow v) = val_refs v"
| "move_refs _ = []"

text \<open>
  A move. Client code moves while it runs, or while nothing runs; a timer fires when nothing runs, the first that was set first.
  Every other step is determined by the frame on top.
\<close>

definition step :: "'u move \<Rightarrow> 'u machine \<Rightarrow> 'u machine option" where
  "step mv m =
     (if \<not> list_all (\<lambda>d. d < length (heap m)) (move_refs mv) then None else
      case mode m of
        Running \<Rightarrow>
          (case (mv, stack m) of
             (MReturn v, Client u # fs) \<Rightarrow> Some (returning v (m\<lparr>stack := fs\<rparr>))
           | (MThrow e, Client u # fs) \<Rightarrow> Some (throwing e (m\<lparr>stack := fs\<rparr>))
           | (MTimer, []) \<Rightarrow> (case timers m of t # ts \<Rightarrow> Some (run_timer t (m\<lparr>timers := ts\<rparr>)) | [] \<Rightarrow> None)
           | _ \<Rightarrow> operation mv m)
      | Returning v \<Rightarrow>
          if mv = MAuto then Some (case stack m of [] \<Rightarrow> m\<lparr>mode := Running\<rparr> | fr # fs \<Rightarrow> resume fr v (m\<lparr>stack := fs\<rparr>)) else None
      | Throwing e \<Rightarrow>
          if mv = MAuto then Some (case stack m of [] \<Rightarrow> m\<lparr>mode := Running\<rparr> | fr # fs \<Rightarrow> unwind fr e (m\<lparr>stack := fs\<rparr>)) else None)"

fun steps :: "'u move list \<Rightarrow> 'u machine \<Rightarrow> 'u machine option" where
  "steps [] m = Some m"
| "steps (mv # mvs) m = (case step mv m of Some m' \<Rightarrow> steps mvs m' | None \<Rightarrow> None)"

end
