(* ===== verification/Jq_Settle.thy ===== *)
theory Jq_Settle
  imports Jq_Deferred Jq_Firing
begin

text \<open>
  What deferreds guarantee whatever their clients do: a deferred is settled at most once, its callbacks are called in the order they were added, each
  once and all with the one value, and none of the other kind is ever called.
\<close>

section \<open>The view of one deferred\<close>

declare split_paired_All [simp del] split_paired_Ex [simp del]

definition ev_ref :: "'u devent \<Rightarrow> lref" where
  "ev_ref e = (case e of Added l f \<Rightarrow> l | Called l f a \<Rightarrow> l)"

definition added :: "lref \<Rightarrow> 'u devent list \<Rightarrow> 'u dfun list" where
  "added l es = concat (map (\<lambda>e. case e of Added l' f \<Rightarrow> if l' = l then [f] else [] | Called _ _ _ \<Rightarrow> []) es)"

definition called :: "lref \<Rightarrow> 'u devent list \<Rightarrow> ('u dfun \<times> dargs) list" where
  "called l es = concat (map (\<lambda>e. case e of Called l' f a \<Rightarrow> if l' = l then [(f, a)] else [] | Added _ _ \<Rightarrow> []) es)"

lemma added_simps [simp]:
  "added l [] = []" "added l (es @ es') = added l es @ added l es'" "added l (map (Added l') fs) = (if l' = l then fs else [])"
  "added l (Called l' f a # es) = added l es" "added l (Added l' f # es) = (if l' = l then f # added l es else added l es)"
  by (auto simp: added_def o_def)

lemma called_simps [simp]:
  "called l [] = []" "called l (es @ es') = called l es @ called l es'" "called l (map (Added l') fs) = []"
  "called l (Called l' f a # es) = (if l' = l then (f, a) # called l es else called l es)" "called l (Added l' f # es) = called l es"
  by (auto simp: called_def o_def)

text \<open>The functions that are not among the first callbacks of a deferred, and that call an own function of a client only from a timer.\<close>

fun safe :: "'u dfun \<Rightarrow> bool" where
  "safe (SetState d s) = False"
| "safe (Disable d k) = False"
| "safe (LockProgress d) = False"
| "safe (FireHandlers d k) = False"
| "safe (Resolver depth d h special) = (safe h \<and> (0 < depth \<longrightarrow> h = Identity \<or> h = Thrower))"
| "safe (PipeStep n k fn) = (case fn of Some f \<Rightarrow> safe f | None \<Rightarrow> True)"
| "safe _ = True"

text \<open>A list that was never fired, one that is fired with \<open>a\<close>, and one that is disabled for good.\<close>

definition fresh_list :: "('u dfun, dargs) cbs \<Rightarrow> 'u dfun list \<Rightarrow> ('u dfun \<times> dargs) list \<Rightarrow> bool" where
  "fresh_list st A C \<longleftrightarrow> st = Callbacks\<lparr>clist := Some A\<rparr> \<and> C = []"

definition active_list :: "('u dfun, dargs) cbs \<Rightarrow> 'u dfun list \<Rightarrow> ('u dfun \<times> dargs) list \<Rightarrow> dargs \<Rightarrow> bool" where
  "active_list st A C a \<longleftrightarrow> locked st \<and> queue st = [] \<and> memory st = Some a \<and> clist st \<noteq> None \<and>
     -1 \<le> firingIndex st \<and> (firingIndex st < int (length (list_of st))) \<and> (\<not> firing st \<longrightarrow> list_of st = []) \<and>
     map (\<lambda>f. (f, a)) A = C @ map (\<lambda>f. (f, a)) (drop (nat (firingIndex st + 1)) (list_of st))"

definition dead_list :: "('u dfun, dargs) cbs \<Rightarrow> ('u dfun \<times> dargs) list \<Rightarrow> bool" where
  "dead_list st C \<longleftrightarrow> locked st \<and> \<not> firing st \<and> queue st = [] \<and> memory st = None \<and> clist st = None \<and> C = []"

abbreviation lst_fresh :: "nat \<Rightarrow> 'u deferred \<Rightarrow> 'u devent list \<Rightarrow> bool \<Rightarrow> kind \<Rightarrow> bool" where
  "lst_fresh d x es h k \<equiv> fresh_list (d_lists x (h, k)) (added (d, h, k) es) (called (d, h, k) es)"

abbreviation lst_active :: "nat \<Rightarrow> 'u deferred \<Rightarrow> 'u devent list \<Rightarrow> bool \<Rightarrow> kind \<Rightarrow> dargs \<Rightarrow> bool" where
  "lst_active d x es h k a \<equiv> active_list (d_lists x (h, k)) (added (d, h, k) es) (called (d, h, k) es) a"

text \<open>A deferred that is settled with \<open>a\<close> by the action \<open>k\<close>.\<close>

definition won :: "nat \<Rightarrow> 'u deferred \<Rightarrow> 'u devent list \<Rightarrow> kind \<Rightarrow> dargs \<Rightarrow> bool" where
  "won d x es k a \<longleftrightarrow> lst_active d x es False k a \<and> 2 \<le> length (called (d, False, k) es) \<and>
     dead_list (d_lists x (False, other_kind k)) (called (d, False, other_kind k) es) \<and> lst_fresh d x es True (other_kind k) \<and>
     (if length (called (d, False, k) es) < 4 then lst_fresh d x es True k else lst_active d x es True k a)"

definition decided :: "nat \<Rightarrow> 'u deferred \<Rightarrow> 'u devent list \<Rightarrow> bool" where
  "decided d x es = (case d_state x of
     Pending \<Rightarrow> \<forall>h. lst_fresh d x es h Resolve \<and> lst_fresh d x es h Reject
   | Resolved \<Rightarrow> \<exists>a. won d x es Resolve a
   | Rejected \<Rightarrow> \<exists>a. won d x es Reject a)"

text \<open>A deferred whose list has started to fire but has not disabled the other one.\<close>

definition midway :: "nat \<Rightarrow> 'u deferred \<Rightarrow> 'u devent list \<Rightarrow> kind \<Rightarrow> bool" where
  "midway d x es k \<longleftrightarrow> k \<noteq> Notify \<and> (\<exists>a. lst_active d x es False k a) \<and> firing (d_lists x (False, k)) \<and>
     lst_fresh d x es False (other_kind k) \<and> (\<forall>k \<in> {Resolve, Reject}. lst_fresh d x es True k) \<and>
     (d_state x = Pending \<and> called (d, False, k) es = [] \<or> Some (d_state x) = final_state k \<and> length (called (d, False, k) es) = 1)"

text \<open>The functions in the lists of a deferred.\<close>

definition wf_lists :: "nat \<Rightarrow> 'u deferred \<Rightarrow> 'u devent list \<Rightarrow> bool" where
  "wf_lists d x es \<longleftrightarrow>
     (\<forall>k \<in> {Resolve, Reject}. (\<exists>fs. added (d, False, k) es = first_callbacks d k @ fs \<and> list_all safe fs) \<and> list_all safe (added (d, True, k) es)) \<and>
     list_all (\<lambda>f. safe f \<or> f = FireHandlers d Notify) (list_of (d_lists x (False, Notify))) \<and>
     list_all safe (list_of (d_lists x (True, Notify))) \<and> (\<forall>h. -1 \<le> firingIndex (d_lists x (h, Notify)))"

section \<open>The invariant\<close>

fun todo_safe :: "'u todo \<Rightarrow> bool" where
  "todo_safe (AddTo l fs) = list_all safe fs"
| "todo_safe (Adopt v f g b) = (safe f \<and> safe g)"
| "todo_safe _ = True"

fun frame_safe :: "'u frame \<Rightarrow> bool" where
  "frame_safe (Process depth d h special a) = safe h"
| "frame_safe (Todo c is) = ((case c of Some f \<Rightarrow> safe f | None \<Rightarrow> True) \<and> list_all todo_safe is)"
| "frame_safe _ = True"

definition fire_refs :: "'u frame list \<Rightarrow> lref list" where
  "fire_refs fs = concat (map (\<lambda>fr. case fr of Fire l \<Rightarrow> [l] | _ \<Rightarrow> []) fs)"

definition frames_ok :: "'u machine \<Rightarrow> bool" where
  "frames_ok m \<longleftrightarrow> list_all frame_safe (stack m) \<and> distinct (fire_refs (stack m)) \<and>
     (\<forall>l \<in> set (fire_refs (stack m)). fst l < length (heap m) \<and> firing (get_list l m)) \<and> (\<forall>t \<in> set (timers m). safe (fst t)) \<and>
     (\<forall>e \<in> set (log m). fst (ev_ref e) < length (heap m))"

definition deferred_ok :: "nat \<Rightarrow> 'u machine \<Rightarrow> bool" where
  "deferred_ok d m \<longleftrightarrow> wf_lists d (heap m ! d) (log m) \<and> decided d (heap m ! d) (log m)"

text \<open>Every deferred is settled or pending; or all but one, whose list is just firing.\<close>

definition calm :: "'u machine \<Rightarrow> bool" where
  "calm m \<longleftrightarrow> frames_ok m \<and> (\<forall>d < length (heap m). deferred_ok d m)"

definition stormy :: "nat \<Rightarrow> kind \<Rightarrow> 'u machine \<Rightarrow> bool" where
  "stormy d k m \<longleftrightarrow> frames_ok m \<and> (\<forall>d' < length (heap m). d' \<noteq> d \<longrightarrow> deferred_ok d' m) \<and>
     d < length (heap m) \<and> wf_lists d (heap m ! d) (log m) \<and> midway d (heap m ! d) (log m) k"

definition machine_ok :: "'u machine \<Rightarrow> bool" where
  "machine_ok m \<longleftrightarrow> calm m \<or> (\<exists>d k v fs. stormy d k m \<and> stack m = Fire (d, False, k) # fs \<and> mode m = Returning v)"

section \<open>Lists\<close>

lemma list_opts_code [code]: "list_opts l = \<lparr>once = (snd (snd l) \<noteq> Notify), opt_memory = True, unique = False, stopOnFalse = False\<rparr>"
proof -
  have "createOptions (J ''memory'') = \<lparr>once = False, opt_memory = True, unique = False, stopOnFalse = False\<rparr>"
    and "createOptions (J ''once memory'') = \<lparr>once = True, opt_memory = True, unique = False, stopOnFalse = False\<rparr>" by code_simp+
  then show ?thesis by (simp add: list_opts_def)
qed

lemma list_opts_simps [simp]:
  "opt_memory (list_opts l)" "\<not> unique (list_opts l)" "\<not> stopOnFalse (list_opts l)" "once (list_opts l) \<longleftrightarrow> snd (snd l) \<noteq> Notify"
  by (simp_all add: list_opts_code)

lemma add_args_funs [simp]: "add_args False (map ArgFun fs) xs = xs @ fs"
  by (induction fs arbitrary: xs) auto

lemma Callbacks_simps [simp]:
  "firing Callbacks = False" "memory Callbacks = None" "fired Callbacks = False" "locked Callbacks = False" "clist Callbacks = Some []"
  "queue Callbacks = []" "firingIndex Callbacks = -1"
  by (simp_all add: Callbacks_def)

lemma add_funs:
  "add (list_opts l) (map ArgFun fs) st =
     (case clist st of
        None \<Rightarrow> (st, False)
      | Some xs \<Rightarrow>
          (case memory st of
             Some a \<Rightarrow> if firing st then (st\<lparr>clist := Some (xs @ fs)\<rparr>, False)
                       else (st\<lparr>clist := Some (xs @ fs), firingIndex := int (length xs) - 1, queue := queue st @ [a]\<rparr>, True)
           | None \<Rightarrow> (st\<lparr>clist := Some (xs @ fs)\<rparr>, False)))"
  by (auto simp: add_def split: option.splits)

lemma fresh_fires: "fresh_list st A C \<Longrightarrow> fireWith a st = (st\<lparr>queue := [a]\<rparr>, True)"
  by (simp add: fresh_list_def fireWith_def)

lemma locked_fires: "locked st \<Longrightarrow> fireWith a st = (st, False)"
  by (simp add: fireWith_def)

text \<open>The list with which \<open>start_fire\<close> begins.\<close>

definition started :: "lref \<Rightarrow> ('u dfun, dargs) cbs \<Rightarrow> ('u dfun, dargs) cbs" where
  "started l st = st\<lparr>locked := locked st \<or> once (list_opts l), fired := True, firing := True,
     memory := (case queue st of a # _ \<Rightarrow> Some a | [] \<Rightarrow> memory st), queue := tl (queue st)\<rparr>"

lemma started_simps [simp]: "firing (started l st)" "firingIndex (started l st) = firingIndex st" "clist (started l st) = clist st" "list_of (started l st) = list_of st"
  by (simp_all add: started_def list_of_def)

lemma start_fire_started: "start_fire l st m = returning Undef (push (Fire l) (put_list l (started l st) m))"
  by (simp add: start_fire_def started_def)

lemma fresh_started:
  "fresh_list st A C \<Longrightarrow> snd (snd l) \<noteq> Notify \<Longrightarrow> active_list (started l (st\<lparr>queue := [a]\<rparr>)) A C a"
  by (simp add: fresh_list_def active_list_def started_def list_of_def)

lemma fresh_add: "fresh_list st A C \<Longrightarrow> add (list_opts l) (map ArgFun fs) st = (st\<lparr>clist := Some (A @ fs)\<rparr>, False) \<and> fresh_list (st\<lparr>clist := Some (A @ fs)\<rparr>) (A @ fs) C"
  by (simp add: fresh_list_def add_funs)

lemma active_add:
  assumes "active_list st A C a" and "snd (snd l) \<noteq> Notify"
  shows "\<exists>st' go. add (list_opts l) (map ArgFun fs) st = (st', go) \<and> (go \<longleftrightarrow> \<not> firing st) \<and> (firing st \<longrightarrow> firing st') \<and>
    active_list (if go then started l st' else st') (A @ fs) C a"
proof -
  obtain xs where xs: "clist st = Some xs" using assms by (auto simp: active_list_def)
  show ?thesis
    using assms xs by (cases "firing st") (auto simp: add_funs active_list_def started_def list_of_def nat_le_iff)
qed

lemma active_next:
  assumes "active_list st A C a" and "firing st" and "firingIndex st + 1 < int (length (list_of st))"
  shows "list_of st ! nat (firingIndex st + 1) = A ! length C \<and> length C < length A \<and>
    active_list (st\<lparr>firingIndex := firingIndex st + 1\<rparr>) A (C @ [(A ! length C, a)]) a"
proof -
  let ?n = "nat (firingIndex st + 1)" and ?g = "\<lambda>f. (f, a)"
  have n: "?n < length (list_of st)" "nat (firingIndex st + 1 + 1) = Suc ?n" using assms by (auto simp: active_list_def)
  then have d: "drop ?n (list_of st) = list_of st ! ?n # drop (Suc ?n) (list_of st)" by (simp add: Cons_nth_drop_Suc)
  have A: "map ?g A = C @ (list_of st ! ?n, a) # map ?g (drop (Suc ?n) (list_of st))" using assms d by (simp add: active_list_def)
  have len: "length C < length A" using arg_cong [OF A, of length] by simp
  have "?g (A ! length C) = (list_of st ! ?n, a)" using A len by (metis nth_append_length nth_map)
  then show ?thesis using assms A len n by (auto simp: active_list_def list_of_def)
qed

lemma active_finish:
  assumes "active_list st A C a" and "firing st" and "\<not> firingIndex st + 1 < int (length (list_of st))"
  shows "active_list (finish (list_opts l) (st\<lparr>firingIndex := -1\<rparr>)) A C a \<and> \<not> firing (finish (list_opts l) (st\<lparr>firingIndex := -1\<rparr>))"
proof -
  have "length (list_of st) \<le> nat (firingIndex st + 1)" using assms by (simp add: active_list_def)
  then show ?thesis using assms by (auto simp: active_list_def finish_def list_of_def Let_def)
qed

section \<open>The machine\<close>

lemma machine_simps [simp]:
  "heap (returning v m) = heap m" "log (returning v m) = log m" "stack (returning v m) = stack m" "timers (returning v m) = timers m"
  "whens (returning v m) = whens m" "mode (returning v m) = Returning v"
  "heap (throwing v m) = heap m" "log (throwing v m) = log m" "stack (throwing v m) = stack m" "timers (throwing v m) = timers m"
  "whens (throwing v m) = whens m" "mode (throwing v m) = Throwing v"
  "heap (push fr m) = heap m" "log (push fr m) = log m" "stack (push fr m) = fr # stack m" "timers (push fr m) = timers m"
  "whens (push fr m) = whens m" "mode (push fr m) = mode m"
  "heap (noted es m) = heap m" "log (noted es m) = log m @ es" "stack (noted es m) = stack m" "timers (noted es m) = timers m"
  "whens (noted es m) = whens m" "mode (noted es m) = mode m"
  by (simp_all add: returning_def throwing_def push_def noted_def)

lemma noted_Nil [simp]: "noted [] m = m"
  by (simp add: noted_def)

lemma update_simps [simp]:
  "length (heap (update_deferred d f m)) = length (heap m)" "log (update_deferred d f m) = log m" "stack (update_deferred d f m) = stack m"
  "timers (update_deferred d f m) = timers m" "whens (update_deferred d f m) = whens m" "mode (update_deferred d f m) = mode m"
  "d' < length (heap m) \<Longrightarrow> heap (update_deferred d f m) ! d' = (if d' = d then f (heap m ! d) else heap m ! d')"
  by (simp_all add: update_deferred_def)

lemma put_list_simps [simp]:
  "length (heap (put_list l st m)) = length (heap m)" "log (put_list l st m) = log m" "stack (put_list l st m) = stack m"
  "timers (put_list l st m) = timers m" "whens (put_list l st m) = whens m" "mode (put_list l st m) = mode m"
  "d < length (heap m) \<Longrightarrow> d_state (heap (put_list l st m) ! d) = d_state (heap m ! d)"
  "d < length (heap m) \<Longrightarrow> d_lists (heap (put_list l st m) ! d) hk = (if (d, hk) = l then st else d_lists (heap m ! d) hk)"
  by (cases l; auto simp: put_list_def)+

lemma get_list_simps [simp]:
  "get_list l (returning v m) = get_list l m" "get_list l (throwing v m) = get_list l m" "get_list l (push fr m) = get_list l m"
  "get_list l (noted es m) = get_list l m"
  by (simp_all add: get_list_def)

lemma get_put_list [simp]: "fst l < length (heap m) \<Longrightarrow> get_list l' (put_list l st m) = (if l' = l then st else get_list l' m)"
  by (cases l; cases l') (auto simp: get_list_def put_list_def)

lemma get_list_update [simp]:
  "get_list l (update_deferred d (\<lambda>x. x\<lparr>d_state := s\<rparr>) m) = get_list l m"
  "get_list l (update_deferred d (\<lambda>x. x\<lparr>d_maxDepth := n x\<rparr>) m) = get_list l m"
  by (auto simp: get_list_def update_deferred_def nth_list_update)

lemma fire_refs_simps [simp]:
  "fire_refs [] = []" "fire_refs (Fire l # fs) = l # fire_refs fs" "fire_refs (Client u # fs) = fire_refs fs"
  "fire_refs (Process a b c e g # fs) = fire_refs fs" "fire_refs (InTry a b c e g # fs) = fire_refs fs"
  "fire_refs (PipeWait n k v # fs) = fire_refs fs" "fire_refs (Todo i is # fs) = fire_refs fs"
  by (simp_all add: fire_refs_def)

text \<open>What the properties of a deferred depend on.\<close>

definition same_view :: "nat \<Rightarrow> 'u machine \<Rightarrow> 'u machine \<Rightarrow> bool" where
  "same_view d m m' \<longleftrightarrow> d_state (heap m ! d) = d_state (heap m' ! d) \<and> d_lists (heap m ! d) = d_lists (heap m' ! d) \<and>
     (\<forall>hk. added (d, hk) (log m) = added (d, hk) (log m') \<and> called (d, hk) (log m) = called (d, hk) (log m'))"

lemma same_view_ok: "same_view d m m' \<Longrightarrow> deferred_ok d m \<longleftrightarrow> deferred_ok d m'"
  by (simp add: same_view_def deferred_ok_def wf_lists_def decided_def won_def cong: dstate.case_cong)

lemma ok_updates [simp]:
  "frames_ok (returning v m) = frames_ok m" "frames_ok (throwing v m) = frames_ok m" "frames_ok (m\<lparr>mode := md\<rparr>) = frames_ok m"
  "frames_ok (m\<lparr>whens := ws\<rparr>) = frames_ok m"
  "deferred_ok d (returning v m) = deferred_ok d m" "deferred_ok d (throwing v m) = deferred_ok d m" "deferred_ok d (push fr m) = deferred_ok d m"
  "deferred_ok d (m\<lparr>mode := md\<rparr>) = deferred_ok d m" "deferred_ok d (m\<lparr>stack := fs\<rparr>) = deferred_ok d m"
  "deferred_ok d (m\<lparr>timers := ts\<rparr>) = deferred_ok d m" "deferred_ok d (m\<lparr>whens := ws\<rparr>) = deferred_ok d m"
  by (simp_all add: frames_ok_def deferred_ok_def get_list_def)

lemma calm_updates [simp]:
  "calm (returning v m) = calm m" "calm (throwing v m) = calm m" "calm (m\<lparr>mode := md\<rparr>) = calm m" "calm (m\<lparr>whens := ws\<rparr>) = calm m"
  by (simp_all add: calm_def)

lemma calm_push [simp]: "fire_refs [fr] = [] \<Longrightarrow> calm (push fr m) \<longleftrightarrow> frame_safe fr \<and> calm m"
  by (cases fr) (auto simp: calm_def frames_ok_def)

lemma frames_ok_put:
  "frames_ok m \<Longrightarrow> fst l < length (heap m) \<Longrightarrow> (l \<in> set (fire_refs (stack m)) \<Longrightarrow> firing st) \<Longrightarrow> frames_ok (put_list l st m)"
  by (auto simp: frames_ok_def)

lemma frames_ok_push_fire:
  "frames_ok m \<Longrightarrow> fst l < length (heap m) \<Longrightarrow> l \<notin> set (fire_refs (stack m)) \<Longrightarrow> firing st \<Longrightarrow>
   frames_ok (push (Fire l) (put_list l st m))"
  by (auto simp: frames_ok_def)

lemma frames_ok_noted: "frames_ok m \<Longrightarrow> \<forall>e \<in> set es. fst (ev_ref e) < length (heap m) \<Longrightarrow> frames_ok (noted es m)"
  by (auto simp: frames_ok_def)

lemma idle_list: "frames_ok m \<Longrightarrow> \<not> firing (get_list l m) \<Longrightarrow> l \<notin> set (fire_refs (stack m))"
  by (auto simp: frames_ok_def)

lemma firing_list: "frames_ok m \<Longrightarrow> l \<in> set (fire_refs (stack m)) \<Longrightarrow> firing (get_list l m)"
  by (auto simp: frames_ok_def)

lemma lock_firing [simp]: "firing (lock st) = firing st"
  by (simp add: lock_def Let_def)

lemma put_same [simp]: "put_list l (get_list l m) m = m"
  by (auto simp: put_list_def get_list_def update_deferred_def)

lemma put_absent [simp]: "length (heap m) \<le> fst l \<Longrightarrow> put_list l st m = m"
  by (simp add: put_list_def update_deferred_def)

lemma get_list_nth: "d < length (heap m) \<Longrightarrow> get_list (d, hk) m = d_lists (heap m ! d) hk"
  by (simp add: get_list_def)

lemma ev_ref_simps [simp]: "ev_ref (Added l f) = l" "ev_ref (Called l f a) = l"
  by (simp_all add: ev_ref_def)

text \<open>Events about one list leave the others alone.\<close>

lemma events_elsewhere:
  assumes "\<forall>e \<in> set es. ev_ref e = l" and "l' \<noteq> l"
  shows "added l' es = []" and "called l' es = []"
  using assms by (induction es) (auto simp: added_def called_def ev_ref_def split: devent.splits)

lemma other_deferred:
  assumes "\<forall>e \<in> set es. ev_ref e = l" and "d < length (heap m)" and "d \<noteq> fst l"
  shows "deferred_ok d (noted es (put_list l st m)) = deferred_ok d m"
proof -
  have "(d, hk) \<noteq> l" for hk using assms(3) by auto
  then show ?thesis
    using assms(2) events_elsewhere [OF assms(1)] by (intro same_view_ok) (simp add: same_view_def fun_eq_iff)
qed

lemma calm_list:
  assumes "calm m" and "fst l < length (heap m)" and "\<forall>e \<in> set es. ev_ref e = l" and "l \<in> set (fire_refs (stack m)) \<Longrightarrow> firing st"
    and "deferred_ok (fst l) (noted es (put_list l st m))"
  shows "calm (noted es (put_list l st m))"
  unfolding calm_def
proof (intro conjI allI impI)
  show "frames_ok (noted es (put_list l st m))" using assms by (auto simp: calm_def intro!: frames_ok_noted frames_ok_put)
  fix d assume "d < length (heap (noted es (put_list l st m)))"
  then show "deferred_ok d (noted es (put_list l st m))"
    using assms other_deferred [OF assms(3), of d m st] by (cases "d = fst l") (auto simp: calm_def)
qed

lemma calm_fire_list:
  assumes "calm m" and "fst l < length (heap m)" and "\<forall>e \<in> set es. ev_ref e = l" and "l \<notin> set (fire_refs (stack m))" and "firing st"
    and "deferred_ok (fst l) (noted es (put_list l st m))"
  shows "calm (push (Fire l) (noted es (put_list l st m)))"
proof -
  have "calm (noted es (put_list l st m))" using assms by (intro calm_list) auto
  moreover have "frames_ok (push (Fire l) (noted es (put_list l st m)))"
    using frames_ok_push_fire [of m l st] assms by (auto simp: calm_def frames_ok_def)
  ultimately show ?thesis by (simp add: calm_def)
qed

section \<open>Progress lists\<close>

lemma notify_ok:
  assumes "deferred_ok d m" and "d < length (heap m)" and "\<forall>e \<in> set es. ev_ref e = (d, h, Notify)"
    and "\<forall>f \<in> set (list_of st). f \<in> set (list_of (get_list (d, h, Notify) m)) \<or> safe f" and "-1 \<le> firingIndex st"
  shows "deferred_ok d (noted es (put_list (d, h, Notify) st m))"
proof -
  have e: "added (d, h', k) es = [] \<and> called (d, h', k) es = []" if "k \<noteq> Notify" for h' k
    using events_elsewhere [OF assms(3), of "(d, h', k)"] that by auto
  have "decided d (heap (put_list (d, h, Notify) st m) ! d) (log m @ es) = decided d (heap m ! d) (log m)"
    using assms(2) e by (simp add: decided_def won_def other_kind_def cong: dstate.case_cong)
  moreover have "wf_lists d (heap (put_list (d, h, Notify) st m) ! d) (log m @ es)"
    using assms e by (cases h; simp add: deferred_ok_def wf_lists_def list_all_iff get_list_nth; blast)
  ultimately show ?thesis using assms(1) by (simp add: deferred_ok_def)
qed

lemma notify_index: "deferred_ok d m \<Longrightarrow> d < length (heap m) \<Longrightarrow> -1 \<le> firingIndex (get_list (d, h, Notify) m)"
  by (simp add: deferred_ok_def wf_lists_def get_list_nth)

section \<open>Adding\<close>

definition list_kept :: "nat \<Rightarrow> 'u deferred \<Rightarrow> 'u devent list \<Rightarrow> 'u deferred \<Rightarrow> 'u devent list \<Rightarrow> bool \<Rightarrow> kind \<Rightarrow> bool" where
  "list_kept d x es x' es' h k \<longleftrightarrow> (\<not> h \<longrightarrow> called (d, h, k) es = called (d, h, k) es') \<and>
     (lst_fresh d x es h k \<longrightarrow> lst_fresh d x' es' h k) \<and> (\<forall>a. lst_active d x es h k a \<longrightarrow> lst_active d x' es' h k a) \<and>
     (dead_list (d_lists x (h, k)) (called (d, h, k) es) \<longrightarrow> dead_list (d_lists x' (h, k)) (called (d, h, k) es'))"

lemma other_kind_simps [simp]:
  "other_kind Resolve = Reject" "other_kind Reject = Resolve" "other_kind k = Notify \<longleftrightarrow> k = Notify" "other_kind (other_kind k) = k"
  "other_kind k = k \<longleftrightarrow> k = Notify" "k = other_kind k \<longleftrightarrow> k = Notify"
  by (cases k; simp add: other_kind_def)+

lemma won_kept:
  assumes "\<And>h k. k \<noteq> Notify \<Longrightarrow> list_kept d x es x' es' h k" and "k \<noteq> Notify" and "won d x es k a"
  shows "won d x' es' k a"
proof -
  note k = assms(1) [unfolded list_kept_def]
  have "called (d, False, k) es = called (d, False, k) es'" "other_kind k \<noteq> Notify" using k assms(2) by simp_all
  then show ?thesis using assms(2,3) k unfolding won_def by (simp split: if_splits)
qed

lemma decided_kept:
  assumes "decided d x es" and "d_state x' = d_state x" and "\<And>h k. k \<noteq> Notify \<Longrightarrow> list_kept d x es x' es' h k"
  shows "decided d x' es'"
proof (cases "d_state x")
  case Pending
  have "list_kept d x es x' es' h Resolve" "list_kept d x es x' es' h Reject" for h using assms(3) by simp_all
  then show ?thesis using assms(1,2) Pending by (simp add: decided_def list_kept_def)
next
  case Resolved
  then obtain a where "won d x es Resolve a" using assms(1) by (auto simp: decided_def)
  then have "won d x' es' Resolve a" by (intro won_kept [OF assms(3)]) simp_all
  then show ?thesis using assms(2) Resolved by (auto simp: decided_def)
next
  case Rejected
  then obtain a where "won d x es Reject a" using assms(1) by (auto simp: decided_def)
  then have "won d x' es' Reject a" by (intro won_kept [OF assms(3)]) simp_all
  then show ?thesis using assms(2) Rejected by (auto simp: decided_def)
qed

lemma decided_locked: "decided d x es \<Longrightarrow> d_state x \<noteq> Pending \<Longrightarrow> k \<noteq> Notify \<Longrightarrow> locked (d_lists x (False, k))"
  by (cases k; cases "d_state x") (auto simp: decided_def won_def active_list_def dead_list_def)

lemma once_list_cases:
  assumes "deferred_ok d m" and "d < length (heap m)" and "k \<noteq> Notify"
  obtains "fresh_list (get_list (d, h, k) m) (added (d, h, k) (log m)) (called (d, h, k) (log m))"
    | a where "active_list (get_list (d, h, k) m) (added (d, h, k) (log m)) (called (d, h, k) (log m)) a"
    | "dead_list (get_list (d, h, k) m) (called (d, h, k) (log m))"
  using assms
  by (cases k; cases h; cases "d_state (heap m ! d)")
    (auto simp: deferred_ok_def decided_def won_def get_list_nth other_kind_def split: if_splits)

lemma wf_lists_add:
  assumes "wf_lists d (heap m ! d) (log m)" and "d < length (heap m)" and "k \<noteq> Notify" and "list_all safe fs"
  shows "wf_lists d (heap (put_list (d, h, k) st m) ! d) (log m @ map (Added (d, h, k)) fs)"
  using assms by (auto simp: wf_lists_def list_all_iff)

lemma add_deferred:
  assumes "deferred_ok d m" and "d < length (heap m)" and "k \<noteq> Notify" and "list_all safe fs"
    and add: "add (list_opts (d, h, k)) (map ArgFun fs) (get_list (d, h, k) m) = (st, go)" and "\<not> disabled (get_list (d, h, k) m)"
  shows "deferred_ok d (noted (map (Added (d, h, k)) fs) (put_list (d, h, k) (if go then started (d, h, k) st else st) m))"
proof -
  let ?l = "(d, h, k)" and ?x = "heap m ! d" and ?es = "log m" and ?es' = "log m @ map (Added (d, h, k)) fs"
  let ?x' = "heap (put_list ?l (if go then started ?l st else st) m) ! d"
  have "list_kept d ?x ?es ?x' ?es' h k"
  proof -
    have "fresh_list (get_list ?l m) A C \<Longrightarrow> fresh_list (if go then started ?l st else st) (A @ fs) C" for A C
      using fresh_add [of "get_list ?l m" A C ?l fs] add by simp
    moreover have "active_list (get_list ?l m) A C a \<Longrightarrow> active_list (if go then started ?l st else st) (A @ fs) C a" for A C a
      using active_add [of "get_list ?l m" A C a ?l fs] add assms(3) by (cases go) auto
    moreover have "\<not> dead_list (get_list ?l m) C" for C using assms(6) by (simp add: dead_list_def disabled_def)
    ultimately show ?thesis using assms(2) by (simp add: list_kept_def get_list_nth)
  qed
  then have kept: "list_kept d ?x ?es ?x' ?es' h' k'" if "k' \<noteq> Notify" for h' k'
    using assms(2) by (cases "h' = h \<and> k' = k") (auto simp: list_kept_def)
  have "decided d ?x ?es" using assms(1) by (simp add: deferred_ok_def)
  moreover have "d_state ?x' = d_state ?x" using assms(2) by simp
  ultimately have "decided d ?x' ?es'" using kept by (rule decided_kept)
  then show ?thesis using wf_lists_add [OF _ assms(2-4), where h = h] assms(1) by (simp add: deferred_ok_def)
qed

lemma added_funs: "\<not> disabled st \<Longrightarrow> add (list_opts l) (map ArgFun fs) st = (st', go) \<Longrightarrow>
   list_of st' = list_of st @ fs \<and> (go \<longrightarrow> \<not> firing st) \<and> firing st' = firing st \<and> (-1 \<le> firingIndex st \<longrightarrow> -1 \<le> firingIndex st')"
  by (auto simp: add_funs disabled_def list_of_def split: option.splits if_splits)

lemma add_to_calm:
  assumes "calm m" and "list_all safe fs"
  shows "calm (add_to l fs m)"
proof (cases "fst l < length (heap m) \<and> \<not> disabled (get_list l m)")
  case True
  obtain d h k where l: "l = (d, h, k)" by (cases l)
  obtain st go where a: "add (list_opts l) (map ArgFun fs) (get_list l m) = (st, go)" by force
  let ?st = "if go then started l st else st"
  note f = added_funs [OF _ a]
  have d: "deferred_ok (fst l) m" using assms(1) True by (simp add: calm_def)
  have "deferred_ok (fst l) (noted (map (Added l) fs) (put_list l ?st m))"
  proof (cases "k = Notify")
    case True
    have "\<forall>f \<in> set (list_of ?st). f \<in> set (list_of (get_list l m)) \<or> safe f"
      using \<open>fst l < _ \<and> _\<close> f assms(2) by (auto simp: list_all_iff)
    then show ?thesis
      using notify_ok [of d m "map (Added l) fs" h ?st] notify_index [of d m h] f d \<open>fst l < _ \<and> _\<close> True by (simp add: l)
  next
    case False
    then show ?thesis using add_deferred [of d m k fs h st go] d True assms(2) a by (cases go) (simp_all add: l)
  qed
  note ok = this
  have "calm (push (Fire l) (noted (map (Added l) fs) (put_list l (started l st) m)))" if go
    using calm_fire_list [of m l "map (Added l) fs" "started l st"] ok f True idle_list [of m l] assms(1) that by (simp add: calm_def)
  moreover have "calm (noted (map (Added l) fs) (put_list l st m))" if "\<not> go"
  proof -
    have "l \<in> set (fire_refs (stack m)) \<Longrightarrow> firing st" using f True assms(1) by (simp add: calm_def frames_ok_def)
    then show ?thesis using calm_list [of m l "map (Added l) fs" st] ok True assms(1) that by simp
  qed
  moreover have "put_list l x (noted es m) = noted es (put_list l x m)" for x es
    by (simp add: put_list_def update_deferred_def noted_def)
  ultimately show ?thesis using True a by (auto simp: add_to_def start_fire_started Let_def split: if_splits)
next
  case False
  have "add (list_opts l) (map ArgFun fs) (get_list l m) = (get_list l m, False)" if "disabled (get_list l m)"
    using that by (simp add: add_funs disabled_def)
  then show ?thesis using False assms by (auto simp: add_to_def noted_def)
qed

section \<open>Firing from outside\<close>

lemma fire_with_ok:
  assumes "calm m" and "h = False \<or> k = Notify"
  shows "machine_ok (fire_with (d, h, k) a m)"
proof (cases "d < length (heap m)")
  case False
  then show ?thesis using assms by (simp add: fire_with_def fireWith_def machine_ok_def split_def Let_def)
next
  case d: True
  let ?l = "(d, h, k)"
  have ok: "deferred_ok d m" using assms(1) d by (simp add: calm_def)
  show ?thesis
  proof (cases "locked (get_list ?l m)")
    case True
    then show ?thesis using assms by (simp add: fire_with_def locked_fires machine_ok_def)
  next
    case False
    then have fw: "fireWith a (get_list ?l m) = ((get_list ?l m)\<lparr>queue := queue (get_list ?l m) @ [a]\<rparr>, \<not> firing (get_list ?l m))"
      by (simp add: fireWith_def)
    show ?thesis
    proof (cases "k = Notify")
      case True
      let ?st = "(get_list ?l m)\<lparr>queue := queue (get_list ?l m) @ [a]\<rparr>"
      have n: "deferred_ok d (noted [] (put_list ?l (started ?l ?st) m))" "deferred_ok d (noted [] (put_list ?l ?st m))"
        using ok d True notify_ok [of d m "[]" h] notify_index [of d m h] by (simp_all add: list_of_def)
      have "calm (push (Fire ?l) (put_list ?l (started ?l ?st) m))" if "\<not> firing (get_list ?l m)"
        using calm_fire_list [of m ?l "[]" "started ?l ?st"] n idle_list [of m ?l] that assms(1) d by (simp add: calm_def)
      moreover have "calm (put_list ?l ?st m)" if "firing (get_list ?l m)"
        using calm_list [of m ?l "[]" ?st] n that assms(1) d by simp
      ultimately have "calm (fire_with ?l a m)" using d by (simp add: fire_with_def fw start_fire_started)
      then show ?thesis by (simp add: machine_ok_def)
    next
      case k: False
      then have h: "h = False" using assms(2) by simp
      have p: "d_state (heap m ! d) = Pending"
        using False ok d k h decided_locked [of d "heap m ! d" "log m" k] by (auto simp: deferred_ok_def get_list_nth)
      then have all_fresh: "lst_fresh d (heap m ! d) (log m) h' k'" if "k' \<noteq> Notify" for h' k'
        using ok that by (cases k') (auto simp: deferred_ok_def decided_def)
      then have fresh: "fresh_list (get_list ?l m) (added ?l (log m)) (called ?l (log m))" using d k by (simp add: get_list_nth)
      let ?m = "push (Fire ?l) (put_list ?l (started ?l ((get_list ?l m)\<lparr>queue := [a]\<rparr>)) m)"
      have "active_list (started ?l ((get_list ?l m)\<lparr>queue := [a]\<rparr>)) (added ?l (log m)) (called ?l (log m)) a"
        using fresh_started [OF fresh] k by simp
      then have "midway d (heap ?m ! d) (log ?m) k"
        using all_fresh fresh p d k h by (auto simp: midway_def fresh_list_def)
      moreover have "wf_lists d (heap ?m ! d) (log ?m)"
        using wf_lists_add [of d m k "[]" h] ok d k by (simp add: deferred_ok_def)
      moreover have "deferred_ok d' ?m" if "d' < length (heap m)" "d' \<noteq> d" for d'
        using other_deferred [of "[]" ?l d' m] that assms(1) by (simp add: calm_def)
      moreover have "frames_ok ?m"
        using frames_ok_push_fire [of m ?l] idle_list [of m ?l] assms(1) d fresh by (simp add: calm_def fresh_list_def)
      ultimately have "stormy d k (returning Undef ?m)" using d by (simp add: stormy_def)
      moreover have "fire_with ?l a m = returning Undef ?m"
        using d fresh_fires [OF fresh, of a] by (simp add: fire_with_def start_fire_started)
      ultimately show ?thesis using h by (auto simp: machine_ok_def)
    qed
  qed
qed

section \<open>Calls\<close>

lemma new_lists:
  "new_list d (h, k) = Callbacks\<lparr>clist := Some (if h then [] else first_callbacks d k)\<rparr>"
  by (cases h) (simp_all add: new_list_def add_funs)

lemma no_events:
  assumes "frames_ok m" and "length (heap m) \<le> fst l"
  shows "added l (log m) = []" and "called l (log m) = []"
proof -
  have "\<forall>e \<in> set (log m). ev_ref e \<noteq> l" using assms by (auto simp: frames_ok_def)
  then show "added l (log m) = []" "called l (log m) = []" by (auto simp: added_def called_def split: devent.splits)
qed

lemma new_deferred_calm:
  assumes "calm m"
  shows "calm (new_deferred m)"
proof -
  let ?n = "length (heap m)" and ?m = "new_deferred m"
  have log: "added (d, h, k) (log ?m) = added (d, h, k) (log m) @ (if d = ?n \<and> \<not> h then first_callbacks ?n k else [])"
    "called (d, h, k) (log ?m) = called (d, h, k) (log m)" for d h k
    by (cases k; auto simp: new_deferred_def Let_def)+
  have old: "heap ?m ! d = heap m ! d" if "d < ?n" for d using that by (simp add: new_deferred_def Let_def nth_append)
  have "deferred_ok d ?m" if "d < ?n" for d
    using assms that same_view_ok [of d ?m m] old [OF that] log by (auto simp: calm_def same_view_def split_paired_All)
  moreover have "deferred_ok ?n ?m"
  proof -
    have x: "heap ?m ! ?n = \<lparr>d_state = Pending, d_lists = new_list ?n, d_maxDepth = 0\<rparr>" by (simp add: new_deferred_def Let_def)
    have e: "added (?n, h, k) (log ?m) = (if h then [] else first_callbacks ?n k)" "called (?n, h, k) (log ?m) = []" for h k
      using no_events [of m "(?n, h, k)"] assms log by (auto simp: calm_def)
    show ?thesis
      by (simp add: deferred_ok_def x wf_lists_def decided_def e new_lists fresh_list_def list_of_def first_callbacks_def final_state_def)
  qed
  moreover have "frames_ok ?m"
  proof -
    have "get_list l ?m = get_list l m" if "fst l < ?n" for l using that old by (simp add: get_list_def new_deferred_def Let_def nth_append)
    then show ?thesis using assms by (auto simp: calm_def frames_ok_def new_deferred_def Let_def first_callbacks_def less_Suc_eq split: option.splits)
  qed
  moreover have "length (heap ?m) = Suc ?n" by (simp add: new_deferred_def Let_def)
  ultimately show ?thesis by (simp add: calm_def less_Suc_eq)
qed

lemma calm_ok: "calm m \<Longrightarrow> machine_ok m"
  by (simp add: machine_ok_def)

lemma calm_timers: "calm m \<Longrightarrow> safe f \<Longrightarrow> calm (m\<lparr>timers := timers m @ [(f, a)]\<rparr>)"
  by (auto simp: calm_def frames_ok_def get_list_def)

lemma update_func_ok: "calm m \<Longrightarrow> machine_ok (update_func w i a m)"
  by (simp add: update_func_def when_put_def Let_def fire_with_ok calm_ok)

lemma call_fun_ok: "calm m \<Longrightarrow> safe f \<Longrightarrow> machine_ok (call_fun f a m)"
proof (induction f a m rule: call_fun.induct)
  case (9 depth d h special a m)
  then show ?case by (auto simp: calm_ok calm_timers)
next
  case (10 n k fn a m)
  then show ?case by (cases fn) (auto simp: fire_with_ok)
qed (auto simp: calm_ok fire_with_ok update_func_ok)

section \<open>Turns of a list\<close>

text \<open>The frame of a list is taken from the stack while it gets a turn.\<close>

definition popped :: "lref \<Rightarrow> 'u machine \<Rightarrow> bool" where
  "popped l m \<longleftrightarrow> frames_ok m \<and> fst l < length (heap m) \<and> l \<notin> set (fire_refs (stack m)) \<and> firing (get_list l m)"

lemma popped_pop: "frames_ok m \<Longrightarrow> stack m = Fire l # fs \<Longrightarrow> popped l (m\<lparr>stack := fs\<rparr>)"
  by (auto simp: popped_def frames_ok_def get_list_def)

lemma calm_called:
  assumes "calm m" and "popped l m" and "deferred_ok (fst l) (noted [Called l f a] (put_list l (get_list l m\<lparr>firingIndex := i\<rparr>) m))"
  shows "calm (push (Fire l) (noted [Called l f a] (put_list l (get_list l m\<lparr>firingIndex := i\<rparr>) m)))"
  using assms calm_fire_list [of m l "[Called l f a]" "get_list l m\<lparr>firingIndex := i\<rparr>"] by (simp add: popped_def)

lemma calm_ended:
  assumes "calm m" and "popped l m" and "deferred_ok (fst l) (put_list l st m)"
  shows "calm (put_list l st m)"
  using assms calm_list [of m l "[]" st] by (simp add: popped_def)

text \<open>A turn of a progress list.\<close>

lemma notify_turn:
  assumes "calm m" and "popped (d, h, Notify) m"
  shows "machine_ok (fire_step (d, h, Notify) m)"
proof -
  let ?l = "(d, h, Notify)" and ?st = "get_list (d, h, Notify) m"
  have d: "d < length (heap m)" "deferred_ok d m" using assms by (auto simp: popped_def calm_def)
  note i = notify_index [OF d(2,1), of h]
  show ?thesis
  proof (cases "firingIndex ?st + 1 < int (length (list_of ?st))")
    case True
    let ?f = "list_of ?st ! nat (firingIndex ?st + 1)" and ?a = "case memory ?st of Some a \<Rightarrow> a | None \<Rightarrow> (Undef, [])"
    let ?m = "push (Fire ?l) (noted [Called ?l ?f ?a] (put_list ?l (?st\<lparr>firingIndex := firingIndex ?st + 1\<rparr>) m))"
    have c: "calm ?m"
      using notify_ok [OF d(2,1), of "[Called ?l ?f ?a]" h "?st\<lparr>firingIndex := firingIndex ?st + 1\<rparr>"] calm_called [OF assms] i by (simp add: list_of_def)
    have step: "fire_step ?l m = call_fun ?f ?a ?m" using True by (simp add: fire_step_def Let_def)
    show ?thesis
    proof (cases "safe ?f")
      case True
      then show ?thesis using call_fun_ok [OF c] unfolding step by simp
    next
      case False
      have "?f \<in> set (list_of ?st)" using \<open>firingIndex ?st + 1 < _\<close> i by (intro nth_mem) simp
      then have "?f = FireHandlers d Notify"
        using False d by (cases h) (auto simp: deferred_ok_def wf_lists_def list_all_iff get_list_nth)
      then show ?thesis using fire_with_ok [OF c] unfolding step by simp
    qed
  next
    case False
    have fin: "list_of (finish (list_opts ?l) (?st\<lparr>firingIndex := -1\<rparr>)) = list_of ?st \<or> list_of (finish (list_opts ?l) (?st\<lparr>firingIndex := -1\<rparr>)) = []"
      by (auto simp: finish_def list_of_def Let_def)
    show ?thesis
    proof (cases "queue ?st")
      case Nil
      have "calm (put_list ?l (finish (list_opts ?l) (?st\<lparr>firingIndex := -1\<rparr>)) m)"
        using notify_ok [OF d(2,1), of "[]" h "finish (list_opts ?l) (?st\<lparr>firingIndex := -1\<rparr>)"] fin by (intro calm_ended [OF assms]) (auto simp: finish_def Let_def)
      then show ?thesis using False Nil by (simp add: fire_step_def Let_def calm_ok)
    next
      case (Cons a q)
      let ?st' = "?st\<lparr>firingIndex := -1, memory := Some a, queue := q\<rparr>"
      have "deferred_ok d (noted [] (put_list ?l ?st' m))" using notify_ok [OF d(2,1), of "[]" h ?st'] by (simp add: list_of_def)
      then have "calm (push (Fire ?l) (noted [] (put_list ?l ?st' m)))" using assms by (intro calm_fire_list) (auto simp: popped_def)
      then show ?thesis using False Cons by (simp add: fire_step_def Let_def calm_ok)
    qed
  qed
qed

text \<open>The end of a list that is fired once.\<close>

lemma once_end:
  assumes "active_list (get_list l m) A C a" and "popped l m" and "\<not> firingIndex (get_list l m) + 1 < int (length (list_of (get_list l m)))"
  shows "fire_step l m = returning Undef (put_list l (finish (list_opts l) (get_list l m\<lparr>firingIndex := -1\<rparr>)) m)"
  using assms by (simp add: fire_step_def Let_def active_list_def)

lemma once_next:
  assumes "active_list (get_list l m) A C a" and "popped l m" and "firingIndex (get_list l m) + 1 < int (length (list_of (get_list l m)))"
  shows "fire_step l m = call_fun (A ! length C) a (push (Fire l) (noted [Called l (A ! length C) a]
      (put_list l (get_list l m\<lparr>firingIndex := firingIndex (get_list l m) + 1\<rparr>) m)))"
    and "length C < length A"
    and "active_list (get_list l m\<lparr>firingIndex := firingIndex (get_list l m) + 1\<rparr>) A (C @ [(A ! length C, a)]) a"
  using assms active_next [OF assms(1) _ assms(3)] by (auto simp: fire_step_def Let_def active_list_def popped_def)

text \<open>A turn of a list of handlers.\<close>

lemma handlers_kept:
  assumes "deferred_ok d m" and "d < length (heap m)" and "k \<noteq> Notify" and "firing (get_list (d, True, k) m)"
    and "\<forall>e \<in> set es. ev_ref e = (d, True, k)" and "added (d, True, k) es = []"
    and "\<And>a. active_list (get_list (d, True, k) m) (added (d, True, k) (log m)) (called (d, True, k) (log m)) a \<Longrightarrow>
       active_list st (added (d, True, k) (log m)) (called (d, True, k) (log m @ es)) a"
  shows "deferred_ok d (noted es (put_list (d, True, k) st m))"
proof -
  let ?x = "heap m ! d" and ?x' = "heap (put_list (d, True, k) st m) ! d"
  have e: "added (d, h', k') es = []" "(h', k') \<noteq> (True, k) \<Longrightarrow> called (d, h', k') es = []" for h' k'
    using events_elsewhere [OF assms(5), of "(d, h', k')"] assms(6) by (cases "(h', k') = (True, k)"; auto)+
  have "\<not> fresh_list (get_list (d, True, k) m) A C" "\<not> dead_list (get_list (d, True, k) m) C" for A C
    using assms(4) by (auto simp: fresh_list_def dead_list_def)
  then have "list_kept d ?x (log m) ?x' (log m @ es) True k"
    using assms(2,7) e by (simp add: list_kept_def get_list_nth)
  then have kept: "list_kept d ?x (log m) ?x' (log m @ es) h' k'" if "k' \<noteq> Notify" for h' k'
    using assms(2) e by (cases "h' = True \<and> k' = k") (auto simp: list_kept_def)
  have "decided d ?x (log m)" "d_state ?x' = d_state ?x" using assms(1,2) by (simp_all add: deferred_ok_def)
  then have "decided d ?x' (log m @ es)" using kept by (rule decided_kept)
  moreover have "wf_lists d ?x' (log m @ es)" using assms(1,2,3) e by (simp add: deferred_ok_def wf_lists_def)
  ultimately show ?thesis by (simp add: deferred_ok_def)
qed

lemma handlers_turn:
  assumes "calm m" and "popped (d, True, k) m" and "k \<noteq> Notify"
  shows "machine_ok (fire_step (d, True, k) m)"
proof -
  let ?l = "(d, True, k)" and ?st = "get_list (d, True, k) m"
  have d: "d < length (heap m)" "deferred_ok d m" and f: "firing ?st" using assms by (auto simp: popped_def calm_def)
  obtain a where act: "active_list ?st (added ?l (log m)) (called ?l (log m)) a"
    by (rule once_list_cases [OF d(2,1) assms(3), of True]) (use f in \<open>auto simp: fresh_list_def dead_list_def\<close>)
  then have only: "active_list ?st A C b \<Longrightarrow> b = a" for A C b by (simp add: active_list_def)
  show ?thesis
  proof (cases "firingIndex ?st + 1 < int (length (list_of ?st))")
    case True
    note n = once_next [OF act assms(2) True]
    let ?f = "added ?l (log m) ! length (called ?l (log m))"
    have "deferred_ok d (noted [Called ?l ?f a] (put_list ?l (?st\<lparr>firingIndex := firingIndex ?st + 1\<rparr>) m))"
      by (rule handlers_kept [OF d(2,1) assms(3) f]) (use n(3) only in auto)
    then have "calm (push (Fire ?l) (noted [Called ?l ?f a] (put_list ?l (?st\<lparr>firingIndex := firingIndex ?st + 1\<rparr>) m)))"
      using calm_called [OF assms(1,2)] by simp
    moreover have "safe ?f" using n(2) d assms(3) nth_mem [OF n(2)] by (cases k) (auto simp: deferred_ok_def wf_lists_def list_all_iff)
    ultimately show ?thesis unfolding n(1) by (rule call_fun_ok)
  next
    case False
    have "deferred_ok d (noted [] (put_list ?l (finish (list_opts ?l) (?st\<lparr>firingIndex := -1\<rparr>)) m))"
      by (rule handlers_kept [OF d(2,1) assms(3) f]) (use active_finish [OF act f False, of ?l] only in auto)
    then show ?thesis using calm_ended [OF assms(1,2)] once_end [OF act assms(2) False] by (simp add: calm_ok)
  qed
qed

text \<open>A turn of a list of callbacks that is fired once.\<close>

lemma first_nth:
  assumes "wf_lists d x es" and "k \<noteq> Notify"
  shows "\<exists>s. final_state k = Some s \<and> added (d, False, k) es ! 0 = SetState d s" and "added (d, False, k) es ! 1 = Disable d (other_kind k)"
    and "added (d, False, k) es ! 2 = LockProgress d" and "added (d, False, k) es ! 3 = FireHandlers d k"
    and "4 \<le> n \<Longrightarrow> n < length (added (d, False, k) es) \<Longrightarrow> safe (added (d, False, k) es ! n)" and "4 \<le> length (added (d, False, k) es)"
proof -
  obtain fs s where fs: "added (d, False, k) es = [SetState d s, Disable d (other_kind k), LockProgress d, FireHandlers d k] @ fs" "list_all safe fs"
      "final_state k = Some s"
    using assms by (cases k) (auto simp: wf_lists_def first_callbacks_def final_state_def)
  then show "\<exists>s. final_state k = Some s \<and> added (d, False, k) es ! 0 = SetState d s" "added (d, False, k) es ! 1 = Disable d (other_kind k)"
      "added (d, False, k) es ! 2 = LockProgress d" "added (d, False, k) es ! 3 = FireHandlers d k" "4 \<le> length (added (d, False, k) es)"
    by (simp_all add: numeral_eq_Suc)
  show "safe (added (d, False, k) es ! n)" if "4 \<le> n" "n < length (added (d, False, k) es)"
    using that fs nth_mem [of "n - 4" fs] unfolding fs(1) nth_append by (auto simp: list_all_iff)
qed

text \<open>A deferred whose list of callbacks is fired.\<close>

lemma decided_won:
  assumes "decided d x es" and "k \<noteq> Notify" and "lst_active d x es False k a"
  shows "won d x es k a" and "Some (d_state x) = final_state k"
proof -
  have "\<not> lst_fresh d x es False k" "\<not> dead_list (d_lists x (False, k)) C" for C
    using assms(3) by (auto simp: active_list_def fresh_list_def dead_list_def)
  moreover have "won d x es k b \<Longrightarrow> b = a" for b using assms(3) by (simp add: won_def active_list_def)
  ultimately show "won d x es k a" "Some (d_state x) = final_state k"
    using assms(1,2) by (cases k; cases "d_state x"; auto simp: decided_def won_def final_state_def)+
qed

lemma won_decided: "won d x es k a \<Longrightarrow> Some (d_state x) = final_state k \<Longrightarrow> decided d x es"
  by (cases k) (auto simp: decided_def final_state_def)

lemma won_ok:
  "won d (heap m ! d) (log m) k a \<Longrightarrow> Some (d_state (heap m ! d)) = final_state k \<Longrightarrow> wf_lists d (heap m ! d) (log m) \<Longrightarrow> deferred_ok d m"
  by (simp add: deferred_ok_def won_decided)

lemma popped_frames:
  "popped l m \<Longrightarrow> frames_ok (push (Fire l) (noted [Called l f a] (put_list l (get_list l m\<lparr>firingIndex := i\<rparr>) m)))"
  by (auto simp: popped_def frames_ok_def)

text \<open>The list after a turn: the other lists are the same.\<close>

lemma main_wf:
  assumes "wf_lists d (heap m ! d) (log m)" and "d < length (heap m)" and "k \<noteq> Notify" and "\<forall>e \<in> set es. \<exists>f a. e = Called (d, False, k) f a"
  shows "wf_lists d (heap (put_list (d, False, k) st m) ! d) (log m @ es)"
proof -
  have "added l es = []" for l using assms(4) by (induction es) auto
  then show ?thesis using assms by (auto simp: wf_lists_def)
qed

lemma main_won:
  assumes "won d (heap m ! d) (log m) k a" and "d < length (heap m)" and "k \<noteq> Notify" and "es = [] \<or> es = [Called (d, False, k) f a]"
    and "active_list st (added (d, False, k) (log m)) (called (d, False, k) (log m @ es)) a"
    and "length (called (d, False, k) (log m @ es)) < 4 \<longleftrightarrow> length (called (d, False, k) (log m)) < 4"
  shows "won d (heap (put_list (d, False, k) st m) ! d) (log m @ es) k a"
  using assms by (auto simp: won_def split: if_splits)

lemma main_later_turn:
  assumes "calm m" and "popped (d, False, k) m" and "k \<noteq> Notify"
  shows "machine_ok (fire_step (d, False, k) m)"
proof -
  let ?l = "(d, False, k)" and ?st = "get_list (d, False, k) m" and ?A = "added (d, False, k) (log m)" and ?C = "called (d, False, k) (log m)"
  have d: "d < length (heap m)" "deferred_ok d m" and f: "firing ?st" using assms by (auto simp: popped_def calm_def)
  have wf: "wf_lists d (heap m ! d) (log m)" using d by (simp add: deferred_ok_def)
  obtain a where act: "active_list ?st ?A ?C a"
    by (rule once_list_cases [OF d(2,1) assms(3), of False]) (use f in \<open>auto simp: fresh_list_def dead_list_def\<close>)
  then have won: "won d (heap m ! d) (log m) k a" and fin: "Some (d_state (heap m ! d)) = final_state k"
    using decided_won [of d "heap m ! d" "log m" k a] d assms(3) by (auto simp: deferred_ok_def get_list_nth)
  then have two: "2 \<le> length ?C" by (simp add: won_def)
  show ?thesis
  proof (cases "firingIndex ?st + 1 < int (length (list_of ?st))")
    case False
    have "won d (heap (put_list ?l (finish (list_opts ?l) (?st\<lparr>firingIndex := -1\<rparr>)) m) ! d) (log m @ []) k a"
      using active_finish [OF act f False, of ?l] by (intro main_won [OF won d(1) assms(3)]) auto
    then have "deferred_ok d (put_list ?l (finish (list_opts ?l) (?st\<lparr>firingIndex := -1\<rparr>)) m)"
      using fin d(1) main_wf [OF wf d(1) assms(3), of "[]"] by (intro won_ok [of d _ k a]) simp_all
    then show ?thesis using calm_ended [OF assms(1,2)] once_end [OF act assms(2) False] by (simp add: calm_ok)
  next
    case True
    note n = once_next [OF act assms(2) True]
    let ?f = "?A ! length ?C" and ?st' = "?st\<lparr>firingIndex := firingIndex ?st + 1\<rparr>"
    let ?m = "push (Fire ?l) (noted [Called ?l ?f a] (put_list ?l ?st' m))"
    have wf': "wf_lists d (heap ?m ! d) (log ?m)" using main_wf [OF wf d(1) assms(3), of "[Called ?l ?f a]"] by simp
    have calm: "calm ?m" if "length ?C \<noteq> 3"
    proof -
      have "won d (heap (put_list ?l ?st' m) ! d) (log m @ [Called ?l ?f a]) k a"
        using n(3) that by (intro main_won [OF won d(1) assms(3)]) auto
      then have "deferred_ok d (noted [Called ?l ?f a] (put_list ?l ?st' m))" using fin d(1) wf' by (intro won_ok [of d _ k a]) simp_all
      then show ?thesis using calm_called [OF assms(1,2)] by simp
    qed
    consider "length ?C = 2" | "length ?C = 3" | "4 \<le> length ?C" using two by linarith
    then show ?thesis
    proof cases
      case 1
      let ?n = "(d, False, Notify)"
      have "calm ?m" "?f = LockProgress d" using calm 1 first_nth(3) [OF wf assms(3)] by simp_all
      moreover have "deferred_ok d (noted [] (put_list ?n (lock (get_list ?n ?m)) ?m))"
        using \<open>calm ?m\<close> d(1) notify_index [of d ?m False]
        by (intro notify_ok) (auto simp: calm_def lock_def list_of_def Let_def)
      moreover have "?n \<in> set (fire_refs (stack ?m)) \<Longrightarrow> firing (lock (get_list ?n ?m))"
        using \<open>calm ?m\<close> firing_list [of ?m ?n] by (simp only: calm_def lock_firing)
      ultimately have "calm (put_list ?n (lock (get_list ?n ?m)) ?m)" using calm_list [of ?m ?n "[]"] d(1) by simp
      then show ?thesis unfolding n(1) \<open>?f = LockProgress d\<close> by (simp add: calm_ok)
    next
      case 2
      let ?h = "(d, True, k)"
      let ?m' = "push (Fire ?h) (put_list ?h (started ?h (get_list ?h m\<lparr>queue := [a]\<rparr>)) ?m)"
      have fh: "?f = FireHandlers d k" using 2 first_nth(4) [OF wf assms(3)] by simp
      have fresh: "fresh_list (get_list ?h m) (added ?h (log m)) (called ?h (log m))" using won 2 d(1) by (simp add: won_def get_list_nth)
      have "active_list (started ?h (get_list ?h m\<lparr>queue := [a]\<rparr>)) (added ?h (log m)) (called ?h (log m)) a"
        using fresh_started [OF fresh] assms(3) by simp
      then have "won d (heap ?m' ! d) (log ?m') k a" using won n(3) 2 d(1) assms(3) by (simp add: won_def)
      moreover have "wf_lists d (heap ?m' ! d) (log ?m')" using wf_lists_add [of d ?m k "[]" True] wf' d(1) assms(3) by simp
      ultimately have "deferred_ok d ?m'" using fin d(1) by (intro won_ok [of d _ k a]) simp_all
      moreover have "deferred_ok d' ?m'" if "d' < length (heap m)" "d' \<noteq> d" for d'
        using other_deferred [of "[]" ?h d' ?m] other_deferred [of "[Called ?l ?f a]" ?l d' m] that assms(1) by (simp add: calm_def)
      moreover have "frames_ok ?m'"
        using frames_ok_push_fire [of ?m ?h] popped_frames [OF assms(2)] idle_list [of ?m ?h] d(1) fresh by (simp add: fresh_list_def)
      ultimately have "calm ?m'" by (auto simp: calm_def)
      moreover have "call_fun ?f a ?m = returning Undef ?m'"
        using d(1) fresh_fires [OF fresh, of a] unfolding fh by (simp add: fire_with_def start_fire_started)
      ultimately show ?thesis unfolding n(1) by (simp add: calm_ok)
    next
      case 3
      then show ?thesis unfolding n(1) using call_fun_ok [OF calm] first_nth(5) [OF wf assms(3) 3 n(2)] by simp
    qed
  qed
qed

text \<open>The first two turns of a list of callbacks.\<close>

lemma main_first_turn:
  assumes "stormy d k m" and "popped (d, False, k) m"
  shows "machine_ok (fire_step (d, False, k) m)"
proof -
  let ?l = "(d, False, k)" and ?st = "get_list (d, False, k) m" and ?A = "added (d, False, k) (log m)" and ?C = "called (d, False, k) (log m)"
  have d: "d < length (heap m)" and mid: "midway d (heap m ! d) (log m) k" and wf: "wf_lists d (heap m ! d) (log m)" and k: "k \<noteq> Notify"
    using assms(1) by (auto simp: stormy_def midway_def)
  obtain a where act: "active_list ?st ?A ?C a" using mid d by (auto simp: midway_def get_list_nth)
  have few: "length ?C < 2" using mid by (auto simp: midway_def)
  have True: "firingIndex ?st + 1 < int (length (list_of ?st))"
  proof (rule ccontr)
    assume "\<not> ?thesis"
    then have "length (list_of ?st) \<le> nat (firingIndex ?st + 1)" by simp
    then have "map (\<lambda>f. (f, a)) ?A = ?C" using act by (simp add: active_list_def)
    then have "length ?A = length ?C" by (metis length_map)
    then show False using few first_nth(6) [OF wf k] by simp
  qed
  note n = once_next [OF act assms(2) True]
  let ?f = "?A ! length ?C" and ?st' = "?st\<lparr>firingIndex := firingIndex ?st + 1\<rparr>"
  let ?m = "push (Fire ?l) (noted [Called ?l ?f a] (put_list ?l ?st' m))"
  have wf': "wf_lists d (heap ?m ! d) (log ?m)" using main_wf [OF wf d k, of "[Called ?l ?f a]"] by simp
  have others: "deferred_ok d' ?m" if "d' < length (heap m)" "d' \<noteq> d" for d'
    using other_deferred [of "[Called ?l ?f a]" ?l d' m] that assms(1) by (simp add: stormy_def)
  note frames = popped_frames [OF assms(2), of ?f a "firingIndex ?st + 1"]
  consider "length ?C = 0" | "length ?C = 1" using few by linarith
  then show ?thesis
  proof cases
    case 1
    obtain s where s: "final_state k = Some s" "?f = SetState d s" using first_nth(1) [OF wf k] 1 by auto
    let ?m' = "update_deferred d (\<lambda>x. x\<lparr>d_state := s\<rparr>) ?m"
    have "midway d (heap ?m' ! d) (log ?m') k" using mid n(3) 1 s d k assms(2) by (auto simp: midway_def get_list_nth popped_def)
    moreover have "wf_lists d (heap ?m' ! d) (log ?m')" using wf' d by (simp add: wf_lists_def)
    moreover have "deferred_ok d' ?m'" if "d' < length (heap m)" "d' \<noteq> d" for d'
      using others [OF that] that same_view_ok [of d' ?m ?m'] by (simp add: same_view_def)
    moreover have "frames_ok ?m'"
      using frames unfolding frames_ok_def get_list_update update_simps .
    ultimately have "stormy d k (returning Undef ?m')" using d by (simp add: stormy_def)
    then show ?thesis unfolding n(1) s(2) by (auto simp: machine_ok_def)
  next
    case 2
    let ?o = "(d, False, other_kind k)"
    let ?m' = "put_list ?o (disable (get_list ?o ?m)) ?m"
    have f: "?f = Disable d (other_kind k)" using first_nth(2) [OF wf k] 2 by simp
    have fin: "Some (d_state (heap m ! d)) = final_state k" using mid 2 by (auto simp: midway_def)
    have other: "fresh_list (get_list ?o m) (added ?o (log m)) (called ?o (log m))" and hs: "k' \<noteq> Notify \<Longrightarrow> lst_fresh d (heap m ! d) (log m) True k'" for k'
      using mid d by (cases k'; auto simp: midway_def get_list_nth)+
    have "dead_list (disable (get_list ?o ?m)) (called ?o (log m))" using other d k by (simp add: dead_list_def disable_def fresh_list_def)
    then have "won d (heap ?m' ! d) (log ?m') k a" using n(3) 2 d k hs by (simp add: won_def)
    moreover have "wf_lists d (heap ?m' ! d) (log ?m')" using wf_lists_add [of d ?m "other_kind k" "[]" False] wf' d k by simp
    ultimately have "deferred_ok d ?m'" using fin d by (intro won_ok [of d _ k a]) simp_all
    moreover have "deferred_ok d' ?m'" if "d' < length (heap m)" "d' \<noteq> d" for d'
      using other_deferred [of "[]" ?o d' ?m] others [OF that] that by simp
    moreover have "frames_ok ?m'"
      using frames_ok_put [of ?m ?o] frames idle_list [of ?m ?o] other d k by (simp add: fresh_list_def)
    ultimately have "calm ?m'" by (auto simp: calm_def)
    then show ?thesis unfolding n(1) f by (simp add: calm_ok)
  qed
qed

end
