(* ===== verification/Jq_Promises.thy ===== *)
theory Jq_Promises
  imports Jq_Settle "HOL-Library.Sublist"
begin

text \<open>
  The properties of deferreds: every move of clients, timers and the library keeps the invariant of \<open>Jq_Settle\<close>. A deferred is settled at most once,
  and functions given to \<open>then\<close> run only from a timer.
\<close>

section \<open>Moves keep the invariant\<close>

lemma calm_stack: "calm m \<Longrightarrow> stack m = fr # fs \<Longrightarrow> calm (m\<lparr>stack := fs\<rparr>) \<and> frame_safe fr"
  by (cases fr) (auto simp: calm_def frames_ok_def get_list_def)

lemma calm_depth: "calm m \<Longrightarrow> calm (update_deferred d (\<lambda>x. x\<lparr>d_maxDepth := n x\<rparr>) m)"
proof -
  assume c: "calm m"
  let ?m = "update_deferred d (\<lambda>x. x\<lparr>d_maxDepth := n x\<rparr>) m"
  have "deferred_ok d' ?m" if "d' < length (heap m)" for d'
    using c that same_view_ok [of d' ?m m] by (auto simp: calm_def same_view_def)
  moreover have "frames_ok ?m" using c unfolding calm_def frames_ok_def get_list_update update_simps by simp
  ultimately show ?thesis by (simp add: calm_def)
qed

definition opt_safe :: "'u dfun option \<Rightarrow> bool" where
  "opt_safe f = (case f of Some g \<Rightarrow> safe g | None \<Rightarrow> True)"

lemma opt_safe_simps [simp]: "opt_safe None" "opt_safe (Some f) = safe f"
  by (simp_all add: opt_safe_def)

lemma or_fun_safe [simp]: "opt_safe f \<Longrightarrow> safe g \<Longrightarrow> safe (or_fun f g)"
  by (cases f) (simp_all add: or_fun_def)

lemma client_fun_safe [simp]: "safe (client_fun f)"
  by (cases f) simp_all

lemma client_funs_safe [simp]: "opt_safe (map_option client_fun g)" "list_all safe (map client_fun fs)"
  by (cases g; simp) (simp add: list_all_iff)

lemma then_jq_calm: "calm m \<Longrightarrow> opt_safe f \<Longrightarrow> opt_safe g \<Longrightarrow> opt_safe p \<Longrightarrow> calm (then_jq d f g p m)"
  by (simp add: then_jq_def Let_def new_deferred_calm)

lemma pipe_calm: "calm m \<Longrightarrow> opt_safe f \<Longrightarrow> opt_safe g \<Longrightarrow> opt_safe p \<Longrightarrow> calm (pipe d f g p m)"
  by (simp add: pipe_def Let_def new_deferred_calm opt_safe_def)

lemma when_start_calm: "calm m \<Longrightarrow> calm (when_start vs m)"
  by (simp add: when_start_def Let_def new_deferred_calm)

lemma always_calm: "calm m \<Longrightarrow> list_all safe fs \<Longrightarrow> calm (always d fs m)"
  by (simp add: always_def)

lemma adoptValue_ok: "calm m \<Longrightarrow> safe f \<Longrightarrow> safe g \<Longrightarrow> machine_ok (adoptValue v f g b m)"
  by (auto simp: adoptValue_def calm_ok call_fun_ok split: option.splits)

lemma Deferred_ok: "calm m \<Longrightarrow> opt_safe f \<Longrightarrow> machine_ok (Deferred f m)"
  by (cases f) (simp_all add: Deferred_def Let_def new_deferred_calm calm_ok call_fun_ok)

lemma after_handler_ok:
  assumes "calm m" and "safe h"
  shows "machine_ok (after_handler depth d h special a v m)"
proof -
  let ?m = "push (InTry depth d h special a) m"
  have c: "calm ?m" using assms by simp
  have "calm (then_jq e (Some (Resolver n d Identity True)) (Some (Resolver n d Thrower True)) None ?m)" for e n
    by (intro then_jq_calm c) simp_all
  moreover have "calm (then_jq e (Some (Resolver n d Identity False)) (Some (Resolver n d Thrower False)) (Some (Resolver n d Identity True))
      (update_deferred d (\<lambda>x. x\<lparr>d_maxDepth := d_maxDepth x + 1\<rparr>) ?m))" for e n
    by (intro then_jq_calm calm_depth c) simp_all
  moreover have "machine_ok (fire_with (d, False, k) b ?m)" for k b by (simp add: fire_with_ok c)
  moreover have "machine_ok (throwing TypeError ?m)" using c by (simp add: calm_ok)
  ultimately show ?thesis
    unfolding after_handler_def Let_def by (cases "thenable v") (simp_all only: calm_ok option.case split: if_splits, simp_all add: calm_ok)
qed

lemma catch_process_ok: "calm m \<Longrightarrow> machine_ok (catch_process depth d h special a e m)"
  by (simp add: catch_process_def fire_with_ok calm_ok)

lemma pipe_result_ok: "calm m \<Longrightarrow> machine_ok (pipe_result n k ctx v m)"
  by (simp add: pipe_result_def fire_with_ok calm_ok split: option.split)

lemma do_todo_ok:
  assumes "calm m" and "todo_safe t"
  shows "machine_ok (do_todo t m)"
proof (cases t)
  case (AddTo l fs)
  then show ?thesis using assms by (simp add: add_to_calm calm_ok)
next
  case (Adopt v f g b)
  then show ?thesis using assms by (simp add: adoptValue_ok)
next
  case (WhenCheck w i)
  then show ?thesis using assms by (simp add: when_check_def Let_def set_result_def then_jq_calm calm_ok)
next
  case (WhenLoop w i)
  then show ?thesis
    using assms by (cases i) (simp_all add: when_loop_def Let_def set_result_def calm_ok adoptValue_ok)
qed

lemma fire_ok:
  assumes "machine_ok m" and "stack m = Fire l # fs" and "mode m = Returning v"
  shows "machine_ok (fire_step l (m\<lparr>stack := fs\<rparr>))"
proof (cases "calm m")
  case True
  obtain d h k where l: "l = (d, h, k)" by (cases l)
  have "calm (m\<lparr>stack := fs\<rparr>)" "popped l (m\<lparr>stack := fs\<rparr>)" using calm_stack [OF True assms(2)] popped_pop [OF _ assms(2)] True by (auto simp: calm_def)
  then show ?thesis using notify_turn [of _ d h] handlers_turn [of _ d k] main_later_turn [of _ d k] by (cases "k = Notify"; cases h) (auto simp: l)
next
  case False
  then obtain d k where s: "stormy d k m" "l = (d, False, k)" using assms by (auto simp: machine_ok_def)
  then have p: "popped l (m\<lparr>stack := fs\<rparr>)" using popped_pop [OF _ assms(2)] by (simp add: stormy_def)
  then have "stormy d k (m\<lparr>stack := fs\<rparr>)" using s by (simp add: stormy_def popped_def)
  then show ?thesis using main_first_turn p s(2) by blast
qed

lemma resume_ok:
  assumes "machine_ok m" and "stack m = fr # fs" and "mode m = Returning v"
  shows "machine_ok (resume fr v (m\<lparr>stack := fs\<rparr>))"
proof (cases "\<exists>l. fr = Fire l")
  case True
  then show ?thesis using fire_ok [OF assms(1) _ assms(3)] assms(2) by auto
next
  case False
  then have "calm m" using assms by (auto simp: machine_ok_def)
  then have c: "calm (m\<lparr>stack := fs\<rparr>)" "frame_safe fr" using calm_stack assms(2) by blast+
  show ?thesis
  proof (cases fr)
    case (Todo c ts)
    then show ?thesis using c do_todo_ok [of "push (Todo _ _) (m\<lparr>stack := fs\<rparr>)"] by (cases ts) (auto simp: calm_ok)
  qed (use c False in \<open>auto simp: calm_ok after_handler_ok pipe_result_ok\<close>)
qed

lemma unwind_ok:
  assumes "machine_ok m" and "stack m = fr # fs" and "mode m = Throwing e"
  shows "machine_ok (unwind fr e (m\<lparr>stack := fs\<rparr>))"
proof -
  have "calm m" using assms by (auto simp: machine_ok_def)
  then have c: "calm (m\<lparr>stack := fs\<rparr>)" "frame_safe fr" using calm_stack assms(2) by blast+
  show ?thesis
  proof (cases fr)
    case (Todo c ts)
    then show ?thesis using c by (cases c) (auto simp: calm_ok call_fun_ok)
  qed (use c in \<open>auto simp: calm_ok catch_process_ok\<close>)
qed

lemma operation_ok: "calm m \<Longrightarrow> operation mv m = Some m' \<Longrightarrow> machine_ok m'"
  by (cases mv) (auto simp: fire_with_ok add_to_calm always_calm then_jq_calm pipe_calm when_start_calm Deferred_ok call_fun_ok calm_ok)

lemma run_timer_ok:
  assumes "calm m" and "timers m = t # ts"
  shows "machine_ok (run_timer t (m\<lparr>timers := ts\<rparr>))"
proof -
  have c: "calm (m\<lparr>timers := ts\<rparr>)" "safe (fst t)" using assms by (auto simp: calm_def frames_ok_def get_list_def)
  then show ?thesis by (cases "fst t") (auto simp: run_timer_def calm_ok call_fun_ok)
qed

lemma step_ok:
  assumes "machine_ok m" and "step mv m = Some m'"
  shows "machine_ok m'"
proof (cases "mode m")
  case Running
  then have c: "calm m" using assms(1) by (auto simp: machine_ok_def)
  then show ?thesis
    using assms(2) Running operation_ok [OF c, of mv m'] calm_stack [OF c] run_timer_ok [OF c]
    by (auto simp: step_def calm_ok split: if_splits move.splits list.splits frame.splits)
next
  case (Returning v)
  then show ?thesis
    using assms resume_ok [OF assms(1) _ Returning] by (auto simp: step_def machine_ok_def calm_def split: if_splits list.splits)
next
  case (Throwing e)
  then show ?thesis
    using assms unwind_ok [OF assms(1) _ Throwing] by (auto simp: step_def machine_ok_def calm_def split: if_splits list.splits)
qed

lemma steps_ok: "machine_ok m \<Longrightarrow> steps mvs m = Some m' \<Longrightarrow> machine_ok m'"
  by (induction mvs arbitrary: m) (auto dest: step_ok split: option.splits)

lemma machine0_calm: "calm machine0"
  by (simp add: calm_def machine0_def frames_ok_def)

section \<open>The log only grows\<close>

definition extends :: "'u machine \<Rightarrow> 'u machine \<Rightarrow> bool" where
  "extends m m' \<longleftrightarrow> prefix (log m) (log m') \<and> length (heap m) \<le> length (heap m')"

lemma extends_refl [simp]: "extends m m"
  by (simp add: extends_def)

lemma extends_trans: "extends m m' \<Longrightarrow> extends m' m'' \<Longrightarrow> extends m m''"
  by (auto simp: extends_def intro: prefix_order.trans)

lemma same_log:
  "log (start_fire l st m) = log m" "length (heap (start_fire l st m)) = length (heap m)"
  "log (fire_with l a m) = log m" "length (heap (fire_with l a m)) = length (heap m)"
  "log (update_func w i a m) = log m" "length (heap (update_func w i a m)) = length (heap m)"
  by (simp_all add: start_fire_started fire_with_def update_func_def when_put_def Let_def split_def)

lemma call_fun_log: "log (call_fun f a m) = log m \<and> length (heap (call_fun f a m)) = length (heap m)"
  by (induction f a m rule: call_fun.induct) (auto simp: same_log split: option.splits)

lemma extends_simps [simp]:
  "extends m0 (returning v m) = extends m0 m" "extends m0 (throwing v m) = extends m0 m" "extends m0 (push fr m) = extends m0 m"
  "extends m0 (m\<lparr>mode := md\<rparr>) = extends m0 m" "extends m0 (m\<lparr>stack := fs\<rparr>) = extends m0 m" "extends m0 (m\<lparr>timers := ts\<rparr>) = extends m0 m"
  "extends m0 (m\<lparr>whens := ws\<rparr>) = extends m0 m" "extends m0 (put_list l st m) = extends m0 m" "extends m0 (update_deferred d g m) = extends m0 m"
  "extends m0 (fire_with l a m) = extends m0 m" "extends m0 (call_fun f a m) = extends m0 m"
  by (simp_all add: extends_def same_log call_fun_log)

lemma extends_new: "extends m0 m \<Longrightarrow> extends m0 (noted es m)" "extends m0 m \<Longrightarrow> extends m0 (new_deferred m)"
  by (auto simp: extends_def new_deferred_def Let_def)

lemma extends_ops [simp]:
  assumes "extends m0 m"
  shows "extends m0 (add_to l fs m)" and "extends m0 (then_jq d f g p m)" and "extends m0 (pipe d f g p m)" and "extends m0 (when_start vs m)"
    and "extends m0 (adoptValue v h k b m)" and "extends m0 (Deferred q m)" and "extends m0 (always d fs m)" and "extends m0 (fire_step l m)"
  using assms
  by (simp_all add: add_to_def start_fire_started then_jq_def pipe_def when_start_def adoptValue_def Deferred_def always_def fire_step_def
      Let_def split_def extends_new split: option.splits list.splits)

lemma do_todo_extends: "extends m0 m \<Longrightarrow> extends m0 (do_todo t m)"
  by (cases t) (auto simp: when_check_def when_loop_def set_result_def Let_def split: nat.splits)

lemma resume_extends: "extends m0 m \<Longrightarrow> extends m0 (resume fr v m)"
  by (induction fr v m rule: resume.induct)
    (auto simp: after_handler_def pipe_result_def do_todo_extends Let_def split: option.splits)

lemma unwind_extends: "extends m0 m \<Longrightarrow> extends m0 (unwind fr e m)"
  by (induction fr e m rule: unwind.induct) (auto simp: catch_process_def)

lemma step_extends:
  assumes "step mv m = Some m'"
  shows "extends m m'"
proof -
  have "operation mv m = Some m' \<Longrightarrow> extends m m'" by (cases mv) auto
  moreover have "extends m (run_timer t (m\<lparr>timers := ts\<rparr>))" for t ts
    by (cases "fst t") (auto simp: run_timer_def)
  ultimately show ?thesis
    using assms by (auto simp: step_def resume_extends unwind_extends split: if_splits mode.splits move.splits list.splits frame.splits)
qed

lemma steps_extends: "steps mvs m = Some m' \<Longrightarrow> extends m m'"
  by (induction mvs arbitrary: m) (auto split: option.splits dest: step_extends intro: extends_trans)

section \<open>Settled for good\<close>

text \<open>What it means that \<open>d\<close> was settled by \<open>k\<close> with \<open>a\<close>: the callbacks (and the handlers, \<open>h\<close>) called so far are the first ones that were added,
  in this order, each with \<open>a\<close>; when no list is firing, they are all; and none of the other action was called.\<close>

definition settled_by :: "nat \<Rightarrow> kind \<Rightarrow> dargs \<Rightarrow> 'u machine \<Rightarrow> bool" where
  "settled_by d k a m \<longleftrightarrow> (\<forall>h.
     prefix (called (d, h, k) (log m)) (map (\<lambda>f. (f, a)) (added (d, h, k) (log m))) \<and>
     (\<not> firing (get_list (d, False, k) m) \<longrightarrow> \<not> firing (get_list (d, h, k) m) \<longrightarrow>
        called (d, h, k) (log m) = map (\<lambda>f. (f, a)) (added (d, h, k) (log m))) \<and>
     called (d, h, other_kind k) (log m) = [])"

lemma active_prefix:
  "active_list st A C a \<Longrightarrow> prefix C (map (\<lambda>f. (f, a)) A) \<and> (\<not> firing st \<longrightarrow> C = map (\<lambda>f. (f, a)) A)"
  by (auto simp: active_list_def)

lemma won_settled:
  assumes "won d (heap m ! d) (log m) k a" and "wf_lists d (heap m ! d) (log m)" and "d < length (heap m)" and "k \<noteq> Notify"
  shows "settled_by d k a m"
proof -
  have main: "active_list (get_list (d, False, k) m) (added (d, False, k) (log m)) (called (d, False, k) (log m)) a"
    and hs: "if length (called (d, False, k) (log m)) < 4
       then fresh_list (get_list (d, True, k) m) (added (d, True, k) (log m)) (called (d, True, k) (log m))
       else active_list (get_list (d, True, k) m) (added (d, True, k) (log m)) (called (d, True, k) (log m)) a"
    using assms(1,3) by (simp_all add: won_def get_list_nth)
  have o: "called (d, h, other_kind k) (log m) = []" for h
    using assms(1) by (cases h) (simp_all add: won_def dead_list_def fresh_list_def)
  note four = first_nth(6) [OF assms(2,4)]
  have "length (called (d, False, k) (log m)) = length (added (d, False, k) (log m))" if "\<not> firing (get_list (d, False, k) m)"
    using active_prefix [OF main] that by (metis length_map)
  then show ?thesis
    using active_prefix [OF main] active_prefix [of "get_list (d, True, k) m" "added (d, True, k) (log m)" "called (d, True, k) (log m)" a] hs o four
    unfolding settled_by_def all_bool_eq by (simp add: fresh_list_def split: if_splits)
qed

lemma machine_cases:
  assumes "machine_ok m" and "d < length (heap m)"
  obtains "decided d (heap m ! d) (log m)" "wf_lists d (heap m ! d) (log m)"
    | k where "midway d (heap m ! d) (log m) k" "mode m \<noteq> Running"
proof (cases "calm m")
  case True
  then show thesis using that(1) assms(2) by (simp add: calm_def deferred_ok_def)
next
  case False
  then obtain d' k where s: "stormy d' k m" "mode m \<noteq> Running" using assms(1) by (auto simp: machine_ok_def)
  then show thesis using that assms(2) by (cases "d = d'") (auto simp: stormy_def deferred_ok_def)
qed

lemma midway_few: "midway d x es k \<Longrightarrow> k' \<noteq> Notify \<Longrightarrow> length (called (d, False, k') es) < 2"
  by (cases k; cases k') (auto simp: midway_def fresh_list_def)

lemma won_stays:
  assumes "won d (heap m ! d) (log m) k a" and "d < length (heap m)" and "k \<noteq> Notify" and "machine_ok m'" and "extends m m'"
  shows "won d (heap m' ! d) (log m') k a \<and> Some (d_state (heap m' ! d)) = final_state k \<and> wf_lists d (heap m' ! d) (log m')"
proof -
  obtain es where es: "log m' = log m @ es" and d: "d < length (heap m')" using assms(2,5) by (auto simp: extends_def prefix_def)
  let ?C = "called (d, False, k) (log m)"
  have two: "2 \<le> length ?C" using assms(1) by (simp add: won_def)
  have val: "(f, b) \<in> set ?C \<Longrightarrow> b = a" for f b using active_prefix [of _ _ ?C a] assms(1) by (fastforce simp: won_def dest: set_mono_prefix)
  from assms(4) d show ?thesis
  proof (rule machine_cases)
    fix k' assume "midway d (heap m' ! d) (log m') k'"
    then show ?thesis using midway_few [of d _ "log m'" k' k] two es assms(3) by fastforce
  next
    assume dec: "decided d (heap m' ! d) (log m')" and wf: "wf_lists d (heap m' ! d) (log m')"
    have "called (d, False, k) (log m') \<noteq> []" using two es by auto
    then obtain b where act: "lst_active d (heap m' ! d) (log m') False k b"
      using dec assms(3) by (cases k; cases "d_state (heap m' ! d)") (auto simp: decided_def won_def fresh_list_def dead_list_def)
    have "?C = [] \<or> b = a"
    proof (cases ?C)
      case (Cons fb C)
      then have "fb \<in> set (called (d, False, k) (log m'))" using es by simp
      then have "snd fb = b" using active_prefix [OF act] by (fastforce dest: set_mono_prefix)
      then show ?thesis using val [of "fst fb" "snd fb"] Cons by (cases fb) simp
    qed simp
    then show ?thesis using decided_won [OF dec assms(3) act] wf two by auto
  qed
qed

section \<open>Handlers run from timers\<close>

text \<open>A \<open>process\<close> that was started by a timer is the first frame; the others only have the two functions of the library as handlers.\<close>

fun stack_wf :: "'u frame list \<Rightarrow> bool" where
  "stack_wf [] = True"
| "stack_wf (Process depth d h special a # fs) = ((if depth = 0 then fs = [] else h = Identity \<or> h = Thrower) \<and> stack_wf fs)"
| "stack_wf (Client u # fs) = ((case fs of Process depth d h special a # _ \<Rightarrow> depth = 0 | _ \<Rightarrow> True) \<and> stack_wf fs)"
| "stack_wf (_ # fs) = stack_wf fs"

text \<open>Functions of the library that do not call a client themselves, and where a function may be called: from a \<open>process\<close> that no timer has started
  only one of these.\<close>

definition quiet :: "'u dfun \<Rightarrow> bool" where
  "quiet f = (case f of Identity \<Rightarrow> True | Thrower \<Rightarrow> True | Action _ _ \<Rightarrow> True | UpdateFunc _ _ \<Rightarrow> True | _ \<Rightarrow> False)"

definition callable :: "'u dfun \<Rightarrow> 'u frame list \<Rightarrow> bool" where
  "callable f fs = (case fs of Process depth d h special a # _ \<Rightarrow> depth = 0 \<or> quiet f | _ \<Rightarrow> True)"

fun quiet_todo :: "'u todo \<Rightarrow> bool" where
  "quiet_todo (Adopt v f g b) = (quiet f \<and> quiet g)"
| "quiet_todo _ = True"

fun quiet_frame :: "'u frame \<Rightarrow> bool" where
  "quiet_frame (Todo c is) = ((case c of Some f \<Rightarrow> quiet f | None \<Rightarrow> True) \<and> list_all quiet_todo is)"
| "quiet_frame _ = True"

definition top_client :: "'u frame list \<Rightarrow> bool" where
  "top_client fs = (case fs of [] \<Rightarrow> True | Client u # _ \<Rightarrow> True | _ \<Rightarrow> False)"

definition frames_wf :: "'u machine \<Rightarrow> bool" where
  "frames_wf m \<longleftrightarrow> stack_wf (stack m) \<and> list_all quiet_frame (stack m)"

definition timed :: "'u machine \<Rightarrow> bool" where
  "timed m \<longleftrightarrow> frames_wf m \<and> (mode m = Running \<longrightarrow> top_client (stack m))"

lemma quiet_simps [simp]:
  "quiet Identity" "quiet Thrower" "quiet (Action d k)" "quiet (UpdateFunc w i)" "\<not> quiet (User u)" "\<not> quiet (Resolver n d h s)" "\<not> quiet (PipeStep n k q)"
  by (simp_all add: quiet_def)

lemma frames_wf_simps [simp]:
  "frames_wf (returning v m) = frames_wf m" "frames_wf (throwing v m) = frames_wf m" "frames_wf (m\<lparr>mode := md\<rparr>) = frames_wf m"
  "frames_wf (m\<lparr>timers := ts\<rparr>) = frames_wf m" "frames_wf (m\<lparr>whens := ws\<rparr>) = frames_wf m" "frames_wf (put_list l st m) = frames_wf m"
  "frames_wf (update_deferred d g m) = frames_wf m" "frames_wf (noted es m) = frames_wf m" "frames_wf (new_deferred m) = frames_wf m"
  "frames_wf (push (Fire l) m) = frames_wf m" "frames_wf (push (InTry n d h sp a) m) = frames_wf m" "frames_wf (push (PipeWait n k v) m) = frames_wf m"
  "frames_wf (push (Todo c tds) m) \<longleftrightarrow> quiet_frame (Todo c tds) \<and> frames_wf m"
  by (auto simp: frames_wf_def new_deferred_def Let_def)

lemma timed_simps [simp]: "timed (returning v m) = frames_wf m" "timed (throwing v m) = frames_wf m"
  by (simp_all add: timed_def)

lemma fire_with_timed [simp]: "timed (fire_with l a m) = frames_wf m"
  by (simp add: fire_with_def start_fire_started Let_def split_def)

lemma add_to_timed [simp]: "timed (add_to l fs m) = frames_wf m"
  by (simp add: add_to_def start_fire_started Let_def split_def)

lemma call_fun_timed: "frames_wf m \<Longrightarrow> safe f \<Longrightarrow> callable f (stack m) \<Longrightarrow> timed (call_fun f a m)"
proof (induction f a m rule: call_fun.induct)
  case (1 u a m)
  then show ?case by (auto simp: callable_def frames_wf_def timed_def top_client_def split: list.splits frame.splits)
next
  case (9 depth d h special a m)
  then show ?case by (auto simp: callable_def frames_wf_def)
next
  case (10 n k fn a m)
  then show ?case by (cases fn) (auto simp: callable_def)
next
  case (11 w i a m)
  then show ?case by (simp add: update_func_def when_put_def Let_def)
qed simp_all

lemma then_jq_timed [simp]: "timed (then_jq d f g p m) = frames_wf m"
  by (simp add: then_jq_def Let_def)

lemma adoptValue_timed: "frames_wf m \<Longrightarrow> quiet f \<Longrightarrow> quiet g \<Longrightarrow> safe f \<Longrightarrow> timed (adoptValue v f g b m)"
  by (auto simp: adoptValue_def callable_def intro: call_fun_timed split: option.splits)

lemma do_todo_timed:
  assumes "frames_wf m" and "quiet_todo t" and "todo_safe t"
  shows "timed (do_todo t m)"
proof (cases t)
  case (WhenCheck w i)
  then show ?thesis using assms by (simp add: when_check_def Let_def set_result_def)
next
  case (WhenLoop w i)
  then show ?thesis using assms by (cases i) (simp_all add: when_loop_def Let_def set_result_def adoptValue_timed)
qed (use assms in \<open>simp_all add: adoptValue_timed\<close>)

text \<open>The functions that lists call are the first callbacks, or safe.\<close>

definition basic :: "'u dfun \<Rightarrow> bool" where
  "basic f = (case f of SetState _ _ \<Rightarrow> True | Disable _ _ \<Rightarrow> True | LockProgress _ \<Rightarrow> True | FireHandlers _ _ \<Rightarrow> True | _ \<Rightarrow> False)"

lemma wf_added: "wf_lists d x es \<Longrightarrow> k \<noteq> Notify \<Longrightarrow> f \<in> set (added (d, h, k) es) \<Longrightarrow> safe f \<or> basic f"
  by (cases h; cases k) (auto simp: wf_lists_def list_all_iff first_callbacks_def final_state_def basic_def)

lemma next_active:
  assumes "active_list st A C a" and "firing st" and "firingIndex st + 1 < int (length (list_of st))"
  shows "list_of st ! nat (firingIndex st + 1) \<in> set A"
  using active_next [OF assms] by simp

lemma next_fun:
  assumes "machine_ok m" and "stack m = Fire (d, h, k) # fs" and "firingIndex (get_list (d, h, k) m) + 1 < int (length (list_of (get_list (d, h, k) m)))"
  shows "safe (list_of (get_list (d, h, k) m) ! nat (firingIndex (get_list (d, h, k) m) + 1)) \<or>
    basic (list_of (get_list (d, h, k) m) ! nat (firingIndex (get_list (d, h, k) m) + 1))" (is "safe ?f \<or> basic ?f")
proof -
  let ?st = "get_list (d, h, k) m"
  have fo: "frames_ok m" using assms(1) by (auto simp: machine_ok_def calm_def stormy_def)
  then have d: "d < length (heap m)" and f: "firing ?st" using assms(2) by (auto simp: frames_ok_def)
  have wf: "wf_lists d (heap m ! d) (log m)"
    using assms(1) d by (auto simp: machine_ok_def calm_def deferred_ok_def stormy_def)
  show ?thesis
  proof (cases "k = Notify")
    case True
    have "-1 \<le> firingIndex ?st" using wf d True by (simp add: wf_lists_def get_list_nth)
    then have "?f \<in> set (list_of ?st)" using assms(3) by (intro nth_mem) simp
    then show ?thesis using wf d True by (cases h) (auto simp: wf_lists_def list_all_iff get_list_nth basic_def)
  next
    case k: False
    have "\<exists>a. active_list ?st (added (d, h, k) (log m)) (called (d, h, k) (log m)) a"
    proof (cases "calm m")
      case True
      then have "deferred_ok d m" using d by (simp add: calm_def)
      then show ?thesis by (rule once_list_cases [OF _ d k, of h]) (use f in \<open>auto simp: fresh_list_def dead_list_def\<close>)
    next
      case False
      then show ?thesis using assms(1,2) d by (auto simp: machine_ok_def stormy_def midway_def get_list_nth)
    qed
    then show ?thesis using next_active [OF _ f assms(3)] wf_added [OF wf k, of ?f h] by blast
  qed
qed

lemma fire_step_timed:
  assumes "machine_ok m" and "stack m = Fire l # fs" and "frames_wf (m\<lparr>stack := fs\<rparr>)"
  shows "timed (fire_step l (m\<lparr>stack := fs\<rparr>))"
proof -
  let ?m = "m\<lparr>stack := fs\<rparr>" and ?st = "get_list l m"
  have st: "get_list l ?m = ?st" by (simp add: get_list_def)
  show ?thesis
  proof (cases "firingIndex ?st + 1 < int (length (list_of ?st))")
    case True
    let ?f = "list_of ?st ! nat (firingIndex ?st + 1)" and ?a = "case memory ?st of Some a \<Rightarrow> a | None \<Rightarrow> (Undef, [])"
    let ?m' = "push (Fire l) (noted [Called l ?f ?a] (put_list l (?st\<lparr>firingIndex := firingIndex ?st + 1\<rparr>) ?m))"
    have "safe ?f \<or> basic ?f" using next_fun [OF assms(1), of "fst l" "fst (snd l)" "snd (snd l)" fs] assms(2) True by simp
    moreover have "timed (call_fun ?f ?a ?m')" if "safe ?f" using that assms(3) by (intro call_fun_timed) (auto simp: callable_def)
    moreover have "timed (call_fun ?f ?a ?m')" if "basic ?f" using that assms(3) by (cases ?f) (simp_all add: basic_def)
    ultimately show ?thesis using True by (auto simp: fire_step_def st Let_def)
  next
    case False
    then show ?thesis using assms(3) by (simp add: fire_step_def st Let_def split: list.split)
  qed
qed

lemma frames_wf_stack:
  assumes "frames_wf m" and "stack m = fr # fs"
  shows "frames_wf (m\<lparr>stack := fs\<rparr>)" and "quiet_frame fr"
proof -
  have "stack_wf fs" using assms by (cases fr) (auto simp: frames_wf_def)
  then show "frames_wf (m\<lparr>stack := fs\<rparr>)" "quiet_frame fr" using assms by (auto simp: frames_wf_def)
qed

lemma client_back:
  assumes "frames_wf m" and "stack m = Client u # fs"
  shows "timed ((push (Client u) (m\<lparr>stack := fs\<rparr>))\<lparr>mode := Running\<rparr>)"
  using assms by (simp add: timed_def frames_wf_def top_client_def)

lemma resume_timed:
  assumes "machine_ok m" and "frames_wf m" and "stack m = fr # fs" and "mode m = Returning v"
  shows "timed (resume fr v (m\<lparr>stack := fs\<rparr>))"
proof -
  note w = frames_wf_stack [OF assms(2,3)]
  show ?thesis
  proof (cases fr)
    case (Todo c ts)
    have "calm m" using assms(1,3) Todo by (auto simp: machine_ok_def)
    then have "frame_safe fr" using calm_stack [OF _ assms(3)] by simp
    then show ?thesis using Todo w by (cases ts) (auto intro!: do_todo_timed)
  qed (use assms w client_back [OF assms(2)] fire_step_timed [OF assms(1)] in
    \<open>auto simp: after_handler_def pipe_result_def Let_def split: option.splits\<close>)
qed

lemma unwind_timed:
  assumes "machine_ok m" and "frames_wf m" and "stack m = fr # fs" and "mode m = Throwing e"
  shows "timed (unwind fr e (m\<lparr>stack := fs\<rparr>))"
proof -
  note w = frames_wf_stack [OF assms(2,3)]
  have "calm m" using assms(1,4) by (auto simp: machine_ok_def)
  then have sf: "frame_safe fr" using calm_stack [OF _ assms(3)] by simp
  show ?thesis
  proof (cases fr)
    case (Todo c ts)
    then show ?thesis using sf w by (cases c) (auto simp: callable_def intro!: call_fun_timed split: list.splits frame.splits)
  qed (use assms w client_back [OF assms(2)] in \<open>auto simp: catch_process_def\<close>)
qed

lemma operation_timed:
  assumes "timed m" and "mode m = Running" and "operation mv m = Some m'"
  shows "timed m'"
proof -
  have w: "frames_wf m" "callable f (stack m)" for f
    using assms(1,2) by (auto simp: timed_def callable_def top_client_def split: list.splits frame.splits)
  then have "callable f (stack (new_deferred m))" for f by (simp add: new_deferred_def Let_def)
  then show ?thesis
    using assms(3) w
    by (cases mv) (auto simp: Deferred_def always_def pipe_def when_start_def Let_def intro: call_fun_timed split: option.splits)
qed

lemma run_timer_timed:
  assumes "frames_wf m" and "stack m = []" and "safe (fst t)"
  shows "timed (run_timer t (m\<lparr>timers := ts\<rparr>))"
proof (cases "fst t")
  case (Resolver depth d h special)
  let ?m = "push (Process depth d h special (snd t)) (m\<lparr>timers := ts\<rparr>)"
  have "frames_wf ?m" "callable h (stack ?m)" using assms Resolver by (auto simp: frames_wf_def callable_def)
  then show ?thesis using assms Resolver call_fun_timed [of ?m h "snd t"] by (simp add: run_timer_def)
qed (use assms in \<open>simp_all add: run_timer_def\<close>)

lemma step_timed:
  assumes "machine_ok m" and "timed m" and "step mv m = Some m'"
  shows "timed m'"
proof -
  have w: "frames_wf m" using assms(2) by (simp add: timed_def)
  have idle: "stack m = [] \<Longrightarrow> timed (m\<lparr>mode := Running\<rparr>)" using w by (simp add: timed_def top_client_def)
  show ?thesis
  proof (cases "mode m")
    case Running
    then have c: "calm m" using assms(1) by (auto simp: machine_ok_def)
    then have ts: "timers m = t # ts \<Longrightarrow> safe (fst t)" for t ts by (simp add: calm_def frames_ok_def)
    show ?thesis
      using assms(3) Running operation_timed [OF assms(2) Running, of mv m'] frames_wf_stack [OF w] run_timer_timed [OF w] ts
      by (auto simp: step_def split: if_splits move.splits list.splits frame.splits)
  next
    case (Returning v)
    then show ?thesis
      using assms(3) idle resume_timed [OF assms(1) w _ Returning] by (cases "stack m") (simp_all add: step_def split: if_splits)
  next
    case (Throwing e)
    then show ?thesis
      using assms(3) idle unwind_timed [OF assms(1) w _ Throwing] by (cases "stack m") (simp_all add: step_def split: if_splits)
  qed
qed

lemma steps_timed: "machine_ok m \<Longrightarrow> timed m \<Longrightarrow> steps mvs m = Some m' \<Longrightarrow> timed m'"
  by (induction mvs arbitrary: m) (auto dest: step_ok step_timed split: option.splits)

section \<open>Properties\<close>

lemma run_ok: "steps mvs machine0 = Some m \<Longrightarrow> machine_ok m"
  using steps_ok [of machine0 mvs m] machine0_calm calm_ok by blast

lemma final_kind: "Some s = final_state k \<Longrightarrow> k \<noteq> Notify"
  by (cases k) (simp_all add: final_state_def)

lemma decided_pending: "decided d x es \<Longrightarrow> d_state x = Pending \<Longrightarrow> called (d, h, Resolve) es = [] \<and> called (d, h, Reject) es = []"
  by (auto simp: decided_def fresh_list_def)

lemma decided_settled: "decided d x es \<Longrightarrow> d_state x \<noteq> Pending \<Longrightarrow> \<exists>k a. won d x es k a \<and> Some (d_state x) = final_state k"
  by (cases "d_state x") (auto simp: decided_def final_state_def intro: exI [of _ Resolve] exI [of _ Reject])

text \<open>
  Claim C38. A deferred is settled at most once, whatever the clients do in whatever order, also from within callbacks and with exceptions. While it is
  pending none of its callbacks for resolution or rejection was called. Once it is settled, its state and its value are the same
  for ever after; the callbacks and handlers called are those that were added, in this order, each once and all with
  that value, and none of the other kind is ever called.\<close>

theorem deferred_settles_once:
  assumes "steps mvs machine0 = Some m" and "mode m = Running" and "d < length (heap m)"
  shows "if state_of d m = Pending then \<forall>h. called (d, h, Resolve) (log m) = [] \<and> called (d, h, Reject) (log m) = []
    else \<exists>k a. final_state k = Some (state_of d m) \<and>
      (\<forall>mvs' m'. steps mvs' m = Some m' \<longrightarrow> state_of d m' = state_of d m \<and> settled_by d k a m')"
proof -
  have ok: "machine_ok m" by (rule run_ok [OF assms(1)])
  then have dec: "decided d (heap m ! d) (log m)" by (rule machine_cases [OF _ assms(3)]) (use assms(2) in auto)
  show ?thesis
  proof (cases "d_state (heap m ! d) = Pending")
    case True
    then show ?thesis using decided_pending [OF dec] assms(3) by (simp add: state_of_def)
  next
    case False
    then obtain k a where k: "won d (heap m ! d) (log m) k a" "Some (d_state (heap m ! d)) = final_state k" using decided_settled [OF dec] by blast
    have "state_of d m' = state_of d m \<and> settled_by d k a m'" if "steps mvs' m = Some m'" for mvs' m'
    proof -
      have e: "extends m m'" "d < length (heap m')" using steps_extends [OF that] assms(3) by (auto simp: extends_def)
      note w = won_stays [OF k(1) assms(3) final_kind [OF k(2)] steps_ok [OF ok that] e(1)]
      then have "settled_by d k a m'" using won_settled [of d m' k a] e(2) final_kind [OF k(2)] by blast
      then show ?thesis using w k(2) e(2) assms(3) by (metis option.inject state_of_def)
    qed
    then show ?thesis using False assms(3) k(2) by (metis state_of_def)
  qed
qed

text \<open>A deferred that is resolved, with one callback, and then rejected.\<close>

definition sample_moves :: "nat move list" where
  "sample_moves = [MNew None, MAuto, MAdd 0 Resolve [Own_fun 1], MAuto, MFireWith 0 Resolve (Undef, [TypeError])] @ replicate 6 MAuto @
     [MReturn Undef, MAuto, MAuto]"

theorem deferred_settles_once_witness:
  "\<exists>m m'. steps sample_moves machine0 = Some m \<and> steps [MFireWith 0 Reject (Undef, []), MAuto] m = Some m' \<and>
     state_of 0 m' = Resolved \<and> called (0, False, Reject) (log m') = []"
proof -
  have "case steps sample_moves machine0 of None \<Rightarrow> False
      | Some m \<Rightarrow> mode m = Running \<and> length (heap m) = 1 \<and> state_of 0 m = Resolved \<and>
          (case steps [MFireWith 0 Reject (Undef, []), MAuto] m of None \<Rightarrow> False | Some m' \<Rightarrow> True)" by code_simp
  then obtain m m' where m: "steps sample_moves machine0 = Some m" "mode m = Running" "length (heap m) = 1" "state_of 0 m = Resolved"
      "steps [MFireWith 0 Reject (Undef, []), MAuto] m = Some m'"
    by (auto simp del: steps.simps split: option.splits)
  obtain k a where k: "final_state k = Some (state_of 0 m)" "\<forall>mvs' m'. steps mvs' m = Some m' \<longrightarrow> state_of 0 m' = state_of 0 m \<and> settled_by 0 k a m'"
    using deferred_settles_once [OF m(1,2), of 0] m(3,4) by (auto simp del: steps.simps)
  have "state_of 0 m' = Resolved" "settled_by 0 k a m'" using k(2) m(4,5) by (auto simp del: steps.simps)
  moreover have "k = Resolve" using k(1) m(4) by (cases k) (simp_all add: final_state_def)
  ultimately show ?thesis using m(1,5) unfolding settled_by_def by (metis other_kind_simps(1))
qed

text \<open>
  Claim C39. A function given to \<open>then\<close> is never called synchronously: whenever the function of a client runs as the handler of a \<open>process\<close>, this is called by
  a timer, with nothing else on the stack, whatever was resolved when and by whom.\<close>

theorem then_handlers_from_timer:
  assumes "steps mvs machine0 = Some m" and "stack m = Client u # Process depth d h special a # fs"
  shows "fs = [] \<and> depth = 0"
proof -
  have "timed machine0" by (simp add: timed_def frames_wf_def machine0_def top_client_def)
  then have "timed m" using steps_timed [of machine0 mvs m] machine0_calm calm_ok assms(1) by blast
  then show ?thesis using assms(2) by (auto simp: timed_def frames_wf_def split: if_splits)
qed

definition then_moves :: "nat move list" where
  "then_moves = [MNew None, MAuto, MFireWith 0 Resolve (Undef, [TypeError])] @ replicate 7 MAuto @ [MThen 0 (Some (Own_fun 1)) None None] @
     replicate 7 MAuto @ [MTimer]"

theorem then_handlers_from_timer_witness:
  "\<exists>m. steps then_moves machine0 = Some m \<and> stack m = [Client 1, Process 0 1 (User 1) False (Undef, [TypeError])]"
proof -
  have "case steps then_moves machine0 of None \<Rightarrow> False
      | Some m \<Rightarrow> take 2 (stack m) = [Client 1, Process 0 1 (User 1) False (Undef, [TypeError])]" by code_simp
  then obtain m where m: "steps then_moves machine0 = Some m" "take 2 (stack m) = [Client 1, Process 0 1 (User 1) False (Undef, [TypeError])]"
    by (auto split: option.splits)
  then have "stack m = Client 1 # Process 0 1 (User 1) False (Undef, [TypeError]) # drop 2 (stack m)"
    by (metis append_Cons append_Nil append_take_drop_id)
  then show ?thesis using then_handlers_from_timer [OF m(1)] m by metis
qed

end
