(* ===== verification/Spec2Isabelle.thy ===== *)
theory Spec2Isabelle
  imports Server_Properties Server_Auth Server_Replies Server_Reload Worker_Pool Port_Pool Js_Stemmer Us_Native Us_Order Us_Arrays Us_Timing Us_Objects Us_Utility
    Se_Properties Ws_Properties Jq_Extend Jq_Firing Jq_Classes Jq_Param Jq_Queue Jq_Request Jq_Promises
begin

text \<open>
  A verification development of \<open>gortcd\<close>: the STUN and TURN server in Go (\<open>src/internal\<close>) and the scripts of
  its documentation pages in JavaScript (\<open>src/docs/_build/html/_static\<close>).

  \<^bold>\<open>The server.\<close> A datagram is read by \<open>serveConn\<close>, checked to be a STUN message or channel data, authenticated against the static
  credentials and the nonces, dispatched to the handler of its method, and answered. The handlers work on the table of
  allocations, which asks the relayed address allocator for sockets and sends data of clients to peers; the filter decides
  which peers and clients are allowed. The STUN and TURN packages and the network of Go are arguments of the definitions, with what
  the code relies on as laws of a locale.

  \<^item> \<open>Go_Prelude\<close>, \<open>Go_Net\<close>: slices, time, and the parts of \<open>net.IP\<close> and CIDR notation the code uses, byte by byte.
    \<open>Turn_Api\<close>, \<open>Stun_Api\<close>: the interfaces of the packages.
  \<^item> \<open>Filter_Rules\<close> (\<open>internal/filter\<close>), \<open>Auth_Static\<close>, \<open>Auth_Nonce\<close> (\<open>internal/auth\<close>): first match of a rule list, independence of
    the form of an address, the subnet of a CIDR rule; acceptance of a message exactly with the right key; lifetime of a nonce.
  \<^item> \<open>Net_Ports\<close> (\<open>internal/allocator/port.go\<close>, \<open>port_sys.go\<close>): sockets of the system and the addresses handed out; an interface as
    a locale, interpreted on the sockets of the system. \<open>Port_Pool\<close> (\<open>port_sys_pool.go\<close>): the pool of ports, with what it gets wrong.
  \<^item> \<open>Allocator_Model\<close> (\<open>internal/allocator/allocator.go\<close>, \<open>allocation.go\<close>): every operation with its critical sections.
    \<open>Allocator_Invariant\<close>: well-formed tables and that every operation keeps them. \<open>Allocator_View\<close>: the abstract table of
    allocations, permissions and channels. \<open>Allocator_Theorems\<close>, \<open>Allocator_Properties\<close>: refinement, delivery
    exactly with a permission or a binding, lifetimes, and what failed or removed allocations leave behind.
  \<^item> \<open>Server_Context\<close>, \<open>Turn_Server\<close> (\<open>internal/server\<close>): contexts, configuration, authentication, handlers, dispatch, and one
    datagram of \<open>serveConn\<close>. \<open>Server_Effects\<close>: what a handler can do. \<open>Server_Runs\<close>: runs of datagrams, collector ticks and
    reloads as a step relation. \<open>Server_Properties\<close>, \<open>Server_Auth\<close>, \<open>Server_Replies\<close>: the invariant of all reachable states, the peer
    filter and the isolation of clients end to end, no service without credentials, the handshake, and the replies.
  \<^item> \<open>Worker_Pool\<close> (\<open>internal/server/worker_pool.go\<close>): the pool as interleaved steps; no context is lost or served twice. \<open>Server_Reload\<close>
    (\<open>internal/server/reload.go\<close>, \<open>internal/reload\<close>, \<open>internal/manage\<close>): from the request to reload to the options of the servers.

  \<^bold>\<open>The pages.\<close> \<open>Js_Prelude\<close> has strings of 16-bit units, objects with inherited names and sorting; \<open>Us_Values\<close> values, exceptions and callbacks as
    state transitions.

  \<^item> \<open>Js_Stemmer\<close> (\<open>documentation_options.js\<close>): the Porter stemmer and the query splitter, which computes the runs of word characters.
  \<^item> \<open>Us_Collections\<close>, \<open>Us_Native\<close>, \<open>Us_Order\<close>, \<open>Us_Arrays\<close>, \<open>Us_Functions\<close>, \<open>Us_Timing\<close>, \<open>Us_Objects\<close>, \<open>Us_Utility\<close>
    (\<open>underscore-1.3.1.js\<close>): every function of the library; equivalence of the native and the own loops, termination of binary search
    and of deep comparison, windows of throttled and debounced functions over explicit timers, text of templates.
  \<^item> \<open>Js_Uri\<close>, \<open>Js_Doctools\<close>, \<open>Js_Page\<close> (\<open>doctools.js\<close>): URI coding, query parameters, the highlighting of a page tree, which never changes
    its text. \<open>Js_Search\<close>, \<open>Se_Properties\<close> (\<open>searchtools.js\<close>): the search and its state; it finds
    exactly the documents of a reference definition.
  \<^item> \<open>Ws_Comments\<close>, \<open>Ws_Properties\<close> (\<open>websupport.js\<close>): the comment script on a record of the page; votes and the order of comments.
  \<^item> \<open>jquery-3.2.1.js\<close>: \<open>Jq_Core\<close> has the heap with prototype chains, \<open>extend\<close>, type tests, loops and sets, \<open>Jq_Extend\<close>
    what copying keeps and where it reaches the shared prototype. \<open>Jq_Callbacks\<close>, \<open>Jq_Firing\<close>: callback lists with
    callbacks that use their own list; a list that fires once calls each callback once. \<open>Jq_Classes\<close>: class names as text refine
    lists of names. \<open>Jq_Param\<close>: query strings and their way back through \<open>doctools.js\<close>. \<open>Jq_Data\<close>, \<open>Jq_Queue\<close>: the data
    store and the function queues kept in it, which run one function at a time. \<open>Jq_Ajax\<close>, \<open>Jq_Request\<close>: the choice and conversion of
    responses, and the course of a request, which ends exactly once. \<open>Jq_Deferred\<close>: deferreds as a machine with a stack, timers and clients that may
    do anything at any point; \<open>Jq_Settle\<close>, \<open>Jq_Promises\<close>: the invariant of its lists, that a deferred is settled once and for good, and that
    handlers of \<open>then\<close> run from timers only.

  \<^bold>\<open>Bounds.\<close> Go times and durations are integers. Recursions that may not end have a bound: the depth of \<open>isEqual\<close> is one more than the number of
    objects, which is proved enough; flattening and \<open>extend\<close> take a depth, because a cyclic value keeps the code from returning;
    \<open>sortedIndex\<close> is proved for arrays of at most \<open>2 ^ 30\<close> elements, where the sum of two indices fits 32 bits; the loops of callback lists are partial
    functions, and that they return is proved for callbacks whose additions have a rank. A prototype chain is at most as long as the heap.

  \<^bold>\<open>Not modelled.\<close> The goroutines and shutdown of the server, metrics registration, the command line and the subscription to signals,
  which are input and output around the modelled handlers; the end-to-end harnesses; the minified copies of the libraries; of jQuery the selector engine, events, the manipulation of the document,
  styles and animation, and of requests the options, the URL and the transports of the browser. Case conversion, the conversion of values to numbers and strings, and regular expressions
  given by users are arguments.
\<close>

end
